(* ===== verification/Prelude.thy ===== *)
theory Prelude
  imports
    Main
    "HOL-Library.State_Monad"
    "HOL-Library.AList"
    "HOL-Library.Char_ord"
    "HOL-Library.List_Lexorder"
begin

text \<open>
  What every component of the operator's model shares:
  \<^item> the Go conventions: the \<open>error\<close> interface as a datatype, a function that reads or
    changes the world as a computation of the library's state monad over a world type, a
    fallible one with an \<open>error + 'a\<close> result (\<open>Inl\<close> is the non-nil error);
  \<^item> \<open>bindE\<close>, Go's \<^verbatim>\<open>x, err := f(); if err != nil { return err }\<close>, and \<open>forE\<close>, a
    \<^verbatim>\<open>for ... range\<close> loop whose body may return early with an error;
  \<^item> \<open>triple P m Q\<close>, a Hoare triple of total functions (every computation here
    returns), with the rules the component proofs are driven by;
  \<^item> Go maps as association lists with distinct keys, read with \<open>map_of\<close> and written
    with the library's \<open>AList.update\<close> and \<open>AList.delete\<close>.
  Contexts (\<^verbatim>\<open>context.Context\<close>) and log lines have no part in any result and are left out.
\<close>

named_theorems go_defs \<open>definitions that symbolic execution of a component unfolds\<close>
named_theorems triple_rules \<open>syntax-directed rules for Hoare triples\<close>

section \<open>Errors and computations\<close>

text \<open>
  \<open>Errorf\<close> is an error the repository's code makes with \<^verbatim>\<open>fmt.Errorf\<close>, with the error it
  wraps. \<open>Extern\<close> is an error that a library or a service returned. \<open>Panic\<close> is a run-time
  panic. \<open>OutOfFuel\<close> is no error of the program: it marks a loop that has not ended within
  the number of rounds its model allows, and the loop's lemmas say when it cannot occur.
\<close>

datatype error =
    Errorf string "error option"
  | Extern string
  | Panic string
  | OutOfFuel

type_synonym ('w, 'a) io = "('w, 'a) state"
type_synonym ('w, 'a) ioE = "('w, error + 'a) state"

abbreviation ret :: "'a \<Rightarrow> ('w, 'a) io" where
  "ret \<equiv> State_Monad.return"

definition retE :: "'a \<Rightarrow> ('w, 'a) ioE" where
  "retE x = ret (Inr x)"

definition failE :: "error \<Rightarrow> ('w, 'a) ioE" where
  "failE e = ret (Inl e)"

definition bindE :: "('w, 'a) ioE \<Rightarrow> ('a \<Rightarrow> ('w, 'b) ioE) \<Rightarrow> ('w, 'b) ioE" where
  "bindE m f = State_Monad.bind m (\<lambda>r. case r of Inl e \<Rightarrow> failE e | Inr x \<Rightarrow> f x)"

text \<open>\<^verbatim>\<open>if err := m; err != nil { return wrap(err) }\<close>\<close>

definition wrapE :: "(error \<Rightarrow> error) \<Rightarrow> ('w, 'a) ioE \<Rightarrow> ('w, 'a) ioE" where
  "wrapE h m = State_Monad.bind m (\<lambda>r. case r of Inl e \<Rightarrow> failE (h e) | Inr x \<Rightarrow> retE x)"

text \<open>\<^verbatim>\<open>_ = m\<close>: the effect is kept and the error dropped.\<close>

definition ignoreE :: "('w, 'a) ioE \<Rightarrow> ('w, unit) ioE" where
  "ignoreE m = State_Monad.bind m (\<lambda>_. retE ())"

primrec forE :: "'a list \<Rightarrow> ('a \<Rightarrow> ('w, unit) ioE) \<Rightarrow> ('w, unit) ioE" where
  "forE [] f = retE ()"
| "forE (x # xs) f = bindE (f x) (\<lambda>_. forE xs f)"

text \<open>A loop whose body cannot fail.\<close>

primrec forM :: "'a list \<Rightarrow> ('a \<Rightarrow> ('w, unit) io) \<Rightarrow> ('w, unit) io" where
  "forM [] f = ret ()"
| "forM (x # xs) f = State_Monad.bind (f x) (\<lambda>_. forM xs f)"

lemma run_retE [simp]: "run_state (retE x) w = (Inr x, w)"
  by (simp add: retE_def)

lemma run_failE [simp]: "run_state (failE e) w = (Inl e, w)"
  by (simp add: failE_def)

lemma run_bindE: "run_state (bindE m f) w =
    (case run_state m w of (Inl e, w') \<Rightarrow> (Inl e, w') | (Inr x, w') \<Rightarrow> run_state (f x) w')"
  by (auto simp: bindE_def split: prod.splits sum.splits)

lemma run_bindE_Inr: "run_state m w = (Inr x, w') \<Longrightarrow> run_state (bindE m f) w = run_state (f x) w'"
  by (simp add: run_bindE)

lemma run_bindE_Inl: "run_state m w = (Inl e, w') \<Longrightarrow> run_state (bindE m f) w = (Inl e, w')"
  by (simp add: run_bindE)

lemma run_wrapE: "run_state (wrapE h m) w =
    (case run_state m w of (Inl e, w') \<Rightarrow> (Inl (h e), w') | (Inr x, w') \<Rightarrow> (Inr x, w'))"
  by (auto simp: wrapE_def split: prod.splits sum.splits)

lemma run_ignoreE: "run_state (ignoreE m) w = (Inr (), snd (run_state m w))"
  by (auto simp: ignoreE_def split: prod.splits)

lemma forE_append: "forE (xs @ ys) f = bindE (forE xs f) (\<lambda>_. forE ys f)"
  by (induction xs)
    (auto intro!: state_ext simp: run_bindE split: prod.splits sum.splits)

lemma forM_append: "forM (xs @ ys) f = State_Monad.bind (forM xs f) (\<lambda>_. forM ys f)"
  by (induction xs) (auto intro!: state_ext split: prod.splits)

text \<open>A loop whose body always succeeds is a fold of the body's effect.\<close>

lemma run_forE_fold:
  assumes "\<And>x w. x \<in> set xs \<Longrightarrow> run_state (f x) w = (Inr (), g x w)"
  shows "run_state (forE xs f) w = (Inr (), fold g xs w)"
  using assms by (induction xs arbitrary: w) (simp_all add: run_bindE)

lemma run_forM_fold:
  assumes "\<And>x w. x \<in> set xs \<Longrightarrow> snd (run_state (f x) w) = g x w"
  shows "run_state (forM xs f) w = ((), fold g xs w)"
  using assms
proof (induction xs arbitrary: w)
  case (Cons x xs)
  then have "snd (run_state (f x) w) = g x w" by simp
  with Cons show ?case by (cases "run_state (f x) w") simp
qed simp

section \<open>Hoare triples\<close>

definition triple :: "('w \<Rightarrow> bool) \<Rightarrow> ('w, 'a) io \<Rightarrow> ('a \<Rightarrow> 'w \<Rightarrow> bool) \<Rightarrow> bool" where
  "triple P m Q \<longleftrightarrow> (\<forall>w. P w \<longrightarrow> (case run_state m w of (r, w') \<Rightarrow> Q r w'))"

lemma tripleI: "(\<And>w r w'. P w \<Longrightarrow> run_state m w = (r, w') \<Longrightarrow> Q r w') \<Longrightarrow> triple P m Q"
  by (auto simp: triple_def split: prod.splits)

lemma tripleD: "triple P m Q \<Longrightarrow> P w \<Longrightarrow> run_state m w = (r, w') \<Longrightarrow> Q r w'"
  by (auto simp: triple_def)

lemma triple_conseq:
  "triple P' m Q' \<Longrightarrow> (\<And>w. P w \<Longrightarrow> P' w) \<Longrightarrow> (\<And>r w. Q' r w \<Longrightarrow> Q r w) \<Longrightarrow> triple P m Q"
  by (fastforce simp: triple_def)

lemma triple_return [triple_rules]: "(\<And>w. P w \<Longrightarrow> Q x w) \<Longrightarrow> triple P (ret x) Q"
  by (simp add: triple_def)

lemma triple_retE [triple_rules]: "(\<And>w. P w \<Longrightarrow> Q (Inr x) w) \<Longrightarrow> triple P (retE x) Q"
  by (simp add: triple_def)

lemma triple_failE [triple_rules]: "(\<And>w. P w \<Longrightarrow> Q (Inl e) w) \<Longrightarrow> triple P (failE e) Q"
  by (simp add: triple_def)

lemma triple_bind:
  "triple P m R \<Longrightarrow> (\<And>x. triple (R x) (f x) Q) \<Longrightarrow> triple P (State_Monad.bind m f) Q"
  by (fastforce simp: triple_def split: prod.splits)

lemma triple_bindE:
  assumes "triple P m R" and "\<And>e w. R (Inl e) w \<Longrightarrow> Q (Inl e) w"
    and "\<And>x. triple (R (Inr x)) (f x) Q"
  shows "triple P (bindE m f) Q"
proof (rule tripleI)
  fix w r w'
  assume P: "P w" and run: "run_state (bindE m f) w = (r, w')"
  obtain r1 w1 where m: "run_state m w = (r1, w1)" by fastforce
  have R: "R r1 w1" using assms(1) P m by (rule tripleD)
  show "Q r w'"
  proof (cases r1)
    case (Inl e)
    with m run have "r = Inl e" and "w' = w1" by (simp_all add: run_bindE)
    with R Inl assms(2) show ?thesis by simp
  next
    case (Inr x)
    with m run have "run_state (f x) w1 = (r, w')" by (simp add: run_bindE)
    with assms(3) [of x] R Inr show ?thesis by (auto dest: tripleD)
  qed
qed

lemma triple_wrapE:
  assumes "triple P m R" and "\<And>e w. R (Inl e) w \<Longrightarrow> Q (Inl (h e)) w"
    and "\<And>x w. R (Inr x) w \<Longrightarrow> Q (Inr x) w"
  shows "triple P (wrapE h m) Q"
  using assms by (fastforce simp: triple_def run_wrapE split: prod.splits sum.splits)

lemma triple_ignoreE:
  "triple P m R \<Longrightarrow> (\<And>r w. R r w \<Longrightarrow> Q (Inr ()) w) \<Longrightarrow> triple P (ignoreE m) Q"
  unfolding triple_def run_ignoreE by (simp add: case_prod_beta) blast

text \<open>Loop rules: an invariant of the world that every round keeps, whatever it returns.\<close>

lemma triple_forE:
  assumes "\<And>x. x \<in> set xs \<Longrightarrow> triple I (f x) (\<lambda>_. I)"
  shows "triple I (forE xs f) (\<lambda>_. I)"
  using assms
  by (induction xs) (auto intro!: triple_retE triple_bindE [where R = "\<lambda>_. I"])

lemma triple_forM:
  assumes "\<And>x. x \<in> set xs \<Longrightarrow> triple I (f x) (\<lambda>_. I)"
  shows "triple I (forM xs f) (\<lambda>_. I)"
  using assms
  by (induction xs) (auto intro!: triple_return triple_bind [where R = "\<lambda>_. I"])

text \<open>An invariant triple: the form almost every preservation lemma has.\<close>

abbreviation keeps :: "('w \<Rightarrow> bool) \<Rightarrow> ('w, 'a) io \<Rightarrow> bool" where
  "keeps I m \<equiv> triple I m (\<lambda>_. I)"

lemma keeps_bind: "keeps I m \<Longrightarrow> (\<And>x. keeps I (f x)) \<Longrightarrow> keeps I (State_Monad.bind m f)"
  by (rule triple_bind)

lemma keeps_bindE: "keeps I m \<Longrightarrow> (\<And>x. keeps I (f x)) \<Longrightarrow> keeps I (bindE m f)"
  by (rule triple_bindE)

lemma keeps_wrapE: "keeps I m \<Longrightarrow> keeps I (wrapE h m)"
  by (rule triple_wrapE)

lemma keeps_ignoreE: "keeps I m \<Longrightarrow> keeps I (ignoreE m)"
  by (rule triple_ignoreE)

lemma keeps_ret: "keeps I (ret x)"
  by (rule triple_return)

lemma keeps_retE: "keeps I (retE x)"
  by (rule triple_retE)

lemma keeps_failE: "keeps I (failE e)"
  by (rule triple_failE)

lemmas keeps_rules =
  keeps_ret keeps_retE keeps_failE keeps_bind keeps_bindE keeps_wrapE keeps_ignoreE
  triple_forE triple_forM

section \<open>Go maps as association lists\<close>

text \<open>\<^verbatim>\<open>m[k]\<close> with one result: the zero value where the key is absent.\<close>

definition index_or :: "'v \<Rightarrow> ('k \<times> 'v) list \<Rightarrow> 'k \<Rightarrow> 'v" where
  "index_or z m k = (case map_of m k of None \<Rightarrow> z | Some v \<Rightarrow> v)"

abbreviation keys :: "('k \<times> 'v) list \<Rightarrow> 'k set" where
  "keys m \<equiv> set (map fst m)"

lemma map_of_update [simp]: "map_of (AList.update k v m) = (map_of m)(k \<mapsto> v)"
  by (rule update_conv')

lemma map_of_delete [simp]: "map_of (AList.delete k m) = (map_of m)(k := None)"
  by (rule delete_conv')

lemma index_or_simps [simp]:
  "map_of m k = Some v \<Longrightarrow> index_or z m k = v"
  "map_of m k = None \<Longrightarrow> index_or z m k = z"
  by (simp_all add: index_or_def)

lemma distinct_fst_update [simp]:
  "distinct (map fst m) \<Longrightarrow> distinct (map fst (AList.update k v m))"
  by (rule distinct_update)

lemma distinct_fst_delete [simp]:
  "distinct (map fst m) \<Longrightarrow> distinct (map fst (AList.delete k m))"
  by (rule distinct_delete)

text \<open>Summing a measure over the values of a map, as a loop over its entries does.\<close>

definition sum_vals :: "('v \<Rightarrow> int) \<Rightarrow> ('k \<times> 'v) list \<Rightarrow> int" where
  "sum_vals f m = sum_list (map (\<lambda>e. f (snd e)) m)"

lemma sum_vals_Nil [simp]: "sum_vals f [] = 0"
  by (simp add: sum_vals_def)

lemma sum_vals_Cons [simp]: "sum_vals f (e # m) = f (snd e) + sum_vals f m"
  by (simp add: sum_vals_def)

lemma sum_vals_append [simp]: "sum_vals f (m @ m') = sum_vals f m + sum_vals f m'"
  by (induction m) simp_all

lemma sum_vals_update_absent:
  "map_of m k = None \<Longrightarrow> sum_vals f (AList.update k v m) = sum_vals f m + f v"
  by (induction m) (auto split: if_splits)

lemma sum_vals_update_present:
  assumes "distinct (map fst m)" and "map_of m k = Some u"
  shows "sum_vals f (AList.update k v m) = sum_vals f m - f u + f v"
  using assms by (induction m) (auto split: if_splits)

lemma sum_vals_nonneg: "(\<And>k v. (k, v) \<in> set m \<Longrightarrow> 0 \<le> f v) \<Longrightarrow> 0 \<le> sum_vals f m"
  by (induction m) fastforce+

lemma sum_vals_member_le:
  assumes "\<And>k v. (k, v) \<in> set m \<Longrightarrow> 0 \<le> f v" and "(k, u) \<in> set m"
  shows "f u \<le> sum_vals f m"
  using assms
proof (induction m)
  case (Cons e m)
  have "0 \<le> f (snd e)" using Cons.prems(1) [of "fst e" "snd e"] by simp
  moreover have "0 \<le> sum_vals f m" using Cons.prems(1) by (intro sum_vals_nonneg) auto
  ultimately show ?case using Cons by fastforce
qed simp

end
