(* ===== verification/Topology.thy ===== *)
theory Topology
  imports Prelude
begin

text \<open>
  \<^verbatim>\<open>internal/topology/topology.go\<close>: the pure planner that picks the next reconcile action
  from the declared and the observed topology.
\<close>

record Desired =
  dShards :: int
  dReplicasPerShard :: int

record Observed =
  oFormed :: bool
  oSlotsCovered :: bool
  oPrimaryCount :: int
  oReplicaCounts :: "int list"

datatype ActionKind =
    ActionForm | ActionRepair | ActionScaleOutShards | ActionScaleInShards
  | ActionScaleReplicas | ActionNone

record Plan =
  Kind :: ActionKind
  AddShards :: int
  RemoveShards :: int
  DesiredReplicasPerShard :: int

text \<open>\<^verbatim>\<open>Plan{Kind: k}\<close>\<close>

definition plan_of :: "ActionKind \<Rightarrow> Plan" where
  "plan_of k = \<lparr>Kind = k, AddShards = 0, RemoveShards = 0, DesiredReplicasPerShard = 0\<rparr>"

fun decide_replicas :: "int \<Rightarrow> int list \<Rightarrow> Plan" where
  "decide_replicas want [] = plan_of ActionNone"
| "decide_replicas want (rc # rcs) =
     (if rc \<noteq> want then (plan_of ActionScaleReplicas)\<lparr>DesiredReplicasPerShard := want\<rparr>
      else decide_replicas want rcs)"

definition Decide :: "Desired \<Rightarrow> Observed \<Rightarrow> Plan" where
  "Decide d ob =
     (if \<not> oFormed ob then plan_of ActionForm
      else if \<not> oSlotsCovered ob then plan_of ActionRepair
      else if dShards d > oPrimaryCount ob
        then (plan_of ActionScaleOutShards)\<lparr>AddShards := dShards d - oPrimaryCount ob\<rparr>
      else if dShards d < oPrimaryCount ob
        then (plan_of ActionScaleInShards)\<lparr>RemoveShards := oPrimaryCount ob - dShards d\<rparr>
      else decide_replicas (dReplicasPerShard d) (oReplicaCounts ob))"

lemma plan_of_fields [simp]:
  "Kind (plan_of k) = k" "AddShards (plan_of k) = 0" "RemoveShards (plan_of k) = 0"
  "DesiredReplicasPerShard (plan_of k) = 0"
  by (simp_all add: plan_of_def)

lemma decide_replicas_None:
  "Kind (decide_replicas want rcs) = ActionNone \<longleftrightarrow> (\<forall>rc \<in> set rcs. rc = want)"
  by (induction rcs) auto

lemma decide_replicas_kind:
  "Kind (decide_replicas want rcs) \<in> {ActionNone, ActionScaleReplicas}"
  by (induction rcs) auto

lemma decide_replicas_fields:
  "AddShards (decide_replicas want rcs) = 0" "RemoveShards (decide_replicas want rcs) = 0"
  "DesiredReplicasPerShard (decide_replicas want rcs) = (if set rcs \<subseteq> {want} then 0 else want)"
  by (induction rcs) auto

lemma Decide_unformed: "\<not> oFormed ob \<Longrightarrow> Kind (Decide d ob) = ActionForm"
  by (simp add: Decide_def)

lemma Decide_uncovered: "oFormed ob \<Longrightarrow> \<not> oSlotsCovered ob \<Longrightarrow> Kind (Decide d ob) = ActionRepair"
  by (simp add: Decide_def)

lemma decide_replicas_not_shards:
  "Kind (decide_replicas want rcs) \<noteq> ActionScaleOutShards"
  "Kind (decide_replicas want rcs) \<noteq> ActionScaleInShards"
  "Kind (decide_replicas want rcs) \<noteq> ActionForm"
  "Kind (decide_replicas want rcs) \<noteq> ActionRepair"
  using decide_replicas_kind [of want rcs] by auto

lemma Decide_Kind_iffs:
  "Kind (Decide d ob) = ActionForm \<longleftrightarrow> \<not> oFormed ob"
  "Kind (Decide d ob) = ActionRepair \<longleftrightarrow> oFormed ob \<and> \<not> oSlotsCovered ob"
  "Kind (Decide d ob) = ActionScaleOutShards \<longleftrightarrow>
     oFormed ob \<and> oSlotsCovered ob \<and> oPrimaryCount ob < dShards d"
  "Kind (Decide d ob) = ActionScaleInShards \<longleftrightarrow>
     oFormed ob \<and> oSlotsCovered ob \<and> dShards d < oPrimaryCount ob"
  "Kind (Decide d ob) = ActionNone \<longleftrightarrow>
     oFormed ob \<and> oSlotsCovered ob \<and> oPrimaryCount ob = dShards d \<and>
     (\<forall>rc \<in> set (oReplicaCounts ob). rc = dReplicasPerShard d)"
  by (auto simp: Decide_def decide_replicas_None decide_replicas_not_shards)

text \<open>
  Claim C19. The planner's decision is exactly this table, and the shard difference it reports
  is the signed gap between the declared and the observed number of primaries. In particular
  no scaling action is ever planned for a cluster that is not formed or whose slots are not
  all covered.
\<close>

theorem Decide_exact:
  "(Kind (Decide d ob) = ActionForm \<longleftrightarrow> \<not> oFormed ob) \<and>
   (Kind (Decide d ob) = ActionRepair \<longleftrightarrow> oFormed ob \<and> \<not> oSlotsCovered ob) \<and>
   (Kind (Decide d ob) = ActionScaleOutShards \<longleftrightarrow>
      oFormed ob \<and> oSlotsCovered ob \<and> oPrimaryCount ob < dShards d) \<and>
   (Kind (Decide d ob) = ActionScaleInShards \<longleftrightarrow>
      oFormed ob \<and> oSlotsCovered ob \<and> dShards d < oPrimaryCount ob) \<and>
   (Kind (Decide d ob) = ActionScaleReplicas \<longleftrightarrow>
      oFormed ob \<and> oSlotsCovered ob \<and> oPrimaryCount ob = dShards d \<and>
      set (oReplicaCounts ob) - {dReplicasPerShard d} \<noteq> {}) \<and>
   (Kind (Decide d ob) = ActionNone \<longleftrightarrow>
      oFormed ob \<and> oSlotsCovered ob \<and> oPrimaryCount ob = dShards d \<and>
      set (oReplicaCounts ob) \<subseteq> {dReplicasPerShard d}) \<and>
   AddShards (Decide d ob) - RemoveShards (Decide d ob) =
     (if oFormed ob \<and> oSlotsCovered ob then dShards d - oPrimaryCount ob else 0) \<and>
   DesiredReplicasPerShard (Decide d ob) =
     (if Kind (Decide d ob) = ActionScaleReplicas then dReplicasPerShard d else 0)"
proof -
  have replicas: "Kind (Decide d ob) = ActionScaleReplicas \<longleftrightarrow>
      oFormed ob \<and> oSlotsCovered ob \<and> oPrimaryCount ob = dShards d \<and>
      \<not> set (oReplicaCounts ob) \<subseteq> {dReplicasPerShard d}"
    using decide_replicas_kind [of "dReplicasPerShard d" "oReplicaCounts ob"]
      decide_replicas_None [of "dReplicasPerShard d" "oReplicaCounts ob"]
    by (auto simp: Decide_def)
  show ?thesis
    unfolding replicas Decide_Kind_iffs
    by (auto simp: Decide_def decide_replicas_fields)
qed

end
