(* ===== verification/Go_Strings.thy ===== *)
theory Go_Strings
  imports Prelude
begin

text \<open>
  The parts of Go's \<^verbatim>\<open>strconv\<close>, \<^verbatim>\<open>strings\<close> and \<^verbatim>\<open>fmt\<close> packages that the operator's
  sources call, on byte strings, with the lemmas the parsers and builders need: decimal
  printing and \<^verbatim>\<open>Atoi\<close> are inverse to each other on the range of a 64-bit \<^verbatim>\<open>int\<close>, and
  \<^verbatim>\<open>Join\<close> is undone by \<^verbatim>\<open>Split\<close> and by \<^verbatim>\<open>Fields\<close>. White space is the ASCII white
  space of \<^verbatim>\<open>unicode.IsSpace\<close>: the texts parsed (CLUSTER INFO and CLUSTER NODES) are ASCII.
\<close>

section \<open>Characters\<close>

definition byte :: "char \<Rightarrow> int" where
  "byte c = of_char c"

definition is_digit :: "char \<Rightarrow> bool" where
  "is_digit c \<longleftrightarrow> 48 \<le> byte c \<and> byte c \<le> 57"

definition digit_val :: "char \<Rightarrow> int" where
  "digit_val c = byte c - 48"

definition digit_char :: "int \<Rightarrow> char" where
  "digit_char d = char_of (48 + d)"

definition is_space :: "char \<Rightarrow> bool" where
  "is_space c \<longleftrightarrow> byte c = 32 \<or> (9 \<le> byte c \<and> byte c \<le> 13)"

abbreviation newline :: char where
  "newline \<equiv> CHR 0x0A"

lemma byte_digit_char [simp]: "0 \<le> d \<Longrightarrow> d < 10 \<Longrightarrow> byte (digit_char d) = 48 + d"
  by (simp add: byte_def digit_char_def)

lemma is_digit_digit_char [simp]: "0 \<le> d \<Longrightarrow> d < 10 \<Longrightarrow> is_digit (digit_char d)"
  by (simp add: is_digit_def)

lemma digit_val_digit_char [simp]: "0 \<le> d \<Longrightarrow> d < 10 \<Longrightarrow> digit_val (digit_char d) = d"
  by (simp add: digit_val_def)

lemma digit_val_bounds: "is_digit c \<Longrightarrow> 0 \<le> digit_val c \<and> digit_val c \<le> 9"
  by (auto simp: is_digit_def digit_val_def)

lemma digit_not_space: "is_digit c \<Longrightarrow> \<not> is_space c"
  by (auto simp: is_digit_def is_space_def)

lemma nondigits:
  "\<not> is_digit CHR ''-''" "\<not> is_digit CHR ''+''" "\<not> is_digit CHR '',''" "\<not> is_digit CHR ''.''"
  "\<not> is_digit CHR ''@''" "\<not> is_digit CHR '':''" "\<not> is_digit CHR ''[''" "\<not> is_digit newline"
  "\<not> is_digit CHR '' ''"
  by (simp_all add: is_digit_def byte_def)

lemma is_space_chars: "is_space CHR '' ''" "is_space newline" "\<not> is_space CHR ''-''"
  by (simp_all add: is_space_def byte_def)

section \<open>strconv: Itoa and Atoi\<close>

function digits :: "int \<Rightarrow> string" where
  "digits n = (if n < 10 then [digit_char n] else digits (n div 10) @ [digit_char (n mod 10)])"
  by pat_completeness auto
termination
  by (relation "measure nat") auto

declare digits.simps [simp del]

text \<open>\<^verbatim>\<open>strconv.Itoa\<close>, and the verb \<^verbatim>\<open>%d\<close> of \<^verbatim>\<open>fmt.Sprintf\<close>.\<close>

definition Itoa :: "int \<Rightarrow> string" where
  "Itoa n = (if n < 0 then CHR ''-'' # digits (- n) else digits n)"

datatype num_error = ErrSyntax | ErrRange

text \<open>
  \<^verbatim>\<open>strconv.ParseUint(s, 10, 64)\<close> after its check for the empty string: digits are read from
  the left and the first problem met decides the error.
\<close>

fun parse_uint :: "int \<Rightarrow> string \<Rightarrow> int \<times> num_error option" where
  "parse_uint n [] = (n, None)"
| "parse_uint n (c # cs) =
     (if \<not> is_digit c then (0, Some ErrSyntax)
      else if n * 10 + digit_val c > 2 ^ 64 - 1 then (2 ^ 64 - 1, Some ErrRange)
      else parse_uint (n * 10 + digit_val c) cs)"

definition parse_magnitude :: "bool \<Rightarrow> string \<Rightarrow> int \<times> num_error option" where
  "parse_magnitude neg s =
     (if s = [] then (0, Some ErrSyntax)
      else case parse_uint 0 s of
        (u, Some ErrSyntax) \<Rightarrow> (0, Some ErrSyntax)
      | (u, _) \<Rightarrow>
          (if \<not> neg \<and> u \<ge> 2 ^ 63 then (2 ^ 63 - 1, Some ErrRange)
           else if neg \<and> u > 2 ^ 63 then (- (2 ^ 63), Some ErrRange)
           else (if neg then - u else u, None)))"

text \<open>
  \<^verbatim>\<open>strconv.Atoi\<close>: the value and the error. On a syntax error the value is 0, on a range
  error it is the nearest 64-bit integer; callers that drop the error use that value.
\<close>

definition Atoi :: "string \<Rightarrow> int \<times> num_error option" where
  "Atoi s = (case s of
       [] \<Rightarrow> (0, Some ErrSyntax)
     | c # cs \<Rightarrow>
         (if c = CHR ''-'' then parse_magnitude True cs
          else if c = CHR ''+'' then parse_magnitude False cs
          else parse_magnitude False s))"

definition Atoi_ok :: "string \<Rightarrow> int option" where
  "Atoi_ok s = (case Atoi s of (n, None) \<Rightarrow> Some n | (_, Some _) \<Rightarrow> None)"

lemma digits_nonempty [simp]: "digits n \<noteq> []"
  by (subst digits.simps) simp

lemma digits_all_digits: "0 \<le> n \<Longrightarrow> c \<in> set (digits n) \<Longrightarrow> is_digit c"
proof (induction n rule: digits.induct)
  case (1 n)
  show ?case
  proof (cases "n < 10")
    case True
    with 1(2,3) show ?thesis by (simp add: digits.simps [of n])
  next
    case False
    with 1(3) have "c \<in> set (digits (n div 10)) \<or> c = digit_char (n mod 10)"
      by (auto simp: digits.simps [of n])
    with 1(1) [OF False] False show ?thesis by (auto simp: pos_imp_zdiv_nonneg_iff)
  qed
qed

lemma parse_uint_append:
  "parse_uint n s = (m, None) \<Longrightarrow> parse_uint n (s @ t) = parse_uint m t"
  by (induction n s rule: parse_uint.induct) (auto split: if_splits)

lemma parse_uint_digits:
  "0 \<le> n \<Longrightarrow> n < 2 ^ 64 \<Longrightarrow> parse_uint 0 (digits n) = (n, None)"
proof (induction n rule: digits.induct)
  case (1 n)
  show ?case
  proof (cases "n < 10")
    case True
    with 1 show ?thesis by (subst digits.simps) simp
  next
    case False
    have "n div 10 \<le> n" using zdiv_mono2 [of n 1 10] 1(2) by simp
    with 1 False have "parse_uint 0 (digits (n div 10)) = (n div 10, None)"
      by (simp add: pos_imp_zdiv_nonneg_iff)
    then have "parse_uint 0 (digits (n div 10) @ [digit_char (n mod 10)])
        = parse_uint (n div 10) [digit_char (n mod 10)]"
      by (rule parse_uint_append)
    also have "\<dots> = (n, None)"
      using 1(3) by (simp add: div_mult_mod_eq)
    finally show ?thesis
      using False by (subst digits.simps) simp
  qed
qed

lemma Atoi_digits: "0 \<le> n \<Longrightarrow> n < 2 ^ 63 \<Longrightarrow> Atoi (digits n) = (n, None)"
proof -
  assume b: "0 \<le> n" "n < 2 ^ 63"
  obtain c cs where cs: "digits n = c # cs" by (cases "digits n") auto
  then have "is_digit c" using digits_all_digits [of n c] b by simp
  then have "c \<noteq> CHR ''-''" "c \<noteq> CHR ''+''" using nondigits by auto
  moreover have "parse_uint 0 (c # cs) = (n, None)"
    using parse_uint_digits [of n] b unfolding cs by simp
  ultimately show ?thesis
    using b unfolding cs Atoi_def parse_magnitude_def by (simp del: parse_uint.simps)
qed

lemma Atoi_Itoa: "- (2 ^ 63) \<le> n \<Longrightarrow> n < 2 ^ 63 \<Longrightarrow> Atoi (Itoa n) = (n, None)"
proof (cases "n < 0")
  case True
  assume "- (2 ^ 63) \<le> n"
  then have "parse_uint 0 (digits (- n)) = (- n, None)"
    using parse_uint_digits [of "- n"] True by simp
  with True \<open>- (2 ^ 63) \<le> n\<close> show ?thesis
    by (simp add: Itoa_def Atoi_def parse_magnitude_def)
next
  case False
  assume "n < 2 ^ 63"
  with False show ?thesis
    using Atoi_digits [of n] by (simp add: Itoa_def)
qed

lemma Itoa_nonempty [simp]: "Itoa n \<noteq> []"
  by (simp add: Itoa_def)

lemma Itoa_digits: "0 \<le> n \<Longrightarrow> c \<in> set (Itoa n) \<Longrightarrow> is_digit c"
  by (simp add: Itoa_def digits_all_digits)

lemma Itoa_notin: "0 \<le> n \<Longrightarrow> \<not> is_digit c \<Longrightarrow> c \<notin> set (Itoa n)"
  using Itoa_digits by blast

text \<open>Reading a number back shows that printing is injective (for any size of number).\<close>

fun digits_val :: "int \<Rightarrow> string \<Rightarrow> int" where
  "digits_val n [] = n"
| "digits_val n (c # cs) = digits_val (n * 10 + digit_val c) cs"

lemma digits_val_append: "digits_val n (s @ t) = digits_val (digits_val n s) t"
  by (induction n s rule: digits_val.induct) simp_all

lemma digits_val_digits: "0 \<le> n \<Longrightarrow> digits_val 0 (digits n) = n"
proof (induction n rule: digits.induct)
  case (1 n)
  show ?case
  proof (cases "n < 10")
    case True
    with 1(2) show ?thesis by (simp add: digits.simps [of n])
  next
    case False
    then have "digits_val 0 (digits n) = digits_val 0 (digits (n div 10)) * 10 + n mod 10"
      by (simp add: digits.simps [of n] digits_val_append)
    also have "digits_val 0 (digits (n div 10)) = n div 10"
      using 1(2) by (intro 1(1) [OF False]) (simp add: pos_imp_zdiv_nonneg_iff)
    finally show ?thesis by simp
  qed
qed

lemma Itoa_inj: "0 \<le> m \<Longrightarrow> 0 \<le> n \<Longrightarrow> Itoa m = Itoa n \<Longrightarrow> m = n"
  unfolding Itoa_def by (metis digits_val_digits linorder_not_less)

section \<open>strings: Split, Join, Cut, Index, Fields, TrimSpace, Contains\<close>

text \<open>\<^verbatim>\<open>strings.Split(s, sep)\<close> for a separator of one byte: always at least one part.\<close>

fun Split :: "char \<Rightarrow> string \<Rightarrow> string list" where
  "Split sep [] = [[]]"
| "Split sep (c # cs) =
     (if c = sep then [] # Split sep cs
      else case Split sep cs of [] \<Rightarrow> [[c]] | p # ps \<Rightarrow> (c # p) # ps)"

fun Join :: "string \<Rightarrow> string list \<Rightarrow> string" where
  "Join sep [] = []"
| "Join sep [p] = p"
| "Join sep (p # q # ps) = p @ sep @ Join sep (q # ps)"

text \<open>\<^verbatim>\<open>strings.Cut(s, sep)\<close>: before, after, found.\<close>

fun Cut :: "char \<Rightarrow> string \<Rightarrow> string \<times> string \<times> bool" where
  "Cut sep [] = ([], [], False)"
| "Cut sep (c # cs) =
     (if c = sep then ([], cs, True)
      else case Cut sep cs of (a, b, ok) \<Rightarrow> (c # a, b, ok))"

text \<open>\<^verbatim>\<open>strings.Index(s, sep)\<close>: -1 where there is none.\<close>

fun Index_from :: "int \<Rightarrow> char \<Rightarrow> string \<Rightarrow> int" where
  "Index_from i sep [] = - 1"
| "Index_from i sep (c # cs) = (if c = sep then i else Index_from (i + 1) sep cs)"

definition Index :: "string \<Rightarrow> char \<Rightarrow> int" where
  "Index s sep = Index_from 0 sep s"

text \<open>\<^verbatim>\<open>strings.Fields(s)\<close>: the maximal runs of characters that are not white space.\<close>

fun Fields_acc :: "string \<Rightarrow> string \<Rightarrow> string list" where
  "Fields_acc tok [] = (if tok = [] then [] else [tok])"
| "Fields_acc tok (c # cs) =
     (if is_space c then (if tok = [] then Fields_acc [] cs else tok # Fields_acc [] cs)
      else Fields_acc (tok @ [c]) cs)"

definition Fields :: "string \<Rightarrow> string list" where
  "Fields s = Fields_acc [] s"

definition TrimSpace :: "string \<Rightarrow> string" where
  "TrimSpace s = rev (dropWhile is_space (rev (dropWhile is_space s)))"

fun HasPrefix :: "string \<Rightarrow> string \<Rightarrow> bool" where
  "HasPrefix s [] = True"
| "HasPrefix [] (p # ps) = False"
| "HasPrefix (c # cs) (p # ps) = (c = p \<and> HasPrefix cs ps)"

definition TrimPrefix :: "string \<Rightarrow> string \<Rightarrow> string" where
  "TrimPrefix s p = (if HasPrefix s p then drop (length p) s else s)"

fun Contains :: "string \<Rightarrow> string \<Rightarrow> bool" where
  "Contains [] sub = (sub = [])"
| "Contains (c # cs) sub = (HasPrefix (c # cs) sub \<or> Contains cs sub)"

lemma Split_nonempty [simp]: "Split sep s \<noteq> []"
  by (induction s) (auto split: list.splits)

lemma Split_no_sep: "sep \<notin> set s \<Longrightarrow> Split sep s = [s]"
  by (induction s) auto

lemma Split_append_sep: "sep \<notin> set p \<Longrightarrow> Split sep (p @ sep # s) = p # Split sep s"
  by (induction p) auto

lemma Split_Join:
  "ps \<noteq> [] \<Longrightarrow> (\<And>p. p \<in> set ps \<Longrightarrow> sep \<notin> set p) \<Longrightarrow> Split sep (Join [sep] ps) = ps"
proof (induction "[sep]" ps rule: Join.induct)
  case (3 p q ps)
  then show ?case using Split_append_sep [of sep p] by simp
qed (auto simp: Split_no_sep)

lemma Cut_no_sep: "sep \<notin> set s \<Longrightarrow> Cut sep s = (s, [], False)"
  by (induction s) auto

lemma Cut_append_sep: "sep \<notin> set p \<Longrightarrow> Cut sep (p @ sep # s) = (p, s, True)"
  by (induction p) auto

lemma Index_from_no_sep: "sep \<notin> set s \<Longrightarrow> Index_from i sep s = - 1"
  by (induction s arbitrary: i) auto

lemma Index_from_append_sep:
  "sep \<notin> set p \<Longrightarrow> Index_from i sep (p @ sep # s) = i + int (length p)"
  by (induction p arbitrary: i) auto

lemma Index_no_sep: "sep \<notin> set s \<Longrightarrow> Index s sep = - 1"
  by (simp add: Index_def Index_from_no_sep)

lemma Index_append_sep: "sep \<notin> set p \<Longrightarrow> Index (p @ sep # s) sep = int (length p)"
  by (simp add: Index_def Index_from_append_sep)

lemma Fields_acc_token:
  "(\<And>c. c \<in> set p \<Longrightarrow> \<not> is_space c) \<Longrightarrow> Fields_acc tok (p @ s) = Fields_acc (tok @ p) s"
  by (induction p arbitrary: tok) auto

lemma Fields_Join:
  assumes "\<And>p c. p \<in> set ps \<Longrightarrow> c \<in> set p \<Longrightarrow> \<not> is_space c" and "\<And>p. p \<in> set ps \<Longrightarrow> p \<noteq> []"
  shows "Fields (Join '' '' ps) = ps"
proof -
  have "Fields_acc [] (Join '' '' ps) = ps"
    using assms
  proof (induction "'' ''" ps rule: Join.induct)
    case (2 p)
    then show ?case using Fields_acc_token [of p "[]" "[]"] by simp
  next
    case (3 p q ps)
    have "Fields_acc [] (p @ '' '' @ Join '' '' (q # ps)) = Fields_acc p ('' '' @ Join '' '' (q # ps))"
      using 3(2) by (subst Fields_acc_token) auto
    also have "\<dots> = p # Fields_acc [] (Join '' '' (q # ps))"
      using 3(3) is_space_chars(1) by simp
    also have "Fields_acc [] (Join '' '' (q # ps)) = q # ps"
      using 3(2,3) by (intro 3(1)) auto
    finally show ?case by simp
  qed simp
  then show ?thesis by (simp add: Fields_def)
qed

end
