(* ===== verification/Cluster_Types.thy ===== *)
theory Cluster_Types
  imports Go_Strings
begin

text \<open>
  \<^verbatim>\<open>internal/cluster/admin.go\<close>: the data the reconciler and a live Valkey cluster exchange
  (slot ranges, endpoints, node and cluster views) with its methods, and the
  \<^verbatim>\<open>ClusterAdmin\<close> interface as a record of methods over a world type. The in-memory
  \<^verbatim>\<open>Fake\<close> and the go-redis \<^verbatim>\<open>Admin\<close> are two values of that record.
\<close>

section \<open>Data\<close>

definition TotalSlots :: int where
  "TotalSlots = 16384"

record SlotRange =
  Start :: int
  End :: int

record Endpoint =
  epHost :: string
  epPort :: int
  epPodName :: string
  epNamespace :: string

definition Addr :: "Endpoint \<Rightarrow> string" where
  "Addr e = epHost e @ '':'' @ Itoa (epPort e)"

record NodeInfo =
  ID :: string
  Host :: string
  IP :: string
  Port :: int
  Flags :: "string list"
  MasterID :: string
  Slots :: "SlotRange list"
  Connected :: bool

text \<open>\<^verbatim>\<open>NodeInfo{}\<close>, the value of a missing map entry.\<close>

definition zero_NodeInfo :: NodeInfo where
  "zero_NodeInfo = \<lparr>ID = [], Host = [], IP = [], Port = 0, Flags = [], MasterID = [],
     Slots = [], Connected = False\<rparr>"

record ClusterState =
  Formed :: bool
  SlotsCovered :: bool
  OpenSlots :: bool
  Nodes :: "NodeInfo list"

record RebalanceOpts =
  UseEmptyMasters :: bool
  WeightZeroIDs :: "string list"

section \<open>Methods\<close>

fun flag_in :: "string \<Rightarrow> string list \<Rightarrow> bool" where
  "flag_in f [] = False"
| "flag_in f (g # gs) = (if g = f then True else flag_in f gs)"

definition IsPrimary :: "NodeInfo \<Rightarrow> bool" where
  "IsPrimary n = (if flag_in ''master'' (Flags n) then True else MasterID n = '''')"

definition HasFlag :: "NodeInfo \<Rightarrow> string \<Rightarrow> bool" where
  "HasFlag n flag = flag_in flag (Flags n)"

definition range_count :: "SlotRange \<Rightarrow> int" where
  "range_count r = End r - Start r + 1"

fun count_ranges :: "int \<Rightarrow> SlotRange list \<Rightarrow> int" where
  "count_ranges acc [] = acc"
| "count_ranges acc (r # rs) = count_ranges (acc + range_count r) rs"

definition SlotCount :: "NodeInfo \<Rightarrow> int" where
  "SlotCount n = count_ranges 0 (Slots n)"

fun find_primary :: "string \<Rightarrow> NodeInfo list \<Rightarrow> NodeInfo \<times> bool" where
  "find_primary i [] = (zero_NodeInfo, False)"
| "find_primary i (n # ns) = (if ID n = i \<and> IsPrimary n then (n, True) else find_primary i ns)"

definition PrimaryByNodeID :: "ClusterState \<Rightarrow> string \<Rightarrow> NodeInfo \<times> bool" where
  "PrimaryByNodeID s i = find_primary i (Nodes s)"

section \<open>The ClusterAdmin interface\<close>

text \<open>
  One field per method. \<^verbatim>\<open>MoveSlots\<close> and \<^verbatim>\<open>RepairSlots\<close> return a count beside the error,
  and their callers read the count even when there is an error.
\<close>

record 'w ClusterAdmin =
  aState :: "Endpoint \<Rightarrow> ('w, ClusterState) ioE"
  aMyID :: "Endpoint \<Rightarrow> ('w, string) ioE"
  aMeet :: "Endpoint \<Rightarrow> Endpoint \<Rightarrow> ('w, unit) ioE"
  aAddSlots :: "Endpoint \<Rightarrow> SlotRange list \<Rightarrow> ('w, unit) ioE"
  aReplicate :: "Endpoint \<Rightarrow> string \<Rightarrow> ('w, unit) ioE"
  aForget :: "Endpoint \<Rightarrow> string \<Rightarrow> ('w, unit) ioE"
  aFailover :: "Endpoint \<Rightarrow> ('w, unit) ioE"
  aRebalance :: "Endpoint \<Rightarrow> RebalanceOpts \<Rightarrow> ('w, unit) ioE"
  aReshard :: "Endpoint \<Rightarrow> string \<Rightarrow> string \<Rightarrow> int \<Rightarrow> ('w, unit) ioE"
  aMoveSlots :: "Endpoint \<Rightarrow> string \<Rightarrow> string \<Rightarrow> int \<Rightarrow> ('w, int \<times> error option) io"
  aFix :: "Endpoint \<Rightarrow> ('w, unit) ioE"
  aRepairSlots :: "Endpoint \<Rightarrow> ('w, int \<times> error option) io"

section \<open>Lemmas\<close>

lemma flag_in_iff: "flag_in f fs \<longleftrightarrow> f \<in> set fs"
  by (induction fs) auto

lemma IsPrimary_iff: "IsPrimary n \<longleftrightarrow> ''master'' \<in> set (Flags n) \<or> MasterID n = ''''"
  by (auto simp: IsPrimary_def flag_in_iff)

lemma HasFlag_iff: "HasFlag n f \<longleftrightarrow> f \<in> set (Flags n)"
  by (simp add: HasFlag_def flag_in_iff)

lemma count_ranges_eq: "count_ranges t rs = t + sum_list (map range_count rs)"
  by (induction rs arbitrary: t) auto

lemma SlotCount_eq: "SlotCount n = sum_list (map range_count (Slots n))"
  by (simp add: SlotCount_def count_ranges_eq)

lemma SlotCount_zero_NodeInfo [simp]: "SlotCount zero_NodeInfo = 0"
  by (simp add: SlotCount_eq zero_NodeInfo_def)

lemma find_primary_True:
  "find_primary i ns = (n, True) \<Longrightarrow> n \<in> set ns \<and> ID n = i \<and> IsPrimary n"
  by (induction ns) (auto split: if_splits)

lemma find_primary_False:
  "snd (find_primary i ns) \<longleftrightarrow> (\<exists>n \<in> set ns. ID n = i \<and> IsPrimary n)"
  by (induction ns) auto

text \<open>The slots a list of ranges stands for.\<close>

definition range_slots :: "SlotRange \<Rightarrow> int set" where
  "range_slots r = {Start r..End r}"

definition ranges_slots :: "SlotRange list \<Rightarrow> int set" where
  "ranges_slots rs = (\<Union>r \<in> set rs. range_slots r)"

text \<open>
  A well-formed range list: no range has a negative count, and no slot is in two ranges.
  \<open>SlotCount\<close> then is the number of slots owned.
\<close>

fun ranges_ok :: "SlotRange list \<Rightarrow> bool" where
  "ranges_ok [] = True"
| "ranges_ok (r # rs) = (Start r \<le> End r + 1 \<and> range_slots r \<inter> ranges_slots rs = {} \<and> ranges_ok rs)"

lemma finite_ranges_slots [simp]: "finite (ranges_slots rs)"
  by (auto simp: ranges_slots_def range_slots_def)

lemma ranges_slots_Cons [simp]: "ranges_slots (r # rs) = range_slots r \<union> ranges_slots rs"
  by (simp add: ranges_slots_def)

lemma ranges_slots_Nil [simp]: "ranges_slots [] = {}"
  by (simp add: ranges_slots_def)

lemma sum_ranges_card: "ranges_ok rs \<Longrightarrow> sum_list (map range_count rs) = int (card (ranges_slots rs))"
proof (induction rs)
  case (Cons r rs)
  then have "card (ranges_slots (r # rs)) = card (range_slots r) + card (ranges_slots rs)"
    by (simp add: card_Un_disjoint range_slots_def)
  with Cons show ?case by (simp add: range_count_def range_slots_def)
qed simp

lemma SlotCount_card: "ranges_ok (Slots n) \<Longrightarrow> SlotCount n = int (card (ranges_slots (Slots n)))"
  by (simp add: SlotCount_eq sum_ranges_card)

end
