(* ===== verification/Go_Ints.thy ===== *)
theory Go_Ints
  imports Main "HOL-Library.Word" "HOL-Library.Signed_Division"
begin

text \<open>
  Go's fixed-width integers. A Go \<^verbatim>\<open>int\<close> or \<^verbatim>\<open>int64\<close> is a 64-bit word read with
  \<open>sint\<close>, an \<^verbatim>\<open>int32\<close> a 32-bit word. The components compute with mathematical integers
  wherever the values are far from the width's limits, and keep the width where the source
  multiplies or narrows; the lemmas here are the bridge.
\<close>

type_synonym int32 = "32 word"
type_synonym int64 = "64 word"

text \<open>Go's division truncates towards zero.\<close>

definition div64 :: "int64 \<Rightarrow> int64 \<Rightarrow> int64" where
  "div64 a b = word_of_int (sint a sdiv sint b)"

definition fits64 :: "int \<Rightarrow> bool" where
  "fits64 x \<longleftrightarrow> - (2 ^ 63) \<le> x \<and> x < 2 ^ 63"

definition fits32 :: "int \<Rightarrow> bool" where
  "fits32 x \<longleftrightarrow> - (2 ^ 31) \<le> x \<and> x < 2 ^ 31"

lemma sint_of_int64: "fits64 x \<Longrightarrow> sint (word_of_int x :: int64) = x"
  by (simp add: fits64_def sint_sbintrunc' signed_take_bit_int_eq_self)

lemma sint_of_int32: "fits32 x \<Longrightarrow> sint (word_of_int x :: int32) = x"
  by (simp add: fits32_def sint_sbintrunc' signed_take_bit_int_eq_self)

lemma sint_mult64: "fits64 (sint a * sint b) \<Longrightarrow> sint (a * b :: int64) = sint a * sint b"
proof -
  assume "fits64 (sint a * sint b)"
  moreover have "a * b = word_of_int (sint a * sint b)" by simp
  ultimately show ?thesis using sint_of_int64 by metis
qed

lemma sint_add64: "fits64 (sint a + sint b) \<Longrightarrow> sint (a + b :: int64) = sint a + sint b"
proof -
  assume "fits64 (sint a + sint b)"
  moreover have "a + b = word_of_int (sint a + sint b)" by simp
  ultimately show ?thesis using sint_of_int64 by metis
qed

lemma sint_sub64: "fits64 (sint a - sint b) \<Longrightarrow> sint (a - b :: int64) = sint a - sint b"
proof -
  assume "fits64 (sint a - sint b)"
  moreover have "a - b = word_of_int (sint a - sint b)" by simp
  ultimately show ?thesis using sint_of_int64 by metis
qed

lemma sint_add32: "fits32 (sint a + sint b) \<Longrightarrow> sint (a + b :: int32) = sint a + sint b"
proof -
  assume "fits32 (sint a + sint b)"
  moreover have "a + b = word_of_int (sint a + sint b)" by simp
  ultimately show ?thesis using sint_of_int32 by metis
qed

lemma sdiv_nonneg: "0 \<le> (a::int) \<Longrightarrow> 0 \<le> b \<Longrightarrow> a sdiv b = a div b"
  by (auto simp: signed_divide_int_def sgn_if)

lemma sint_div64:
  assumes "0 \<le> sint a" and "0 < sint b"
  shows "sint (div64 a b) = sint a div sint b"
proof -
  have "sint a div sint b \<le> sint a"
    using zdiv_mono2 [of "sint a" 1 "sint b"] assms by simp
  moreover have "sint a < 2 ^ 63"
    using sint_lt [of a] by simp
  moreover have "0 \<le> sint a div sint b"
    using assms by (simp add: pos_imp_zdiv_nonneg_iff)
  ultimately have "fits64 (sint a div sint b)"
    by (simp add: fits64_def)
  then show ?thesis
    using assms by (simp add: div64_def sdiv_nonneg sint_of_int64)
qed

end
