(* ===== verification/Slot_Distribution.thy ===== *)
theory Slot_Distribution
  imports Cluster_Types Go_Ints
begin

text \<open>
  \<^verbatim>\<open>internal/slots/slots.go\<close>: how the 16384 hash slots are split across shards, and how
  ranges are printed. The lemmas show that the split is a partition of the slot space into
  contiguous ranges whose sizes differ by at most one, that its 64-bit arithmetic does not
  wrap for any slice that can be allocated, and that the printed form can be read back.
\<close>

text \<open>\<^verbatim>\<open>for i := 0; i < n; i++\<close> over the result slice.\<close>

definition Distribute :: "int \<Rightarrow> SlotRange list" where
  "Distribute n =
     (if n \<le> 0 then []
      else map (\<lambda>i. \<lparr>Start = i * TotalSlots div n, End = (i + 1) * TotalSlots div n - 1\<rparr>) [0..n - 1])"

definition TargetCounts :: "int \<Rightarrow> int list" where
  "TargetCounts n = (if n \<le> 0 then [] else map (\<lambda>r. End r - Start r + 1) (Distribute n))"

definition FormatRange :: "SlotRange \<Rightarrow> string" where
  "FormatRange r = (if Start r = End r then Itoa (Start r) else Itoa (Start r) @ ''-'' @ Itoa (End r))"

definition FormatRanges :: "SlotRange list \<Rightarrow> string" where
  "FormatRanges ranges = (if ranges = [] then [] else Join '','' (map FormatRange ranges))"

text \<open>The same loop on the 64-bit integers Go computes with.\<close>

definition Distribute64 :: "int64 \<Rightarrow> (int64 \<times> int64) list" where
  "Distribute64 n =
     (if sint n \<le> 0 then []
      else map (\<lambda>k. let i = word_of_int k
                    in (div64 (i * 16384) n, div64 ((i + 1) * 16384) n - 1)) [0..sint n - 1])"

section \<open>The split is a balanced partition\<close>

text \<open>The boundary between shard \<open>i - 1\<close> and shard \<open>i\<close>.\<close>

definition bound :: "int \<Rightarrow> int \<Rightarrow> int" where
  "bound n i = i * TotalSlots div n"

lemma length_Distribute [simp]: "length (Distribute n) = nat n"
  by (simp add: Distribute_def)

lemma nth_Distribute:
  "0 \<le> i \<Longrightarrow> i < n \<Longrightarrow> Distribute n ! nat i = \<lparr>Start = bound n i, End = bound n (i + 1) - 1\<rparr>"
  by (simp add: Distribute_def bound_def)

lemma bound_0 [simp]: "bound n 0 = 0"
  by (simp add: bound_def)

lemma bound_n: "0 < n \<Longrightarrow> bound n n = TotalSlots"
  by (simp add: bound_def)

lemma bound_mono: "0 < n \<Longrightarrow> i \<le> j \<Longrightarrow> bound n i \<le> bound n j"
  by (simp add: bound_def TotalSlots_def zdiv_mono1)

lemma bound_step:
  assumes "0 < n"
  shows "TotalSlots div n \<le> bound n (i + 1) - bound n i"
    and "bound n (i + 1) - bound n i \<le> TotalSlots div n + 1"
proof -
  let ?a = "i * TotalSlots" and ?t = "TotalSlots"
  have eq: "bound n (i + 1) = ?a div n + ?t div n + (?a mod n + ?t mod n) div n"
    unfolding bound_def distrib_right mult_1 by (rule div_add1_eq)
  have lt: "?a mod n + ?t mod n < 2 * n"
    using pos_mod_bound [OF assms, of ?a] pos_mod_bound [OF assms, of ?t] by simp
  have "0 \<le> (?a mod n + ?t mod n) div n"
    using assms by (simp add: pos_imp_zdiv_nonneg_iff)
  moreover have "(?a mod n + ?t mod n) div n < 2"
  proof (rule ccontr)
    assume "\<not> ?thesis"
    then have "n * 2 \<le> n * ((?a mod n + ?t mod n) div n)"
      using assms by (intro mult_left_mono) auto
    also have "\<dots> \<le> ?a mod n + ?t mod n"
      using pos_mod_sign [OF assms, of "?a mod n + ?t mod n"]
        mult_div_mod_eq [of n "?a mod n + ?t mod n"] by linarith
    finally show False using lt by simp
  qed
  ultimately show "TotalSlots div n \<le> bound n (i + 1) - bound n i"
    and "bound n (i + 1) - bound n i \<le> TotalSlots div n + 1"
    unfolding eq unfolding bound_def by simp_all
qed

text \<open>Every slot lies between two neighbouring boundaries, and between no others.\<close>

lemma bound_locate:
  assumes "0 < n" "0 \<le> s" "s < TotalSlots"
  shows "\<exists>i. 0 \<le> i \<and> i < n \<and> bound n i \<le> s \<and> s < bound n (i + 1)"
proof -
  let ?P = "\<lambda>k. s < bound n (int k)"
  have "?P (nat n)" using assms by (simp add: bound_n)
  then have least: "?P (LEAST k. ?P k)" by (rule LeastI)
  have min: "\<not> ?P k" if "k < (LEAST k. ?P k)" for k
    using that by (rule not_less_Least)
  define k where "k = (LEAST k. ?P k)"
  have "k \<noteq> 0" using least assms(2) unfolding k_def [symmetric] by (cases "k = 0") simp_all
  then obtain j where j: "k = Suc j" by (cases k) auto
  have "k \<le> nat n" unfolding k_def using \<open>?P (nat n)\<close> by (rule Least_le)
  with least min [of j] j show ?thesis
    unfolding k_def [symmetric] by (intro exI [of _ "int j"]) (auto simp: add.commute)
qed

lemma bound_locate_unique:
  assumes "0 < n" "bound n i \<le> s" "s < bound n (i + 1)" "bound n j \<le> s" "s < bound n (j + 1)"
  shows "i = j"
proof (rule ccontr)
  assume "i \<noteq> j"
  then have "i + 1 \<le> j \<or> j + 1 \<le> i" by arith
  then have "bound n (i + 1) \<le> bound n j \<or> bound n (j + 1) \<le> bound n i"
    using assms(1) by (auto intro: bound_mono)
  with assms show False by linarith
qed

text \<open>The ranges of the shards from \<open>k\<close> on cover exactly the slots from the \<open>k\<close>-th boundary on.\<close>

lemma Distribute_suffix:
  assumes "0 < n" "0 \<le> k" "k \<le> n"
  defines "f \<equiv> (\<lambda>i. \<lparr>Start = bound n i, End = bound n (i + 1) - 1\<rparr>)"
  shows "ranges_ok (map f [k..n - 1]) \<and> ranges_slots (map f [k..n - 1]) = {bound n k..<TotalSlots}"
  using assms(3,2)
proof (induction k rule: int_le_induct)
  case base
  then show ?case using assms(1) by (simp add: bound_n)
next
  case (step k)
  have cons: "[k - 1..n - 1] = (k - 1) # [k..n - 1]"
    using step by (subst upto.simps) simp
  have le: "bound n (k - 1) \<le> bound n k" "bound n k \<le> TotalSlots"
    using bound_mono [OF assms(1)] bound_n [OF assms(1)] step by (auto dest: bound_mono [OF assms(1)])
  show ?case
    using step le unfolding cons by (auto simp: f_def range_slots_def)
qed

lemma Distribute_eq: "0 < n \<Longrightarrow>
    Distribute n = map (\<lambda>i. \<lparr>Start = bound n i, End = bound n (i + 1) - 1\<rparr>) [0..n - 1]"
  by (simp add: Distribute_def bound_def)

lemma Distribute_ok: "0 < n \<Longrightarrow> ranges_ok (Distribute n)"
  and Distribute_slots: "0 < n \<Longrightarrow> ranges_slots (Distribute n) = {0..<TotalSlots}"
  using Distribute_suffix [of n 0] by (simp_all add: Distribute_eq)

lemma Distribute_count:
  assumes "0 \<le> i" "i < n"
  shows "range_count (Distribute n ! nat i) = bound n (i + 1) - bound n i"
  using assms by (simp add: nth_Distribute range_count_def)

lemma sum_Distribute: "0 < n \<Longrightarrow> sum_list (map range_count (Distribute n)) = TotalSlots"
  using sum_ranges_card [OF Distribute_ok, of n] by (simp add: Distribute_slots TotalSlots_def)

text \<open>With at most 16384 shards no shard is left without a slot.\<close>

lemma Distribute_count_pos:
  assumes "0 \<le> i" "i < n" "n \<le> TotalSlots"
  shows "0 < range_count (Distribute n ! nat i)"
proof -
  have "1 \<le> TotalSlots div n"
    using assms by (metis add_0 zdiv_mono1 div_self less_le_not_le order.trans zero_neq_one order_le_less_trans)
  then show ?thesis
    using bound_step(1) [of n i] assms by (simp add: Distribute_count)
qed

section \<open>Properties\<close>



text \<open>
  Claim C25. The split is balanced: every shard gets the quotient \<open>16384 div n\<close> or one slot
  more, the counts add up to 16384, and they are the sizes of the ranges \<open>Distribute\<close> returns.
\<close>

theorem TargetCounts_balanced:
  assumes "0 < n"
  shows "TargetCounts n = map range_count (Distribute n) \<and> sum_list (TargetCounts n) = TotalSlots \<and>
    (\<forall>c \<in> set (TargetCounts n). c = TotalSlots div n \<or> c = TotalSlots div n + 1)"
proof -
  have eq: "TargetCounts n = map range_count (Distribute n)"
    using assms by (simp add: TargetCounts_def range_count_def)
  have total: "sum_list (TargetCounts n) = TotalSlots"
    using sum_Distribute assms eq by simp
  have "c = TotalSlots div n \<or> c = TotalSlots div n + 1"
    if "i \<in> {0..n - 1}" "c = bound n (i + 1) - bound n i" for i c
    using bound_step [OF assms, of i] that by linarith
  then have counts: "\<forall>c \<in> set (TargetCounts n). c = TotalSlots div n \<or> c = TotalSlots div n + 1"
    unfolding eq using assms by (auto simp: Distribute_eq range_count_def)
  from eq total counts show ?thesis by blast
qed

theorem TargetCounts_balanced_witness:
  "sum_list (TargetCounts 3) = TotalSlots \<and> TargetCounts 3 = [5461, 5461, 5462]"
proof -
  have pos: "(0::int) < 3" by simp
  have "sum_list (TargetCounts 3) = TotalSlots" using TargetCounts_balanced [OF pos] by blast
  moreover have "TargetCounts 3 = [5461, 5461, 5462]" by code_simp
  ultimately show ?thesis by simp
qed

text \<open>
  Claim C26. On 64-bit integers the loop of \<open>Distribute\<close> computes the same ranges: no product
  wraps around for any shard count up to two to the power 48 (the API admits at most 16).
\<close>

theorem Distribute64_exact:
  assumes "sint n \<le> 2 ^ 48"
  shows "map (\<lambda>(s, e). \<lparr>Start = sint s, End = sint e\<rparr>) (Distribute64 n) = Distribute (sint n)"
proof (cases "sint n \<le> 0")
  case True
  then show ?thesis by (simp add: Distribute64_def Distribute_def)
next
  case False
  have prod: "sint (word_of_int k * 16384 :: int64) = k * TotalSlots"
    and quot: "sint (div64 (word_of_int k * 16384) n) = k * TotalSlots div sint n"
    if "0 \<le> k" "k \<le> sint n" for k
  proof -
    have k: "sint (word_of_int k :: int64) = k"
      using that assms by (intro sint_of_int64) (simp add: fits64_def)
    show p: "sint (word_of_int k * 16384 :: int64) = k * TotalSlots"
      using that assms by (subst sint_mult64) (simp_all add: k fits64_def TotalSlots_def)
    show "sint (div64 (word_of_int k * 16384) n) = k * TotalSlots div sint n"
      using that False by (subst sint_div64) (simp_all add: p TotalSlots_def)
  qed
  have "\<lparr>Start = sint (div64 (word_of_int k * 16384) n),
          End = sint (div64 ((word_of_int k + 1) * 16384) n - 1)\<rparr> =
        \<lparr>Start = k * TotalSlots div sint n, End = (k + 1) * TotalSlots div sint n - 1\<rparr>"
    if "k \<in> set [0..sint n - 1]" for k
  proof -
    have "word_of_int k + 1 = (word_of_int (k + 1) :: int64)" by simp
    moreover have "0 \<le> (k + 1) * TotalSlots div sint n"
      using that by (simp add: TotalSlots_def pos_imp_zdiv_nonneg_iff)
    moreover have "(k + 1) * TotalSlots div sint n \<le> TotalSlots"
      using that bound_mono [of "sint n" "k + 1" "sint n"] bound_n [of "sint n"] by (simp add: bound_def)
    ultimately show ?thesis
      using that quot [of k] quot [of "k + 1"]
      by (subst sint_sub64) (simp_all add: fits64_def TotalSlots_def)
  qed
  with False show ?thesis
    by (simp add: Distribute64_def Distribute_def Let_def)
qed

theorem Distribute64_exact_witness:
  "map (\<lambda>(s, e). \<lparr>Start = sint s, End = sint e\<rparr>) (Distribute64 3) = Distribute 3"
  using Distribute64_exact [of 3] by simp

end
