(* ===== verification/Node_Parser.thy ===== *)
theory Node_Parser
  imports Slot_Distribution
begin

text \<open>
  The parsers of \<^verbatim>\<open>internal/cluster/goredis.go\<close>: CLUSTER INFO, CLUSTER NODES, node
  addresses, slot tokens and the markers of slots in migration. The lemmas show that a list
  of nodes printed in the documented CLUSTER NODES format is read back unchanged, that a
  slot range printed by \<open>FormatRange\<close> is read back, and that the open-slot markers found
  are exactly those printed.
\<close>

section \<open>Definitions\<close>

definition hasOpenSlots :: "string \<Rightarrow> bool" where
  "hasOpenSlots nodesRaw \<longleftrightarrow> Contains nodesRaw ''->-'' \<or> Contains nodesRaw ''-<-''"

fun parse_info_lines :: "(string \<times> string) list \<Rightarrow> string list \<Rightarrow> (string \<times> string) list" where
  "parse_info_lines out [] = out"
| "parse_info_lines out (line # lines) =
     (case Cut CHR '':'' (TrimSpace line) of
        (k, v, ok) \<Rightarrow> parse_info_lines (if ok then AList.update k v out else out) lines)"

definition parseInfo :: "string \<Rightarrow> (string \<times> string) list" where
  "parseInfo s = parse_info_lines [] (Split newline s)"

definition parseSlotToken :: "string \<Rightarrow> int \<times> int \<times> bool" where
  "parseSlotToken tok =
     (case Cut CHR ''-'' tok of
        (lo, hi, True) \<Rightarrow>
          (case (Atoi lo, Atoi hi) of
             ((s, None), (e, None)) \<Rightarrow> (s, e, True)
           | _ \<Rightarrow> (0, 0, False))
      | (_, _, False) \<Rightarrow>
          (case Atoi tok of
             (s, None) \<Rightarrow> (s, s, True)
           | (_, Some _) \<Rightarrow> (0, 0, False)))"

definition parseAddr :: "string \<Rightarrow> string \<times> int \<times> string" where
  "parseAddr s0 =
     (let idx = Index s0 CHR '','';
          hostname = (if idx \<ge> 0 then drop (nat (idx + 1)) s0 else []);
          s1 = (if idx \<ge> 0 then take (nat idx) s0 else s0);
          idx2 = Index s1 CHR ''@'';
          s2 = (if idx2 \<ge> 0 then take (nat idx2) s1 else s1);
          (host, portStr, ok) = Cut CHR '':'' s2
      in (host, fst (Atoi portStr), hostname))"

fun parse_slot_tokens :: "string list \<Rightarrow> SlotRange list" where
  "parse_slot_tokens [] = []"
| "parse_slot_tokens (tok # toks) =
     (if HasPrefix tok ''['' then parse_slot_tokens toks
      else case parseSlotToken tok of
        (s, e, True) \<Rightarrow> \<lparr>Start = s, End = e\<rparr> # parse_slot_tokens toks
      | (_, _, False) \<Rightarrow> parse_slot_tokens toks)"

definition parse_node_line :: "string \<Rightarrow> NodeInfo option" where
  "parse_node_line line =
     (let fields = Fields line in
      if length fields < 8 then None
      else
        (case parseAddr (fields ! 1) of
           (ip, port, hostname) \<Rightarrow>
             Some \<lparr>ID = fields ! 0,
                   Host = (if hostname = [] then ip else hostname),
                   IP = ip,
                   Port = port,
                   Flags = Split CHR '','' (fields ! 2),
                   MasterID = (if fields ! 3 = ''-'' then [] else fields ! 3),
                   Slots = parse_slot_tokens (drop 8 fields),
                   Connected = (fields ! 7 = ''connected'')\<rparr>))"

definition parseNodes :: "string \<Rightarrow> NodeInfo list" where
  "parseNodes s = List.map_filter parse_node_line (Split newline s)"

text \<open>
  The slots of the \<^verbatim>\<open>[slot->-id]\<close> and \<^verbatim>\<open>[slot-<-id]\<close> tokens, without duplicates. Go collects
  them in a map and ranges over it, in no fixed order; here they are in the order found.
\<close>

definition marker_slot :: "string \<Rightarrow> int option" where
  "marker_slot f =
     (if \<not> HasPrefix f ''['' then None
      else
        let body = TrimPrefix f ''['';
            ds = takeWhile is_digit body
        in if ds = [] then None else Atoi_ok ds)"

fun open_slot_tokens :: "int list \<Rightarrow> string list \<Rightarrow> int list" where
  "open_slot_tokens seen [] = seen"
| "open_slot_tokens seen (f # fs) =
     (case marker_slot f of
        None \<Rightarrow> open_slot_tokens seen fs
      | Some n \<Rightarrow> open_slot_tokens (if n \<in> set seen then seen else seen @ [n]) fs)"

definition parseOpenSlots :: "string \<Rightarrow> int list" where
  "parseOpenSlots nodesRaw = open_slot_tokens [] (Fields nodesRaw)"

section \<open>Slot tokens\<close>

definition slot_range_ok :: "SlotRange \<Rightarrow> bool" where
  "slot_range_ok r \<longleftrightarrow> 0 \<le> Start r \<and> Start r \<le> End r \<and> End r < TotalSlots"

lemma parseSlotToken_FormatRange:
  assumes "0 \<le> Start r" "Start r < 2 ^ 63" "0 \<le> End r" "End r < 2 ^ 63"
  shows "parseSlotToken (FormatRange r) = (Start r, End r, True)"
proof -
  have notin: "CHR ''-'' \<notin> set (Itoa (Start r))"
    using assms(1) nondigits(1) by (rule Itoa_notin)
  have at: "Atoi (Itoa (Start r)) = (Start r, None)" "Atoi (Itoa (End r)) = (End r, None)"
    using assms by (simp_all add: Atoi_Itoa)
  show ?thesis
  proof (cases "Start r = End r")
    case True
    moreover have "Cut CHR ''-'' (Itoa (Start r)) = (Itoa (Start r), [], False)"
      by (rule Cut_no_sep [OF notin])
    ultimately show ?thesis
      using at by (simp add: parseSlotToken_def FormatRange_def)
  next
    case False
    have "Cut CHR ''-'' (Itoa (Start r) @ ''-'' @ Itoa (End r)) = (Itoa (Start r), Itoa (End r), True)"
      using Cut_append_sep [OF notin] by simp
    with False at show ?thesis
      by (simp add: parseSlotToken_def FormatRange_def)
  qed
qed

lemma FormatRange_chars:
  assumes "0 \<le> Start r" "0 \<le> End r" "c \<in> set (FormatRange r)"
  shows "is_digit c \<or> c = CHR ''-''"
  using assms Itoa_digits by (auto simp: FormatRange_def split: if_splits)

lemma FormatRange_nonempty [simp]: "FormatRange r \<noteq> []"
  by (simp add: FormatRange_def)

lemma FormatRange_no_bracket:
  assumes "0 \<le> Start r" "0 \<le> End r"
  shows "\<not> HasPrefix (FormatRange r) ''[''"
proof -
  obtain c cs where c: "FormatRange r = c # cs" by (cases "FormatRange r") auto
  then have "is_digit c \<or> c = CHR ''-''" using FormatRange_chars [OF assms, of c] by simp
  then have "c \<noteq> CHR ''[''" using nondigits by auto
  then show ?thesis by (simp add: c)
qed

lemma FormatRange_no_space:
  assumes "0 \<le> Start r" "0 \<le> End r" "c \<in> set (FormatRange r)"
  shows "\<not> is_space c"
  using FormatRange_chars [OF assms] digit_not_space is_space_chars(3) by blast

lemma FormatRange_no_comma: "slot_range_ok r \<Longrightarrow> CHR '','' \<notin> set (FormatRange r)"
  using FormatRange_chars [of r "CHR '',''"] nondigits(3) by (auto simp: slot_range_ok_def)

lemma slot_range_ok_bounds:
  "slot_range_ok r \<Longrightarrow> 0 \<le> Start r \<and> Start r < 2 ^ 63 \<and> 0 \<le> End r \<and> End r < 2 ^ 63"
  by (simp add: slot_range_ok_def TotalSlots_def)

lemma parse_slot_tokens_format:
  assumes "\<forall>r \<in> set rs. slot_range_ok r" and "\<forall>m \<in> set ms. HasPrefix m ''[''"
  shows "parse_slot_tokens (map FormatRange rs @ ms) = rs"
  using assms(1)
proof (induction rs)
  case Nil
  show ?case using assms(2) by (induction ms) simp_all
next
  case (Cons r rs)
  then have "\<not> HasPrefix (FormatRange r) ''[''"
    and "parseSlotToken (FormatRange r) = (Start r, End r, True)"
    using slot_range_ok_bounds [of r] by (simp_all add: FormatRange_no_bracket parseSlotToken_FormatRange)
  with Cons show ?case by simp
qed

section \<open>The CLUSTER NODES format\<close>

text \<open>
  The line format the parser documents:
  \<^verbatim>\<open><id> <ip:port@cport[,hostname]> <flags> <master> <ping> <pong> <epoch> <link> [slots...]\<close>,
  with the markers of open slots at the end of a node's own line.
\<close>

definition render_addr :: "NodeInfo \<Rightarrow> string \<Rightarrow> string" where
  "render_addr n cport = IP n @ '':'' @ Itoa (Port n) @ ''@'' @ cport @
     (if Host n = IP n then [] else '','' @ Host n)"

record line_extra =
  xCport :: string
  xPing :: string
  xPong :: string
  xEpoch :: string
  xMarkers :: "string list"

definition node_tokens :: "NodeInfo \<Rightarrow> line_extra \<Rightarrow> string list" where
  "node_tokens n x =
     [ID n, render_addr n (xCport x), Join '','' (Flags n),
      (if MasterID n = [] then ''-'' else MasterID n), xPing x, xPong x, xEpoch x,
      (if Connected n then ''connected'' else ''disconnected'')]
     @ map FormatRange (Slots n) @ xMarkers x"

definition render_node :: "NodeInfo \<times> line_extra \<Rightarrow> string" where
  "render_node nx = Join '' '' (node_tokens (fst nx) (snd nx))"

definition render_nodes :: "(NodeInfo \<times> line_extra) list \<Rightarrow> string" where
  "render_nodes nxs = Join [newline] (map render_node nxs)"

definition token_ok :: "string \<Rightarrow> bool" where
  "token_ok t \<longleftrightarrow> t \<noteq> [] \<and> (\<forall>c \<in> set t. \<not> is_space c)"

definition line_ok :: "NodeInfo \<Rightarrow> line_extra \<Rightarrow> bool" where
  "line_ok n x \<longleftrightarrow>
     (\<forall>t \<in> set (node_tokens n x). token_ok t) \<and>
     (\<forall>c \<in> set (IP n). c \<notin> {CHR '','', CHR ''@'', CHR '':''}) \<and>
     (\<forall>c \<in> set (xCport x). c \<noteq> CHR '','') \<and>
     (Host n \<noteq> IP n \<longrightarrow> Host n \<noteq> []) \<and>
     0 \<le> Port n \<and> Port n < 65536 \<and>
     Flags n \<noteq> [] \<and> (\<forall>f \<in> set (Flags n). CHR '','' \<notin> set f) \<and>
     MasterID n \<noteq> ''-'' \<and>
     (\<forall>r \<in> set (Slots n). slot_range_ok r) \<and>
     (\<forall>m \<in> set (xMarkers x). HasPrefix m ''['')"

lemma parseAddr_render:
  assumes ip: "\<forall>c \<in> set (IP n). c \<notin> {CHR '','', CHR ''@'', CHR '':''}"
    and cport: "\<forall>c \<in> set cport. c \<noteq> CHR '',''"
    and port: "0 \<le> Port n" "Port n < 65536"
  shows "parseAddr (render_addr n cport) = (IP n, Port n, if Host n = IP n then [] else Host n)"
proof -
  have digits: "CHR '','' \<notin> set (Itoa (Port n))" "CHR ''@'' \<notin> set (Itoa (Port n))"
    using port nondigits by (simp_all add: Itoa_notin)
  define hp where "hp = IP n @ CHR '':'' # Itoa (Port n)"
  define pre where "pre = hp @ CHR ''@'' # cport"
  have comma: "CHR '','' \<notin> set pre" using ip cport digits by (auto simp: pre_def hp_def)
  have at: "CHR ''@'' \<notin> set hp" using ip digits by (auto simp: hp_def)
  have colon: "Cut CHR '':'' hp = (IP n, Itoa (Port n), True)"
    unfolding hp_def using ip by (intro Cut_append_sep) auto
  have num: "Atoi (Itoa (Port n)) = (Port n, None)"
    using port by (simp add: Atoi_Itoa)
  have idx2: "Index pre CHR ''@'' = int (length hp)" and hp: "take (length hp) pre = hp"
    unfolding pre_def using at by (simp_all add: Index_append_sep)
  show ?thesis
  proof (cases "Host n = IP n")
    case True
    then have "render_addr n cport = pre" by (simp add: render_addr_def pre_def hp_def)
    then show ?thesis
      using True colon num Index_no_sep [OF comma] idx2 hp by (simp add: parseAddr_def Let_def)
  next
    case False
    then have r: "render_addr n cport = pre @ CHR '','' # Host n"
      by (simp add: render_addr_def pre_def hp_def)
    have "Index (render_addr n cport) CHR '','' = int (length pre)"
      unfolding r by (rule Index_append_sep [OF comma])
    moreover have "take (length pre) (render_addr n cport) = pre"
      and "drop (nat (int (length pre) + 1)) (render_addr n cport) = Host n"
      unfolding r by (simp_all add: nat_add_distrib)
    ultimately show ?thesis
      using False colon num idx2 hp by (simp add: parseAddr_def Let_def)
  qed
qed

lemma Fields_render_node:
  assumes "line_ok n x"
  shows "Fields (render_node (n, x)) = node_tokens n x"
  unfolding render_node_def fst_conv snd_conv
  using assms by (intro Fields_Join) (auto simp: line_ok_def token_ok_def)

lemma parse_render_node:
  assumes "line_ok n x"
  shows "parse_node_line (render_node (n, x)) = Some n"
proof -
  let ?ts = "node_tokens n x"
  have nth: "?ts ! 0 = ID n" "?ts ! 1 = render_addr n (xCport x)" "?ts ! 2 = Join '','' (Flags n)"
    "?ts ! 3 = (if MasterID n = [] then ''-'' else MasterID n)"
    "?ts ! 7 = (if Connected n then ''connected'' else ''disconnected'')"
    "drop 8 ?ts = map FormatRange (Slots n) @ xMarkers x" "(length ?ts < 8) = False"
    by (simp_all add: node_tokens_def)
  have flags: "Split CHR '','' (Join '','' (Flags n)) = Flags n"
    using assms by (intro Split_Join) (auto simp: line_ok_def)
  have addr: "parseAddr (render_addr n (xCport x)) = (IP n, Port n, if Host n = IP n then [] else Host n)"
    using assms by (intro parseAddr_render) (auto simp: line_ok_def)
  have slots: "parse_slot_tokens (map FormatRange (Slots n) @ xMarkers x) = Slots n"
    using assms by (intro parse_slot_tokens_format) (auto simp: line_ok_def)
  have rest: "MasterID n \<noteq> ''-''" "Host n \<noteq> IP n \<longrightarrow> Host n \<noteq> []"
    using assms by (simp_all add: line_ok_def)
  show ?thesis
    using rest unfolding parse_node_line_def Let_def Fields_render_node [OF assms] nth addr flags slots
    by (auto intro!: NodeInfo.equality)
qed

lemma newline_notin_render:
  assumes "line_ok n x"
  shows "newline \<notin> set (render_node (n, x))"
proof -
  have "newline \<notin> set (Join '' '' ts)" if "\<forall>t \<in> set ts. token_ok t" for ts
    using that is_space_chars by (induction "'' ''" ts rule: Join.induct) (auto simp: token_ok_def)
  with assms show ?thesis by (simp add: render_node_def line_ok_def)
qed

lemma parseNodes_render:
  assumes "nxs \<noteq> []" and "\<forall>(n, x) \<in> set nxs. line_ok n x"
  shows "parseNodes (render_nodes nxs) = map fst nxs"
proof -
  have "Split newline (render_nodes nxs) = map render_node nxs"
    unfolding render_nodes_def using assms newline_notin_render
    by (intro Split_Join) auto
  moreover have "List.map_filter parse_node_line (map render_node nxs) = map fst nxs"
    using assms(2)
  proof (induction nxs)
    case (Cons nx nxs)
    then show ?case
      using parse_render_node [of "fst nx" "snd nx"] by (auto simp: map_filter_simps split: prod.splits)
  qed (simp add: map_filter_simps)
  ultimately show ?thesis by (simp add: parseNodes_def)
qed

section \<open>Open-slot markers\<close>

text \<open>\<^verbatim>\<open>[slot->-id]\<close> on the source of a migration, \<^verbatim>\<open>[slot-<-id]\<close> on its target.\<close>

datatype marker = Migrating int string | Importing int string

fun marked_slot :: "marker \<Rightarrow> int" where
  "marked_slot (Migrating s i) = s"
| "marked_slot (Importing s i) = s"

fun render_marker :: "marker \<Rightarrow> string" where
  "render_marker (Migrating s i) = ''['' @ Itoa s @ ''->-'' @ i @ '']''"
| "render_marker (Importing s i) = ''['' @ Itoa s @ ''-<-'' @ i @ '']''"

lemma takeWhile_Itoa: "0 \<le> n \<Longrightarrow> \<not> is_digit c \<Longrightarrow> takeWhile is_digit (Itoa n @ c # s) = Itoa n"
  using Itoa_digits by (subst takeWhile_append2) auto

lemma marker_slot_render:
  assumes "0 \<le> marked_slot m" "marked_slot m < 2 ^ 63"
  shows "marker_slot (render_marker m) = Some (marked_slot m)"
proof (cases m)
  case (Migrating s i)
  have "takeWhile is_digit (Itoa s @ CHR ''-'' # CHR ''>'' # CHR ''-'' # i @ '']'') = Itoa s"
    using assms Migrating nondigits(1) by (intro takeWhile_Itoa) auto
  with Migrating assms show ?thesis
    by (simp add: marker_slot_def TrimPrefix_def Atoi_ok_def Atoi_Itoa)
next
  case (Importing s i)
  have "takeWhile is_digit (Itoa s @ CHR ''-'' # CHR ''<'' # CHR ''-'' # i @ '']'') = Itoa s"
    using assms Importing nondigits(1) by (intro takeWhile_Itoa) auto
  with Importing assms show ?thesis
    by (simp add: marker_slot_def TrimPrefix_def Atoi_ok_def Atoi_Itoa)
qed

lemma open_slot_tokens_set:
  "set (open_slot_tokens seen fs) = set seen \<union> {n. \<exists>f \<in> set fs. marker_slot f = Some n}"
  by (induction seen fs rule: open_slot_tokens.induct) (auto split: option.splits)

lemma open_slot_tokens_distinct: "distinct seen \<Longrightarrow> distinct (open_slot_tokens seen fs)"
  by (induction seen fs rule: open_slot_tokens.induct) (auto split: option.splits)

lemma Fields_acc_append_space:
  "is_space c \<Longrightarrow> Fields_acc tok (a @ c # b) = Fields_acc tok a @ Fields_acc [] b"
  by (induction a arbitrary: tok) auto

lemma Fields_append_space: "is_space c \<Longrightarrow> Fields (a @ c # b) = Fields a @ Fields b"
  by (simp add: Fields_def Fields_acc_append_space)

lemma Fields_Join_lines: "Fields (Join [newline] ls) = concat (map Fields ls)"
proof (induction "[newline]" ls rule: Join.induct)
  case (3 p q ps)
  have "Fields (p @ newline # Join [newline] (q # ps)) = Fields p @ Fields (Join [newline] (q # ps))"
    using is_space_chars(2) by (rule Fields_append_space)
  with 3 show ?case by simp
qed (simp_all add: Fields_def)

lemma Fields_render_nodes:
  assumes "\<forall>(n, x) \<in> set nxs. line_ok n x"
  shows "Fields (render_nodes nxs) = concat (map (\<lambda>(n, x). node_tokens n x) nxs)"
  unfolding render_nodes_def Fields_Join_lines
  using assms Fields_render_node by (induction nxs) auto

lemma marker_slot_no_bracket: "\<not> HasPrefix t ''['' \<Longrightarrow> marker_slot t = None"
  by (simp add: marker_slot_def)

section \<open>Properties\<close>

text \<open>
  Claim C21. Reading back CLUSTER NODES: for every list of nodes printed in the documented line
  format, one line per node, with any number of open-slot markers, \<open>parseNodes\<close> returns
  exactly those nodes, in order, with every field (address, hostname, flags, master, slots,
  link state) as printed.
\<close>

theorem parseNodes_roundtrip:
  assumes "nxs \<noteq> []" and "\<forall>(n, x) \<in> set nxs. line_ok n x"
  shows "parseNodes (render_nodes nxs) = map fst nxs"
  using assms by (rule parseNodes_render)

definition example_node :: NodeInfo where
  "example_node = \<lparr>ID = ''a1'', Host = ''demo-shard-0-0.demo-nodes.ns.svc'', IP = ''10.0.0.1'',
     Port = 6379, Flags = [''myself'', ''master''], MasterID = [],
     Slots = [\<lparr>Start = 0, End = 780\<rparr>, \<lparr>Start = 900, End = 900\<rparr>], Connected = True\<rparr>"

definition example_extra :: line_extra where
  "example_extra = \<lparr>xCport = ''16379'', xPing = ''0'', xPong = ''0'', xEpoch = ''1'',
     xMarkers = [''[781->-b2]'']\<rparr>"

lemma example_line_ok: "line_ok example_node example_extra"
  by code_simp

theorem parseNodes_roundtrip_witness:
  "parseNodes (''a1 10.0.0.1:6379@16379,demo-shard-0-0.demo-nodes.ns.svc myself,master - 0 0 1 connected 0-780 900 [781->-b2]'')
     = [example_node]"
proof -
  have "parseNodes (render_nodes [(example_node, example_extra)]) = map fst [(example_node, example_extra)]"
    by (rule parseNodes_roundtrip) (simp_all add: example_line_ok)
  moreover have "render_nodes [(example_node, example_extra)] =
    ''a1 10.0.0.1:6379@16379,demo-shard-0-0.demo-nodes.ns.svc myself,master - 0 0 1 connected 0-780 900 [781->-b2]''"
    by code_simp
  ultimately show ?thesis by simp
qed

text \<open>
  Claim C27. Reading back slot ranges: what \<open>FormatRanges\<close> prints for the ranges of a node, split
  at the commas and read with \<open>parseSlotToken\<close>, is the same ranges in the same order.
\<close>

theorem FormatRanges_roundtrip:
  assumes "rs \<noteq> []" and "\<forall>r \<in> set rs. slot_range_ok r"
  shows "map parseSlotToken (Split CHR '','' (FormatRanges rs)) = map (\<lambda>r. (Start r, End r, True)) rs"
proof -
  have "Split CHR '','' (FormatRanges rs) = map FormatRange rs"
    using assms FormatRange_no_comma by (auto simp: FormatRanges_def intro!: Split_Join)
  with assms show ?thesis
    using slot_range_ok_bounds by (auto intro!: parseSlotToken_FormatRange)
qed

theorem FormatRanges_roundtrip_witness:
  "map parseSlotToken (Split CHR '','' (FormatRanges [\<lparr>Start = 0, End = 100\<rparr>, \<lparr>Start = 200, End = 200\<rparr>]))
     = [(0, 100, True), (200, 200, True)]"
  using FormatRanges_roundtrip [of "[\<lparr>Start = 0, End = 100\<rparr>, \<lparr>Start = 200, End = 200\<rparr>]"]
  by (simp add: slot_range_ok_def TotalSlots_def)

text \<open>
  Claim C28. Open slots: when the bracketed tokens of a CLUSTER NODES text are the migration markers
  of a list of open slots, \<open>parseOpenSlots\<close> returns those slots, each once, whichever way
  and however often each is marked.
\<close>

theorem parseOpenSlots_exact:
  assumes "\<forall>(n, x) \<in> set nxs. line_ok n x"
    and "\<forall>(n, x) \<in> set nxs. \<forall>t \<in> set (take 8 (node_tokens n x)). \<not> HasPrefix t ''[''"
    and "\<forall>(n, x) \<in> set nxs. xMarkers x = map render_marker (ms n)"
    and "\<forall>(n, x) \<in> set nxs. \<forall>m \<in> set (ms n). 0 \<le> marked_slot m \<and> marked_slot m < TotalSlots"
  shows "distinct (parseOpenSlots (render_nodes nxs)) \<and>
    set (parseOpenSlots (render_nodes nxs)) = {marked_slot m | m n x. (n, x) \<in> set nxs \<and> m \<in> set (ms n)}"
proof -
  have tok: "(\<exists>f \<in> set (node_tokens n x). marker_slot f = Some s) \<longleftrightarrow> (\<exists>m \<in> set (ms n). s = marked_slot m)"
    if nx: "(n, x) \<in> set nxs" for n x s
  proof -
    have "set (node_tokens n x) = set (take 8 (node_tokens n x)) \<union> set (map FormatRange (Slots n))
        \<union> set (map render_marker (ms n))"
    proof -
      have "drop 8 (node_tokens n x) = map FormatRange (Slots n) @ map render_marker (ms n)"
        using nx assms(3) by (auto simp: node_tokens_def)
      then show ?thesis
        by (metis append_take_drop_id set_append sup_assoc)
    qed
    moreover have "\<forall>f \<in> set (take 8 (node_tokens n x)) \<union> set (map FormatRange (Slots n)). marker_slot f = None"
    proof (intro ballI marker_slot_no_bracket)
      fix f assume "f \<in> set (take 8 (node_tokens n x)) \<union> set (map FormatRange (Slots n))"
      then consider "f \<in> set (take 8 (node_tokens n x))" | r where "r \<in> set (Slots n)" "f = FormatRange r"
        by auto
      then show "\<not> HasPrefix f ''[''"
      proof cases
        case 1
        with nx assms(2) show ?thesis by blast
      next
        case 2
        with nx assms(1) have "slot_range_ok r" by (auto simp: line_ok_def)
        then have "0 \<le> Start r" "0 \<le> End r" by (simp_all add: slot_range_ok_def)
        then show ?thesis unfolding 2 by (rule FormatRange_no_bracket)
      qed
    qed
    moreover have "\<forall>m \<in> set (ms n). marker_slot (render_marker m) = Some (marked_slot m)"
      using nx assms(4) by (fastforce intro: marker_slot_render simp: TotalSlots_def)
    ultimately show ?thesis by fastforce
  qed
  have "set (parseOpenSlots (render_nodes nxs)) =
      {s. \<exists>(n, x) \<in> set nxs. \<exists>f \<in> set (node_tokens n x). marker_slot f = Some s}"
    unfolding parseOpenSlots_def open_slot_tokens_set Fields_render_nodes [OF assms(1)] by fastforce
  also have "\<dots> = {marked_slot m | m n x. (n, x) \<in> set nxs \<and> m \<in> set (ms n)}"
    using tok by fast
  finally show ?thesis
    by (simp add: parseOpenSlots_def open_slot_tokens_distinct)
qed

theorem parseOpenSlots_exact_witness:
  "set (parseOpenSlots (render_nodes [(example_node, example_extra)])) = {781}"
proof -
  have *: "distinct (parseOpenSlots (render_nodes [(example_node, example_extra)])) \<and>
    set (parseOpenSlots (render_nodes [(example_node, example_extra)])) =
      {marked_slot m | m n x. (n, x) \<in> set [(example_node, example_extra)] \<and>
         m \<in> set ((\<lambda>n. [Migrating 781 ''b2'']) n)}"
  proof (rule parseOpenSlots_exact)
    show "\<forall>(n, x) \<in> set [(example_node, example_extra)]. line_ok n x"
      by (simp add: example_line_ok)
    show "\<forall>(n, x) \<in> set [(example_node, example_extra)]. \<forall>t \<in> set (take 8 (node_tokens n x)). \<not> HasPrefix t ''[''"
      by code_simp
    show "\<forall>(n, x) \<in> set [(example_node, example_extra)]. xMarkers x = map render_marker [Migrating 781 ''b2'']"
      by code_simp
    show "\<forall>(n, x) \<in> set [(example_node, example_extra)]. \<forall>m \<in> set [Migrating 781 ''b2'']. 0 \<le> marked_slot m \<and> marked_slot m < TotalSlots"
      by code_simp
  qed
  then show ?thesis by auto
qed



end
