(* ===== verification/Fake.thy ===== *)
theory Fake
  imports Slot_Distribution
begin

text \<open>
  \<^verbatim>\<open>internal/cluster/fake.go\<close>: the in-memory \<^verbatim>\<open>ClusterAdmin\<close> that stands for a live cluster
  in the repository's own tests. Its state is the node map, an association list keyed by host
  (the mutex makes each method one atomic step, and pointers into the map are keys of it).
  The record is extensible, so that a larger world can contain a \<open>Fake\<close>.

  The lemmas give a well-formedness invariant that every method keeps, the effect of each
  method on every node and on the total number of assigned slots, and the \<^verbatim>\<open>ClusterAdmin\<close>
  value built from the methods.
\<close>

section \<open>Definitions\<close>

record Fake =
  nodes :: "(string \<times> NodeInfo) list"

definition NewFake :: Fake where
  "NewFake = \<lparr>nodes = []\<rparr>"

text \<open>\<^verbatim>\<open>n := f.nodes[k]; n.field = ...\<close>: a write through a pointer held in the map.\<close>

definition mutate :: "string \<Rightarrow> (NodeInfo \<Rightarrow> NodeInfo) \<Rightarrow> 'a Fake_scheme \<Rightarrow> 'a Fake_scheme" where
  "mutate k g f =
     (case map_of (nodes f) k of
        None \<Rightarrow> f
      | Some n \<Rightarrow> f\<lparr>nodes := AList.update k (g n) (nodes f)\<rparr>)"

definition new_node :: "Endpoint \<Rightarrow> NodeInfo" where
  "new_node e = zero_NodeInfo\<lparr>ID := epHost e, Host := epHost e, Port := epPort e,
     Connected := True, Flags := [''master'']\<rparr>"

definition ensure :: "Endpoint \<Rightarrow> 'a Fake_scheme \<Rightarrow> 'a Fake_scheme" where
  "ensure e f =
     (case map_of (nodes f) (epHost e) of
        Some n \<Rightarrow> f
      | None \<Rightarrow> f\<lparr>nodes := AList.update (epHost e) (new_node e) (nodes f)\<rparr>)"

definition assignedSlots :: "'a Fake_scheme \<Rightarrow> int" where
  "assignedSlots f = sum_vals SlotCount (nodes f)"

definition Fake_State :: "'a Fake_scheme \<Rightarrow> ClusterState" where
  "Fake_State f =
     (let assigned = assignedSlots f in
      \<lparr>Formed = (length (nodes f) > 0 \<and> assigned > 0),
       SlotsCovered = (assigned = TotalSlots),
       OpenSlots = False,
       Nodes = sort_key ID (map snd (nodes f))\<rparr>)"

definition Fake_MyID :: "Endpoint \<Rightarrow> 'a Fake_scheme \<Rightarrow> string \<times> 'a Fake_scheme" where
  "Fake_MyID ep f =
     (let f' = ensure ep f in (ID (index_or zero_NodeInfo (nodes f') (epHost ep)), f'))"

definition Fake_Meet :: "Endpoint \<Rightarrow> Endpoint \<Rightarrow> 'a Fake_scheme \<Rightarrow> 'a Fake_scheme" where
  "Fake_Meet from target f = ensure target (ensure from f)"

definition Fake_AddSlots :: "Endpoint \<Rightarrow> SlotRange list \<Rightarrow> 'a Fake_scheme \<Rightarrow> 'a Fake_scheme" where
  "Fake_AddSlots primary ranges f =
     mutate (epHost primary)
       (\<lambda>n. n\<lparr>MasterID := [], Flags := [''master''], Slots := Slots n @ ranges\<rparr>)
       (ensure primary f)"

definition Fake_Replicate :: "Endpoint \<Rightarrow> string \<Rightarrow> 'a Fake_scheme \<Rightarrow> 'a Fake_scheme" where
  "Fake_Replicate replica primaryID f =
     mutate (epHost replica)
       (\<lambda>n. n\<lparr>MasterID := primaryID, Flags := [''slave''], Slots := []\<rparr>)
       (ensure replica f)"

definition Fake_Forget :: "Endpoint \<Rightarrow> string \<Rightarrow> 'a Fake_scheme \<Rightarrow> 'a Fake_scheme" where
  "Fake_Forget from nodeID f = f\<lparr>nodes := AList.delete nodeID (nodes f)\<rparr>"

definition Fake_Failover :: "Endpoint \<Rightarrow> 'a Fake_scheme \<Rightarrow> 'a Fake_scheme" where
  "Fake_Failover replica f =
     (let rk = epHost replica in
      case map_of (nodes f) rk of
        None \<Rightarrow> f
      | Some r \<Rightarrow>
          if MasterID r = [] then f
          else
            let mk = MasterID r in
            case map_of (nodes f) mk of
              None \<Rightarrow> f
            | Some m \<Rightarrow>
                (let f1 = mutate mk (Slots_update (\<lambda>_. [])) (mutate rk (Slots_update (\<lambda>_. Slots m)) f);
                     f2 = mutate mk (MasterID_update (\<lambda>_. ID r)) (mutate rk (MasterID_update (\<lambda>_. [])) f1)
                 in mutate mk (Flags_update (\<lambda>_. [''slave'']))
                      (mutate rk (Flags_update (\<lambda>_. [''master''])) f2)))"

definition primaries :: "string list \<Rightarrow> 'a Fake_scheme \<Rightarrow> string list" where
  "primaries excluded f =
     sort (map fst (filter (\<lambda>(i, n). IsPrimary n \<and> i \<notin> set excluded) (nodes f)))"

text \<open>
  The even contiguous split both \<^verbatim>\<open>Rebalance\<close> and \<^verbatim>\<open>Reshard\<close> write: target \<open>i\<close> of \<open>k\<close> gets the
  slots from \<open>i * TotalSlots / k\<close> on.
\<close>

fun assign_split :: "int \<Rightarrow> int \<Rightarrow> string list \<Rightarrow> 'a Fake_scheme \<Rightarrow> 'a Fake_scheme" where
  "assign_split k i [] f = f"
| "assign_split k i (t # ts) f =
     assign_split k (i + 1) ts
       (mutate t (Slots_update (\<lambda>_. [\<lparr>Start = i * TotalSlots div k, End = (i + 1) * TotalSlots div k - 1\<rparr>])) f)"

definition clear_slots :: "(NodeInfo \<Rightarrow> bool) \<Rightarrow> 'a Fake_scheme \<Rightarrow> 'a Fake_scheme" where
  "clear_slots p f = f\<lparr>nodes := map (\<lambda>(i, n). (i, if p n then n\<lparr>Slots := []\<rparr> else n)) (nodes f)\<rparr>"

definition Fake_Rebalance :: "RebalanceOpts \<Rightarrow> 'a Fake_scheme \<Rightarrow> 'a Fake_scheme" where
  "Fake_Rebalance opts f =
     (let targets = primaries (WeightZeroIDs opts) f in
      if targets = [] then f
      else
        let f1 = clear_slots (\<lambda>_. True) f;
            f2 = fold (\<lambda>i. mutate i (Slots_update (\<lambda>_. []))) (WeightZeroIDs opts) f1
        in assign_split (int (length targets)) 0 targets f2)"

definition countToRanges :: "int \<Rightarrow> SlotRange list" where
  "countToRanges count = (if count \<le> 0 then [] else [\<lparr>Start = 0, End = count - 1\<rparr>])"

text \<open>\<^verbatim>\<open>f.nodes[k].SlotCount()\<close>\<close>

definition count_at :: "string \<Rightarrow> 'a Fake_scheme \<Rightarrow> int" where
  "count_at k f = SlotCount (index_or zero_NodeInfo (nodes f) k)"

definition Fake_Reshard :: "string \<Rightarrow> string \<Rightarrow> int \<Rightarrow> 'a Fake_scheme \<Rightarrow> 'a Fake_scheme" where
  "Fake_Reshard fromNodeID toNodeID n f =
     (if map_of (nodes f) toNodeID = None then f
      else
        let f1 = mutate toNodeID (\<lambda>nd. nd\<lparr>MasterID := [], Flags := [''master'']\<rparr>) f in
        if fromNodeID \<noteq> [] then
          (if map_of (nodes f1) fromNodeID = None then f1
           else
             let c = count_at fromNodeID f1;
                 moved = (if c < n then c else n);
                 f2 = mutate fromNodeID (Slots_update (\<lambda>_. countToRanges (c - moved))) f1
             in mutate toNodeID (Slots_update (\<lambda>_. countToRanges (count_at toNodeID f2 + moved))) f2)
        else
          let f2 = (if count_at toNodeID f1 = 0
                    then mutate toNodeID (Slots_update (\<lambda>_. [\<lparr>Start = 0, End = 0\<rparr>])) f1 else f1);
              owners = sort (map fst (filter (\<lambda>(i, nd). IsPrimary nd \<and> SlotCount nd > 0) (nodes f2)));
              f3 = clear_slots IsPrimary f2
          in assign_split (int (length owners)) 0 owners f3)"

definition Fake_RepairSlots :: "'a Fake_scheme \<Rightarrow> (int \<times> error option) \<times> 'a Fake_scheme" where
  "Fake_RepairSlots f = ((0, None), f)"

definition Fake_MoveSlots :: "string \<Rightarrow> string \<Rightarrow> int \<Rightarrow> 'a Fake_scheme \<Rightarrow> (int \<times> error option) \<times> 'a Fake_scheme" where
  "Fake_MoveSlots fromNodeID toNodeID n f =
     (if map_of (nodes f) fromNodeID = None then ((0, None), f)
      else if map_of (nodes f) toNodeID = None then ((0, None), f)
      else
        let c = count_at fromNodeID f;
            moved = (if c < n then c else n);
            f1 = mutate fromNodeID (Slots_update (\<lambda>_. countToRanges (c - moved))) f;
            f2 = mutate toNodeID (\<lambda>nd. nd\<lparr>MasterID := [], Flags := [''master'']\<rparr>) f1;
            f3 = mutate toNodeID (Slots_update (\<lambda>_. countToRanges (count_at toNodeID f2 + moved))) f2
        in ((moved, None), f3))"

definition Fake_Fix :: "'a Fake_scheme \<Rightarrow> 'a Fake_scheme" where
  "Fake_Fix f = Fake_Rebalance \<lparr>UseEmptyMasters = False, WeightZeroIDs = []\<rparr> f"

text \<open>The interface value.\<close>

definition effect :: "('w \<Rightarrow> 'w) \<Rightarrow> ('w, unit) ioE" where
  "effect g = State (\<lambda>w. (Inr (), g w))"

definition Fake_admin :: "'a Fake_scheme ClusterAdmin" where
  "Fake_admin =
     \<lparr>aState = (\<lambda>_. State (\<lambda>f. (Inr (Fake_State f), f))),
      aMyID = (\<lambda>ep. State (\<lambda>f. case Fake_MyID ep f of (i, f') \<Rightarrow> (Inr i, f'))),
      aMeet = (\<lambda>from target. effect (Fake_Meet from target)),
      aAddSlots = (\<lambda>p rs. effect (Fake_AddSlots p rs)),
      aReplicate = (\<lambda>r i. effect (Fake_Replicate r i)),
      aForget = (\<lambda>from i. effect (Fake_Forget from i)),
      aFailover = (\<lambda>r. effect (Fake_Failover r)),
      aRebalance = (\<lambda>_ opts. effect (Fake_Rebalance opts)),
      aReshard = (\<lambda>_ from to n. effect (Fake_Reshard from to n)),
      aMoveSlots = (\<lambda>_ from to n. State (Fake_MoveSlots from to n)),
      aFix = (\<lambda>_. effect Fake_Fix),
      aRepairSlots = (\<lambda>_. State Fake_RepairSlots)\<rparr>"

section \<open>Lookups after an update\<close>

lemma map_of_mutate [simp]:
  "map_of (nodes (mutate k g f)) x = (if x = k then map_option g (map_of (nodes f) k) else map_of (nodes f) x)"
  by (auto simp: mutate_def split: option.splits)

lemma map_of_ensure [simp]:
  "map_of (nodes (ensure e f)) x =
     (if x = epHost e \<and> map_of (nodes f) x = None then Some (new_node e) else map_of (nodes f) x)"
  by (auto simp: ensure_def split: option.splits)

lemma ensure_known: "map_of (nodes f) (epHost e) \<noteq> None \<Longrightarrow> ensure e f = f"
  by (auto simp: ensure_def)

lemma mutate_known: "map_of (nodes f) k = Some n \<Longrightarrow> mutate k g f = f\<lparr>nodes := AList.update k (g n) (nodes f)\<rparr>"
  by (simp add: mutate_def)

lemma mutate_unknown [simp]: "map_of (nodes f) k = None \<Longrightarrow> mutate k g f = f"
  by (simp add: mutate_def)

lemma map_of_map_snd: "map_of (map (\<lambda>(i, n). (i, h n)) m) k = map_option h (map_of m k)"
  by (induction m) auto

lemma map_of_clear_slots [simp]:
  "map_of (nodes (clear_slots p f)) k = map_option (\<lambda>n. if p n then n\<lparr>Slots := []\<rparr> else n) (map_of (nodes f) k)"
  by (simp add: clear_slots_def map_of_map_snd)

lemma new_node_simps [simp]:
  "ID (new_node e) = epHost e" "Host (new_node e) = epHost e" "Slots (new_node e) = []"
  "MasterID (new_node e) = []" "Flags (new_node e) = [''master'']" "Connected (new_node e)"
  by (simp_all add: new_node_def zero_NodeInfo_def)

lemma SlotCount_new_node [simp]: "SlotCount (new_node e) = 0"
  by (simp add: SlotCount_eq)

lemma SlotCount_update [simp]:
  "SlotCount (n\<lparr>MasterID := x\<rparr>) = SlotCount n" "SlotCount (n\<lparr>Flags := y\<rparr>) = SlotCount n"
  "SlotCount (n\<lparr>Slots := rs\<rparr>) = sum_list (map range_count rs)"
  by (simp_all add: SlotCount_eq)

lemma SlotCount_countToRanges [simp]: "sum_list (map range_count (countToRanges c)) = max 0 c"
  by (simp add: countToRanges_def range_count_def)

section \<open>Well-formedness\<close>

text \<open>
  The map has one entry per host; an entry's ID and host are its key; no slot range has a
  negative size; a node with a master is flagged as a replica and owns no slots.
\<close>

definition node_ok :: "string \<Rightarrow> NodeInfo \<Rightarrow> bool" where
  "node_ok k n \<longleftrightarrow> ID n = k \<and> Host n = k \<and> (\<forall>r \<in> set (Slots n). 0 \<le> range_count r) \<and>
     (MasterID n \<noteq> [] \<longrightarrow> Flags n = [''slave''] \<and> Slots n = [])"

definition Fake_wf :: "'a Fake_scheme \<Rightarrow> bool" where
  "Fake_wf f \<longleftrightarrow> distinct (map fst (nodes f)) \<and> (\<forall>k n. map_of (nodes f) k = Some n \<longrightarrow> node_ok k n)"

lemma Fake_wf_NewFake: "Fake_wf NewFake"
  by (simp add: Fake_wf_def NewFake_def)

lemma distinct_mutate [simp]: "distinct (map fst (nodes f)) \<Longrightarrow> distinct (map fst (nodes (mutate k g f)))"
  by (simp add: mutate_def split: option.splits)

lemma distinct_ensure [simp]: "distinct (map fst (nodes f)) \<Longrightarrow> distinct (map fst (nodes (ensure e f)))"
  by (simp add: ensure_def split: option.splits)

lemma distinct_clear [simp]: "map fst (nodes (clear_slots p f)) = map fst (nodes f)"
  by (simp add: clear_slots_def case_prod_beta comp_def)

lemma Fake_wfD:
  assumes "Fake_wf f"
  shows Fake_wf_distinct: "distinct (map fst (nodes f))"
    and Fake_wf_node: "map_of (nodes f) k = Some n \<Longrightarrow> node_ok k n"
  using assms by (simp_all add: Fake_wf_def)

lemma node_ok_primary: "node_ok k n \<Longrightarrow> IsPrimary n \<longleftrightarrow> MasterID n = []"
  by (auto simp: node_ok_def IsPrimary_iff)

lemma Fake_wf_mutate:
  assumes "Fake_wf f" and "\<And>n. map_of (nodes f) k = Some n \<Longrightarrow> node_ok k n \<Longrightarrow> node_ok k (g n)"
  shows "Fake_wf (mutate k g f)"
  using assms by (auto simp: Fake_wf_def)

lemma Fake_wf_ensure: "Fake_wf f \<Longrightarrow> Fake_wf (ensure e f)"
  by (auto simp: Fake_wf_def node_ok_def split: if_splits)

lemma Fake_wf_clear: "Fake_wf f \<Longrightarrow> Fake_wf (clear_slots p f)"
  by (auto simp: Fake_wf_def node_ok_def split: if_splits)

lemma Fake_wf_Forget: "Fake_wf f \<Longrightarrow> Fake_wf (Fake_Forget a i f)"
  by (auto simp: Fake_wf_def Fake_Forget_def split: if_splits)

lemma node_ok_Slots:
  "node_ok k n \<Longrightarrow> MasterID n = [] \<or> rs = [] \<Longrightarrow> \<forall>r \<in> set rs. 0 \<le> range_count r \<Longrightarrow> node_ok k (n\<lparr>Slots := rs\<rparr>)"
  by (auto simp: node_ok_def)

lemma Fake_wf_set_slots:
  assumes "Fake_wf f" and "\<And>n. map_of (nodes f) k = Some n \<Longrightarrow> MasterID n = [] \<or> rs = []"
    and "\<forall>r \<in> set rs. 0 \<le> range_count r"
  shows "Fake_wf (mutate k (Slots_update (\<lambda>_. rs)) f)"
  using assms by (intro Fake_wf_mutate node_ok_Slots) auto

lemma range_count_countToRanges: "\<forall>r \<in> set (countToRanges c). 0 \<le> range_count r"
  by (simp add: countToRanges_def range_count_def)

lemma SlotCount_nonneg: "node_ok k n \<Longrightarrow> 0 \<le> SlotCount n"
  unfolding SlotCount_eq node_ok_def by (intro sum_list_nonneg) auto

lemma Fake_wf_count: "Fake_wf f \<Longrightarrow> 0 \<le> count_at k f"
  by (cases "map_of (nodes f) k") (auto simp: count_at_def dest!: Fake_wf_node SlotCount_nonneg)

lemma split_range_nonneg:
  assumes "0 < k"
  shows "0 \<le> range_count \<lparr>Start = i * TotalSlots div k, End = (i + 1) * TotalSlots div k - 1\<rparr>"
  using bound_mono [OF assms, of i "i + 1"] by (simp add: range_count_def bound_def)

definition is_primary_at :: "string \<Rightarrow> 'a Fake_scheme \<Rightarrow> bool" where
  "is_primary_at k f \<longleftrightarrow> (\<exists>n. map_of (nodes f) k = Some n \<and> IsPrimary n)"

lemma IsPrimary_Slots [simp]: "IsPrimary (n\<lparr>Slots := rs\<rparr>) = IsPrimary n"
  by (simp add: IsPrimary_iff)

lemma is_primary_at_Slots [simp]:
  "is_primary_at x (mutate k (Slots_update (\<lambda>_. rs)) f) = is_primary_at x f"
  by (auto simp: is_primary_at_def)

lemma is_primary_at_clear [simp]: "is_primary_at x (clear_slots p f) = is_primary_at x f"
  by (cases "map_of (nodes f) x") (auto simp: is_primary_at_def)

lemma is_primary_at_fold_clear [simp]:
  "is_primary_at x (fold (\<lambda>i. mutate i (Slots_update (\<lambda>_. []))) is f) = is_primary_at x f"
  by (induction "is" arbitrary: f) simp_all

lemma Fake_wf_assign_split:
  "0 < k \<Longrightarrow> Fake_wf f \<Longrightarrow> \<forall>t \<in> set ts. is_primary_at t f \<Longrightarrow> Fake_wf (assign_split k i ts f)"
proof (induction k i ts f rule: assign_split.induct)
  case (2 k i t ts f)
  have "Fake_wf (mutate t (Slots_update (\<lambda>_. [\<lparr>Start = i * TotalSlots div k, End = (i + 1) * TotalSlots div k - 1\<rparr>])) f)"
    using 2 split_range_nonneg [OF 2(2), of i]
    by (intro Fake_wf_mutate node_ok_Slots) (auto simp: is_primary_at_def node_ok_primary)
  with 2 show ?case by simp
qed simp

lemma Fake_wf_fold_clear:
  "Fake_wf f \<Longrightarrow> Fake_wf (fold (\<lambda>i. mutate i (Slots_update (\<lambda>_. []))) is f)"
  by (induction "is" arbitrary: f) (auto simp: Fake_wf_mutate node_ok_Slots)

lemma set_primaries: "Fake_wf f \<Longrightarrow> set (primaries ex f) = {i. is_primary_at i f \<and> i \<notin> set ex}"
  by (force simp: primaries_def is_primary_at_def map_of_eq_Some_iff [OF Fake_wf_distinct])

lemma Fake_wf_AddSlots:
  assumes "Fake_wf f" and "\<forall>r \<in> set rs. 0 \<le> range_count r"
  shows "Fake_wf (Fake_AddSlots p rs f)"
  unfolding Fake_AddSlots_def using assms
  by (intro Fake_wf_mutate Fake_wf_ensure) (auto simp: node_ok_def)

lemma Fake_wf_Replicate: "Fake_wf f \<Longrightarrow> Fake_wf (Fake_Replicate r i f)"
  unfolding Fake_Replicate_def by (intro Fake_wf_mutate Fake_wf_ensure) (auto simp: node_ok_def)

lemma Fake_wf_MyID: "Fake_wf f \<Longrightarrow> Fake_wf (snd (Fake_MyID ep f))"
  by (simp add: Fake_MyID_def Let_def Fake_wf_ensure)

lemma Fake_wf_Meet: "Fake_wf f \<Longrightarrow> Fake_wf (Fake_Meet a b f)"
  by (simp add: Fake_Meet_def Fake_wf_ensure)

lemma Fake_wf_Rebalance: "Fake_wf f \<Longrightarrow> Fake_wf (Fake_Rebalance opts f)"
  unfolding Fake_Rebalance_def Let_def
  by (auto intro!: Fake_wf_assign_split Fake_wf_fold_clear Fake_wf_clear simp: set_primaries)

section \<open>Slot counts\<close>

lemma count_at_mutate:
  "count_at x (mutate k g f) =
     (if x = k then (case map_of (nodes f) k of None \<Rightarrow> 0 | Some n \<Rightarrow> SlotCount (g n)) else count_at x f)"
  by (auto simp: count_at_def index_or_def split: option.splits)

lemma count_at_Some: "map_of (nodes f) k = Some n \<Longrightarrow> count_at k f = SlotCount n"
  by (simp add: count_at_def)

lemma count_at_None: "map_of (nodes f) k = None \<Longrightarrow> count_at k f = 0"
  by (simp add: count_at_def)

lemma count_at_ensure [simp]: "count_at k (ensure e f) = count_at k f"
  by (auto simp: count_at_def index_or_def split: option.splits)

lemma assigned_mutate:
  assumes "distinct (map fst (nodes f))" and "map_of (nodes f) k = Some n"
  shows "assignedSlots (mutate k g f) = assignedSlots f - SlotCount n + SlotCount (g n)"
  using assms by (simp add: assignedSlots_def mutate_known sum_vals_update_present)

lemma assigned_ensure [simp]: "assignedSlots (ensure e f) = assignedSlots f"
  by (auto simp: assignedSlots_def ensure_def sum_vals_update_absent split: option.splits)

lemma assigned_NewFake [simp]: "assignedSlots NewFake = 0"
  by (simp add: assignedSlots_def NewFake_def)

lemma assigned_MyID [simp]: "assignedSlots (snd (Fake_MyID ep f)) = assignedSlots f"
  by (simp add: Fake_MyID_def Let_def)

lemma assigned_Meet [simp]: "assignedSlots (Fake_Meet a b f) = assignedSlots f"
  by (simp add: Fake_Meet_def)

lemma assigned_AddSlots:
  assumes "Fake_wf f"
  shows "assignedSlots (Fake_AddSlots p rs f) = assignedSlots f + sum_list (map range_count rs)"
proof -
  obtain n where n: "map_of (nodes (ensure p f)) (epHost p) = Some n"
    by (cases "map_of (nodes f) (epHost p)") auto
  have "assignedSlots (Fake_AddSlots p rs f) = assignedSlots (ensure p f) - SlotCount n
      + SlotCount (n\<lparr>MasterID := [], Flags := [''master''], Slots := Slots n @ rs\<rparr>)"
    unfolding Fake_AddSlots_def using assms n by (intro assigned_mutate) (simp_all add: Fake_wf_distinct)
  then show ?thesis by (simp add: SlotCount_eq)
qed

lemma assigned_Replicate:
  assumes "Fake_wf f"
  shows "assignedSlots (Fake_Replicate r i f) = assignedSlots f - count_at (epHost r) f"
proof -
  obtain n where n: "map_of (nodes (ensure r f)) (epHost r) = Some n"
    by (cases "map_of (nodes f) (epHost r)") auto
  have "assignedSlots (Fake_Replicate r i f) = assignedSlots (ensure r f) - SlotCount n
      + SlotCount (n\<lparr>MasterID := i, Flags := [''slave''], Slots := []\<rparr>)"
    unfolding Fake_Replicate_def using assms n by (intro assigned_mutate) (simp_all add: Fake_wf_distinct)
  moreover have "SlotCount n = count_at (epHost r) f"
    using count_at_Some [OF n] by simp
  ultimately show ?thesis by simp
qed

lemma sum_vals_map_zero: "(\<And>n. g (h n) = 0) \<Longrightarrow> sum_vals g (map (\<lambda>(i, n). (i, h n)) m) = 0"
  by (induction m) auto

lemma assigned_clear_all: "assignedSlots (clear_slots (\<lambda>_. True) f) = 0"
  unfolding assignedSlots_def clear_slots_def by (simp add: sum_vals_map_zero)

text \<open>The even split adds up: \<open>k\<close> targets that own nothing get the slots between two boundaries.\<close>

lemma assigned_assign_split:
  assumes "0 < k" "Fake_wf f" "distinct ts" "\<forall>t \<in> set ts. is_primary_at t f \<and> count_at t f = 0"
  shows "assignedSlots (assign_split k i ts f) = assignedSlots f + bound k (i + int (length ts)) - bound k i"
  using assms
proof (induction k i ts f rule: assign_split.induct)
  case (2 k i t ts f)
  let ?r = "\<lparr>Start = i * TotalSlots div k, End = (i + 1) * TotalSlots div k - 1\<rparr>"
  let ?f = "mutate t (Slots_update (\<lambda>_. [?r])) f"
  obtain n where n: "map_of (nodes f) t = Some n" "IsPrimary n" "SlotCount n = 0"
    using 2 by (auto simp: is_primary_at_def count_at_Some)
  have wf: "Fake_wf ?f"
    using Fake_wf_assign_split [of k f "[t]" i] 2 by simp
  have "assignedSlots ?f = assignedSlots f + bound k (i + 1) - bound k i"
    using assigned_mutate [OF Fake_wf_distinct [OF 2(3)] n(1)] n(3) by (simp add: range_count_def bound_def)
  moreover have "assignedSlots (assign_split k (i + 1) ts ?f) =
      assignedSlots ?f + bound k (i + 1 + int (length ts)) - bound k (i + 1)"
    using 2 wf by (intro 2(1)) (auto simp: count_at_mutate)
  ultimately show ?case by (simp add: add.assoc)
qed simp

lemma distinct_map_filter_fst: "distinct (map fst m) \<Longrightarrow> distinct (map fst (filter p m))"
  by (induction m) auto

lemma distinct_primaries: "Fake_wf f \<Longrightarrow> distinct (primaries ex f)"
  by (simp add: primaries_def distinct_map_filter_fst Fake_wf_distinct)

section \<open>MoveSlots\<close>

lemma MoveSlots_effect:
  assumes wf: "Fake_wf f" and a: "map_of (nodes f) a = Some na" and b: "map_of (nodes f) b = Some nb"
    and ne: "a \<noteq> b" and n: "0 \<le> n"
  defines "m \<equiv> min n (SlotCount na)"
  shows "fst (Fake_MoveSlots a b n f) = (m, None)"
    and "map_of (nodes (snd (Fake_MoveSlots a b n f))) =
      (map_of (nodes f))(a \<mapsto> na\<lparr>Slots := countToRanges (SlotCount na - m)\<rparr>,
        b \<mapsto> nb\<lparr>MasterID := [], Flags := [''master''], Slots := countToRanges (SlotCount nb + m)\<rparr>)"
    and "assignedSlots (snd (Fake_MoveSlots a b n f)) = assignedSlots f"
    and "Fake_wf (snd (Fake_MoveSlots a b n f))"
proof -
  have nn: "0 \<le> SlotCount na" "0 \<le> SlotCount nb"
    using Fake_wf_node [OF wf a] Fake_wf_node [OF wf b] SlotCount_nonneg by blast+
  let ?ga = "Slots_update (\<lambda>_. countToRanges (SlotCount na - m))"
  let ?gb = "\<lambda>nd. nd\<lparr>MasterID := [], Flags := [''master'']\<rparr>"
  let ?gc = "Slots_update (\<lambda>_. countToRanges (SlotCount nb + m))"
  let ?f1 = "mutate a ?ga f" let ?f2 = "mutate b ?gb ?f1" let ?f3 = "mutate b ?gc ?f2"
  have m: "(if SlotCount na < n then SlotCount na else n) = m" by (simp add: m_def min_def)
  have cb: "count_at b ?f2 = SlotCount nb" using ne b by (simp add: count_at_mutate)
  have run: "Fake_MoveSlots a b n f = ((m, None), ?f3)"
    unfolding Fake_MoveSlots_def Let_def count_at_Some [OF a] m cb [symmetric] by (simp add: a b)
  show "fst (Fake_MoveSlots a b n f) = (m, None)" by (simp add: run)
  show "map_of (nodes (snd (Fake_MoveSlots a b n f))) =
      (map_of (nodes f))(a \<mapsto> na\<lparr>Slots := countToRanges (SlotCount na - m)\<rparr>,
        b \<mapsto> nb\<lparr>MasterID := [], Flags := [''master''], Slots := countToRanges (SlotCount nb + m)\<rparr>)"
    using a b ne by (auto simp: run)
  have d: "distinct (map fst (nodes f))" using wf by (rule Fake_wf_distinct)
  have "assignedSlots ?f3 = assignedSlots f - SlotCount na + max 0 (SlotCount na - m)
      - SlotCount nb + max 0 (SlotCount nb + m)"
    using a b ne d by (simp add: assigned_mutate)
  also have "\<dots> = assignedSlots f" using nn n by (simp add: m_def)
  finally show "assignedSlots (snd (Fake_MoveSlots a b n f)) = assignedSlots f" by (simp add: run)
  have "MasterID na = [] \<or> countToRanges (SlotCount na - m) = []"
    using Fake_wf_node [OF wf a] n by (auto simp: node_ok_def m_def SlotCount_eq countToRanges_def)
  then have "Fake_wf ?f1"
    using wf a range_count_countToRanges by (intro Fake_wf_set_slots) auto
  then have "Fake_wf ?f2"
    by (rule Fake_wf_mutate) (auto simp: node_ok_def)
  then have "Fake_wf ?f3"
    using range_count_countToRanges b ne by (intro Fake_wf_set_slots) auto
  then show "Fake_wf (snd (Fake_MoveSlots a b n f))" by (simp add: run)
qed

lemma MoveSlots_unknown:
  "map_of (nodes f) a = None \<or> map_of (nodes f) b = None \<Longrightarrow> Fake_MoveSlots a b n f = ((0, None), f)"
  by (auto simp: Fake_MoveSlots_def)

text \<open>Moving slots from a node to itself changes no count.\<close>

lemma MoveSlots_self:
  assumes wf: "Fake_wf f" and a: "map_of (nodes f) a = Some na" and n: "0 \<le> n"
  shows "map_of (nodes (snd (Fake_MoveSlots a a n f))) =
      (map_of (nodes f))(a \<mapsto> na\<lparr>MasterID := [], Flags := [''master''], Slots := countToRanges (SlotCount na)\<rparr>)"
    and "assignedSlots (snd (Fake_MoveSlots a a n f)) = assignedSlots f"
    and "Fake_wf (snd (Fake_MoveSlots a a n f))"
proof -
  have nn: "0 \<le> SlotCount na" using Fake_wf_node [OF wf a] SlotCount_nonneg by blast
  define m where "m = min n (SlotCount na)"
  let ?ga = "Slots_update (\<lambda>_. countToRanges (SlotCount na - m))"
  let ?gb = "\<lambda>nd. nd\<lparr>MasterID := [], Flags := [''master'']\<rparr>"
  let ?gc = "Slots_update (\<lambda>_. countToRanges (SlotCount na))"
  have m: "(if SlotCount na < n then SlotCount na else n) = m" "0 \<le> m" "m \<le> SlotCount na"
    using nn n by (simp_all add: m_def min_def)
  have run: "snd (Fake_MoveSlots a a n f) = mutate a ?gc (mutate a ?gb (mutate a ?ga f))"
    unfolding Fake_MoveSlots_def Let_def count_at_Some [OF a] m using a m by (simp add: count_at_mutate)
  show "map_of (nodes (snd (Fake_MoveSlots a a n f))) =
      (map_of (nodes f))(a \<mapsto> na\<lparr>MasterID := [], Flags := [''master''], Slots := countToRanges (SlotCount na)\<rparr>)"
    using a by (auto simp: run)
  show "assignedSlots (snd (Fake_MoveSlots a a n f)) = assignedSlots f"
    using a Fake_wf_distinct [OF wf] nn unfolding run by (simp add: assigned_mutate)
  show "Fake_wf (snd (Fake_MoveSlots a a n f))"
    unfolding Fake_wf_def
  proof (intro conjI allI impI)
    show "distinct (map fst (nodes (snd (Fake_MoveSlots a a n f))))"
      unfolding run using Fake_wf_distinct [OF wf] by simp
    fix k nd assume "map_of (nodes (snd (Fake_MoveSlots a a n f))) k = Some nd"
    then show "node_ok k nd"
      using a Fake_wf_node [OF wf] range_count_countToRanges unfolding run
      by (fastforce simp: node_ok_def split: if_splits)
  qed
qed

lemma Fake_wf_MoveSlots: "Fake_wf f \<Longrightarrow> 0 \<le> n \<Longrightarrow> Fake_wf (snd (Fake_MoveSlots a b n f))"
  and assigned_MoveSlots: "Fake_wf f \<Longrightarrow> 0 \<le> n \<Longrightarrow> assignedSlots (snd (Fake_MoveSlots a b n f)) = assignedSlots f"
proof -
  assume wf: "Fake_wf f" and n: "0 \<le> n"
  consider "map_of (nodes f) a = None \<or> map_of (nodes f) b = None"
    | na where "a = b" "map_of (nodes f) a = Some na"
    | na nb where "a \<noteq> b" "map_of (nodes f) a = Some na" "map_of (nodes f) b = Some nb"
    by (cases "map_of (nodes f) a"; cases "map_of (nodes f) b") auto
  then have "Fake_wf (snd (Fake_MoveSlots a b n f)) \<and> assignedSlots (snd (Fake_MoveSlots a b n f)) = assignedSlots f"
  proof cases
    case 1
    then show ?thesis using wf by (simp add: MoveSlots_unknown)
  next
    case 2
    then show ?thesis using MoveSlots_self [OF wf 2(2) n] by simp
  next
    case 3
    then show ?thesis using MoveSlots_effect [OF wf 3(2,3,1) n] by simp
  qed
  then show "Fake_wf (snd (Fake_MoveSlots a b n f))"
    and "assignedSlots (snd (Fake_MoveSlots a b n f)) = assignedSlots f" by blast+
qed

section \<open>Rebalance, Reshard and Failover\<close>

lemma count_at_clear_all [simp]: "count_at k (clear_slots (\<lambda>_. True) f) = 0"
  by (auto simp: count_at_def index_or_def split: option.splits)

lemma count_at_fold_clear:
  "count_at k f = 0 \<Longrightarrow> count_at k (fold (\<lambda>i. mutate i (Slots_update (\<lambda>_. []))) is f) = 0"
  by (induction "is" arbitrary: f) (auto simp: count_at_mutate split: option.splits)

lemma assigned_fold_clear:
  assumes "Fake_wf f" "\<And>k. count_at k f = 0"
  shows "assignedSlots (fold (\<lambda>i. mutate i (Slots_update (\<lambda>_. []))) is f) = assignedSlots f"
  using assms
proof (induction "is" arbitrary: f)
  case (Cons i "is")
  have "assignedSlots (mutate i (Slots_update (\<lambda>_. [])) f) = assignedSlots f"
    using Cons(2) Cons(3) [of i]
    by (cases "map_of (nodes f) i") (simp_all add: assigned_mutate Fake_wf_distinct count_at_Some)
  moreover have "Fake_wf (mutate i (Slots_update (\<lambda>_. [])) f)"
    using Cons(2) by (intro Fake_wf_mutate node_ok_Slots) auto
  moreover have "count_at k (mutate i (Slots_update (\<lambda>_. [])) f) = 0" for k
    using Cons(3) by (simp add: count_at_mutate split: option.splits)
  ultimately show ?case using Cons(1) by simp
qed simp

lemma assigned_Rebalance:
  assumes "Fake_wf f" "primaries (WeightZeroIDs opts) f \<noteq> []"
  shows "assignedSlots (Fake_Rebalance opts f) = TotalSlots"
proof -
  let ?ts = "primaries (WeightZeroIDs opts) f"
  let ?f1 = "clear_slots (\<lambda>_. True) f"
  let ?f2 = "fold (\<lambda>i. mutate i (Slots_update (\<lambda>_. []))) (WeightZeroIDs opts) ?f1"
  have wf1: "Fake_wf ?f1" using assms(1) by (rule Fake_wf_clear)
  have "assignedSlots ?f2 = 0"
    using assigned_fold_clear [OF wf1] by (simp add: assigned_clear_all)
  moreover have "assignedSlots (assign_split (int (length ?ts)) 0 ?ts ?f2) =
      assignedSlots ?f2 + bound (int (length ?ts)) (0 + int (length ?ts)) - bound (int (length ?ts)) 0"
    using assms wf1 by (intro assigned_assign_split Fake_wf_fold_clear)
      (auto simp: set_primaries distinct_primaries count_at_fold_clear)
  ultimately show ?thesis
    using assms(2) by (simp add: Fake_Rebalance_def Let_def bound_n)
qed

lemma map_of_assign_split_notin:
  "x \<notin> set ts \<Longrightarrow> map_of (nodes (assign_split k i ts f)) x = map_of (nodes f) x"
  by (induction k i ts f rule: assign_split.induct) simp_all

lemma map_of_assign_split_nth:
  assumes "distinct ts" "j < length ts"
  shows "map_of (nodes (assign_split k i ts f)) (ts ! j) =
    map_option (Slots_update (\<lambda>_. [\<lparr>Start = bound k (i + int j), End = bound k (i + int j + 1) - 1\<rparr>]))
      (map_of (nodes f) (ts ! j))"
  using assms
proof (induction k i ts f arbitrary: j rule: assign_split.induct)
  case (2 k i t ts f)
  show ?case
  proof (cases j)
    case 0
    with 2(2) show ?thesis by (simp add: map_of_assign_split_notin bound_def)
  next
    case (Suc j')
    have "ts ! j' \<noteq> t" using 2(2,3) Suc by (auto simp: in_set_conv_nth)
    with 2 Suc show ?thesis by (simp add: add.assoc)
  qed
qed simp

lemma Fake_wf_Reshard: "Fake_wf f \<Longrightarrow> 0 \<le> n \<Longrightarrow> Fake_wf (Fake_Reshard a b n f)"
proof -
  assume wf: "Fake_wf f" and n: "0 \<le> n"
  let ?f1 = "mutate b (\<lambda>nd. nd\<lparr>MasterID := [], Flags := [''master'']\<rparr>) f"
  have f1: "Fake_wf ?f1" using wf by (rule Fake_wf_mutate) (auto simp: node_ok_def)
  have split: "Fake_wf g \<Longrightarrow> \<forall>t \<in> set ts. is_primary_at t g \<Longrightarrow> Fake_wf (assign_split (int (length ts)) 0 ts g)"
    for ts and g :: "'a Fake_scheme"
    by (cases "ts = []") (auto intro: Fake_wf_assign_split)
  show ?thesis
  proof (cases "map_of (nodes f) b")
    case None
    with wf show ?thesis by (simp add: Fake_Reshard_def)
  next
    case (Some nb)
    have b1: "map_of (nodes ?f1) b = Some (nb\<lparr>MasterID := [], Flags := [''master'']\<rparr>)" using Some by simp
    show ?thesis
    proof (cases "a = []")
      case True
      define f2 where "f2 = (if count_at b ?f1 = 0
          then mutate b (Slots_update (\<lambda>_. [\<lparr>Start = 0, End = 0\<rparr>])) ?f1 else ?f1)"
      have wf2: "Fake_wf f2"
        using f1 b1 by (auto simp: f2_def range_count_def intro!: Fake_wf_mutate node_ok_Slots)
      let ?ow = "sort (map fst (filter (\<lambda>(i, nd). IsPrimary nd \<and> SlotCount nd > 0) (nodes f2)))"
      have prim: "\<forall>t \<in> set ?ow. is_primary_at t (clear_slots IsPrimary f2)"
        using Fake_wf_distinct [OF wf2] by (auto simp: is_primary_at_def)
      have "Fake_Reshard a b n f = assign_split (int (length ?ow)) 0 ?ow (clear_slots IsPrimary f2)"
        using Some True by (simp add: Fake_Reshard_def Let_def f2_def)
      then show ?thesis using split [OF Fake_wf_clear [OF wf2] prim] by simp
    next
      case False
      show ?thesis
      proof (cases "map_of (nodes ?f1) a")
        case None
        with Some False f1 show ?thesis by (simp add: Fake_Reshard_def Let_def split: if_splits)
      next
        case Some': (Some na)
        define m where "m = (if SlotCount na < n then SlotCount na else n)"
        let ?f2 = "mutate a (Slots_update (\<lambda>_. countToRanges (SlotCount na - m))) ?f1"
        have "MasterID na = [] \<or> countToRanges (SlotCount na - m) = []"
          using Fake_wf_node [OF f1 Some'] n by (auto simp: node_ok_def m_def SlotCount_eq countToRanges_def)
        then have wf2: "Fake_wf ?f2"
          using f1 Some' range_count_countToRanges by (intro Fake_wf_set_slots) auto
        moreover have "map_of (nodes ?f2) b = Some nd \<Longrightarrow>
            MasterID nd = [] \<or> countToRanges (count_at b ?f2 + m) = []" for nd
          using b1 by (auto split: if_splits)
        ultimately have "Fake_wf (mutate b (Slots_update (\<lambda>_. countToRanges (count_at b ?f2 + m))) ?f2)"
          by (rule Fake_wf_set_slots) (assumption | rule range_count_countToRanges)+
        moreover have "Fake_Reshard a b n f =
            mutate b (Slots_update (\<lambda>_. countToRanges (count_at b ?f2 + m))) ?f2"
          using Some Some' False unfolding Fake_Reshard_def Let_def count_at_Some [OF Some'] m_def
          by (simp del: map_of_mutate)
        ultimately show ?thesis by simp
      qed
    qed
  qed
qed

lemma Failover_effect:
  assumes r: "map_of (nodes f) (epHost ep) = Some r" and m: "map_of (nodes f) (MasterID r) = Some m"
    and mid: "MasterID r \<noteq> []" and ne: "MasterID r \<noteq> epHost ep"
  shows "map_of (nodes (Fake_Failover ep f)) = (map_of (nodes f))
    (epHost ep \<mapsto> r\<lparr>Slots := Slots m, MasterID := [], Flags := [''master'']\<rparr>,
     MasterID r \<mapsto> m\<lparr>Slots := [], MasterID := ID r, Flags := [''slave'']\<rparr>)"
  using assms by (intro ext) (auto simp: Fake_Failover_def Let_def)

lemma Failover_noop:
  assumes "map_of (nodes f) (epHost ep) = None \<or>
    (\<exists>r. map_of (nodes f) (epHost ep) = Some r \<and> (MasterID r = [] \<or> map_of (nodes f) (MasterID r) = None))"
  shows "Fake_Failover ep f = f"
  using assms by (auto simp: Fake_Failover_def Let_def)

lemma Failover_self:
  assumes r: "map_of (nodes f) (epHost ep) = Some r" and mid: "MasterID r \<noteq> []" "MasterID r = epHost ep"
  shows "map_of (nodes (Fake_Failover ep f)) = (map_of (nodes f))
    (epHost ep \<mapsto> r\<lparr>Slots := [], MasterID := ID r, Flags := [''slave'']\<rparr>)"
  using assms by (intro ext) (auto simp: Fake_Failover_def Let_def)

lemma distinct_Failover: "distinct (map fst (nodes f)) \<Longrightarrow> distinct (map fst (nodes (Fake_Failover ep f)))"
  by (auto simp: Fake_Failover_def Let_def split: option.splits)

lemma Failover_cases:
  obtains (noop) "Fake_Failover ep f = f"
    | (self) r where "map_of (nodes f) (epHost ep) = Some r" "MasterID r \<noteq> []" "MasterID r = epHost ep"
    | (swap) r m where "map_of (nodes f) (epHost ep) = Some r" "map_of (nodes f) (MasterID r) = Some m"
        "MasterID r \<noteq> []" "MasterID r \<noteq> epHost ep"
proof (cases "map_of (nodes f) (epHost ep)")
  case None
  then show thesis using noop Failover_noop by blast
next
  case (Some r)
  then show thesis
    using noop self swap Failover_noop [of f ep] by (cases "map_of (nodes f) (MasterID r)") blast+
qed

lemma Fake_wf_Failover:
  assumes wf: "Fake_wf f"
  shows "Fake_wf (Fake_Failover ep f)"
proof (rule Failover_cases [of ep f])
  assume "Fake_Failover ep f = f"
  with wf show ?thesis by simp
next
  fix r assume self: "map_of (nodes f) (epHost ep) = Some r" "MasterID r \<noteq> []" "MasterID r = epHost ep"
  then show ?thesis
    using wf Fake_wf_node [OF wf self(1)] unfolding Fake_wf_def Failover_self [OF self]
    by (auto simp: distinct_Failover node_ok_def)
next
  fix r m assume swap: "map_of (nodes f) (epHost ep) = Some r" "map_of (nodes f) (MasterID r) = Some m"
    "MasterID r \<noteq> []" "MasterID r \<noteq> epHost ep"
  have "node_ok (epHost ep) r" "node_ok (MasterID r) m"
    using Fake_wf_node [OF wf] swap by blast+
  then show ?thesis
    using wf swap unfolding Fake_wf_def Failover_effect [OF swap]
    by (auto simp: distinct_Failover node_ok_def)
qed

lemma assigned_Failover:
  assumes wf: "Fake_wf f"
  shows "assignedSlots (Fake_Failover ep f) = assignedSlots f"
proof (rule Failover_cases [of ep f])
  assume "Fake_Failover ep f = f"
  then show ?thesis by simp
next
  fix r assume self: "map_of (nodes f) (epHost ep) = Some r" "MasterID r \<noteq> []" "MasterID r = epHost ep"
  then have "SlotCount r = 0" using Fake_wf_node [OF wf self(1)] by (simp add: node_ok_def SlotCount_eq)
  then show ?thesis
    using self Fake_wf_distinct [OF wf] by (simp add: Fake_Failover_def Let_def assigned_mutate)
next
  fix r m assume swap: "map_of (nodes f) (epHost ep) = Some r" "map_of (nodes f) (MasterID r) = Some m"
    "MasterID r \<noteq> []" "MasterID r \<noteq> epHost ep"
  then have "SlotCount r = 0" using Fake_wf_node [OF wf swap(1)] by (simp add: node_ok_def SlotCount_eq)
  then show ?thesis
    using swap Fake_wf_distinct [OF wf]
    by (simp add: Fake_Failover_def Let_def assigned_mutate SlotCount_eq)
qed

section \<open>Every run of the fake cluster\<close>

text \<open>
  The calls the interface offers, as one step relation. A caller never asks to move a negative
  number of slots and never adds a range of negative size.
\<close>

inductive fake_step :: "Fake \<Rightarrow> Fake \<Rightarrow> bool" where
  step_MyID: "fake_step f (snd (Fake_MyID ep f))"
| step_Meet: "fake_step f (Fake_Meet a b f)"
| step_AddSlots: "\<forall>r \<in> set rs. 0 \<le> range_count r \<Longrightarrow> fake_step f (Fake_AddSlots ep rs f)"
| step_Replicate: "fake_step f (Fake_Replicate ep i f)"
| step_Forget: "fake_step f (Fake_Forget ep i f)"
| step_Failover: "fake_step f (Fake_Failover ep f)"
| step_Rebalance: "fake_step f (Fake_Rebalance opts f)"
| step_Reshard: "0 \<le> n \<Longrightarrow> fake_step f (Fake_Reshard a b n f)"
| step_MoveSlots: "0 \<le> n \<Longrightarrow> fake_step f (snd (Fake_MoveSlots a b n f))"
| step_Fix: "fake_step f (Fake_Fix f)"
| step_RepairSlots: "fake_step f (snd (Fake_RepairSlots f))"

inductive fake_reachable :: "Fake \<Rightarrow> bool" where
  reach_new: "fake_reachable NewFake"
| reach_step: "fake_reachable f \<Longrightarrow> fake_step f g \<Longrightarrow> fake_reachable g"

lemma fake_step_wf: "fake_step f g \<Longrightarrow> Fake_wf f \<Longrightarrow> Fake_wf g"
  by (induction rule: fake_step.induct)
    (simp_all add: Fake_wf_MyID Fake_wf_Meet Fake_wf_AddSlots Fake_wf_Replicate Fake_wf_Forget
      Fake_wf_Failover Fake_wf_Rebalance Fake_wf_Reshard Fake_wf_MoveSlots Fake_Fix_def Fake_RepairSlots_def)

lemma reachable_wf: "fake_reachable f \<Longrightarrow> Fake_wf f"
  by (induction rule: fake_reachable.induct) (auto simp: Fake_wf_NewFake dest: fake_step_wf)

section \<open>Running the interface value\<close>

lemma run_effect [simp]: "run_state (effect g) w = (Inr (), g w)"
  by (simp add: effect_def)

lemma run_Fake_admin [simp]:
  "run_state (aState Fake_admin ep) f = (Inr (Fake_State f), f)"
  "run_state (aMyID Fake_admin ep) f = (Inr (fst (Fake_MyID ep f)), snd (Fake_MyID ep f))"
  "run_state (aMeet Fake_admin a b) f = (Inr (), Fake_Meet a b f)"
  "run_state (aAddSlots Fake_admin ep rs) f = (Inr (), Fake_AddSlots ep rs f)"
  "run_state (aReplicate Fake_admin ep i) f = (Inr (), Fake_Replicate ep i f)"
  "run_state (aForget Fake_admin ep i) f = (Inr (), Fake_Forget ep i f)"
  "run_state (aFailover Fake_admin ep) f = (Inr (), Fake_Failover ep f)"
  "run_state (aRebalance Fake_admin ep opts) f = (Inr (), Fake_Rebalance opts f)"
  "run_state (aReshard Fake_admin ep c d n) f = (Inr (), Fake_Reshard c d n f)"
  "run_state (aMoveSlots Fake_admin ep c d n) f = Fake_MoveSlots c d n f"
  "run_state (aFix Fake_admin ep) f = (Inr (), Fake_Fix f)"
  "run_state (aRepairSlots Fake_admin ep) f = Fake_RepairSlots f"
  by (simp_all add: Fake_admin_def split: prod.splits)

lemma MyID_wf: "Fake_wf f \<Longrightarrow> fst (Fake_MyID ep f) = epHost ep"
  using Fake_wf_node [OF Fake_wf_ensure, of f ep "epHost ep"]
  by (cases "map_of (nodes f) (epHost ep)") (auto simp: Fake_MyID_def Let_def index_or_def node_ok_def)

lemma snd_MyID [simp]: "snd (Fake_MyID ep f) = ensure ep f"
  by (simp add: Fake_MyID_def Let_def)

lemma set_Nodes_State: "Fake_wf f \<Longrightarrow> set (Nodes (Fake_State f)) = {n. \<exists>k. map_of (nodes f) k = Some n}"
  by (force simp: Fake_State_def Let_def map_of_eq_Some_iff [OF Fake_wf_distinct])

lemma distinct_ID_State: "Fake_wf f \<Longrightarrow> distinct (map ID (Nodes (Fake_State f)))"
proof -
  assume wf: "Fake_wf f"
  have "ID n = k" if "(k, n) \<in> set (nodes f)" for k n
    using Fake_wf_node [OF wf, of k n] that Fake_wf_distinct [OF wf] by (simp add: node_ok_def)
  then have eq: "map ID (map snd (nodes f)) = map fst (nodes f)" by (auto simp: comp_def)
  define ns where "ns = map snd (nodes f)"
  have "distinct (map ID ns)" unfolding ns_def eq using wf by (rule Fake_wf_distinct)
  then have "distinct (map ID (sort_key ID ns))" by (simp add: distinct_map)
  then show ?thesis by (simp add: Fake_State_def Let_def ns_def)
qed

section \<open>Properties\<close>

text \<open>
  Claim C22. Every state the fake cluster can reach through its methods is well formed: one entry
  per host, keyed by the node's ID and host, no negative slot range, and a node with a master
  carries the replica flag and owns no slots.
\<close>

theorem fake_reachable_wf: "fake_reachable f \<Longrightarrow> Fake_wf f"
  by (rule reachable_wf)

definition ep0 :: Endpoint where
  "ep0 = \<lparr>epHost = ''h0'', epPort = 6379, epPodName = ''p0'', epNamespace = ''ns''\<rparr>"

definition ep1 :: Endpoint where
  "ep1 = \<lparr>epHost = ''h1'', epPort = 6379, epPodName = ''p1'', epNamespace = ''ns''\<rparr>"

text \<open>Two primaries; the first owns every slot.\<close>

definition two_nodes :: Fake where
  "two_nodes = Fake_AddSlots ep0 (Distribute 1) (Fake_Meet ep0 ep1 NewFake)"

lemma two_nodes_reachable: "fake_reachable two_nodes"
  unfolding two_nodes_def
  by (rule reach_step [OF reach_step [OF reach_new step_Meet] step_AddSlots])
    (simp add: Distribute_def range_count_def TotalSlots_def)

theorem fake_reachable_wf_witness: "Fake_wf two_nodes \<and> assignedSlots two_nodes = TotalSlots"
proof -
  have "Fake_wf two_nodes" by (rule fake_reachable_wf [OF two_nodes_reachable])
  moreover have "assignedSlots two_nodes = TotalSlots" by code_simp
  ultimately show ?thesis by simp
qed

text \<open>
  Claim C20. \<open>MoveSlots\<close> on the fake cluster between two known nodes moves the smaller of the number
  asked for and the number the source owns, reports that number with no error, takes it from
  the source, gives it to the target (which becomes a primary), leaves every other node as it
  was, and keeps the total number of assigned slots.
\<close>

theorem Fake_MoveSlots_exact:
  assumes "Fake_wf f" and "map_of (nodes f) a = Some na" and "map_of (nodes f) b = Some nb"
    and "a \<noteq> b" and "0 \<le> n"
  shows "fst (Fake_MoveSlots a b n f) = (min n (count_at a f), None) \<and>
    count_at a (snd (Fake_MoveSlots a b n f)) = count_at a f - min n (count_at a f) \<and>
    count_at b (snd (Fake_MoveSlots a b n f)) = count_at b f + min n (count_at a f) \<and>
    is_primary_at b (snd (Fake_MoveSlots a b n f)) \<and>
    (\<forall>k. k \<noteq> a \<and> k \<noteq> b \<longrightarrow> map_of (nodes (snd (Fake_MoveSlots a b n f))) k = map_of (nodes f) k) \<and>
    assignedSlots (snd (Fake_MoveSlots a b n f)) = assignedSlots f"
proof -
  note eff = MoveSlots_effect [OF assms]
  have "0 \<le> SlotCount na" "0 \<le> SlotCount nb"
    using Fake_wf_node [OF assms(1)] assms(2,3) SlotCount_nonneg by blast+
  with eff assms(2-5) show ?thesis
    by (auto simp: count_at_def index_or_def is_primary_at_def IsPrimary_iff)
qed

theorem Fake_MoveSlots_exact_witness:
  "fst (Fake_MoveSlots ''h0'' ''h1'' 1024 two_nodes) = (1024, None) \<and>
   count_at ''h1'' (snd (Fake_MoveSlots ''h0'' ''h1'' 1024 two_nodes)) = 1024"
proof -
  have a: "map_of (nodes two_nodes) ''h0'' =
      Some ((new_node ep0)\<lparr>Slots := [\<lparr>Start = 0, End = 16383\<rparr>]\<rparr>)" by code_simp
  have b: "map_of (nodes two_nodes) ''h1'' = Some (new_node ep1)" by code_simp
  have counts: "count_at ''h0'' two_nodes = 16384" "count_at ''h1'' two_nodes = 0" by code_simp+
  show ?thesis
    using Fake_MoveSlots_exact [OF reachable_wf [OF two_nodes_reachable] a b, of 1024] counts by simp
qed

text \<open>
  Claim C23. \<open>Rebalance\<close> on the fake cluster, when some primary is not drained: the eligible primaries
  in the order of their IDs get exactly the ranges of \<open>Distribute\<close>, every other node ends with
  no slots, and the cluster reports full coverage.
\<close>

theorem Fake_Rebalance_split:
  assumes "Fake_wf f" and "primaries (WeightZeroIDs opts) f = ts" and "ts \<noteq> []"
  shows "(\<forall>j < length ts. \<exists>n. map_of (nodes (Fake_Rebalance opts f)) (ts ! j) = Some n \<and>
        Slots n = [Distribute (int (length ts)) ! j]) \<and>
    (\<forall>k. k \<notin> set ts \<longrightarrow> count_at k (Fake_Rebalance opts f) = 0) \<and>
    SlotsCovered (Fake_State (Fake_Rebalance opts f))"
proof -
  let ?f1 = "clear_slots (\<lambda>_. True) f"
  let ?f2 = "fold (\<lambda>i. mutate i (Slots_update (\<lambda>_. []))) (WeightZeroIDs opts) ?f1"
  have run: "Fake_Rebalance opts f = assign_split (int (length ts)) 0 ts ?f2"
    using assms(2,3) by (simp add: Fake_Rebalance_def Let_def)
  have dist: "distinct ts" and prim: "\<forall>t \<in> set ts. is_primary_at t ?f2"
    using assms(1,2) set_primaries distinct_primaries by auto
  have "\<exists>n. map_of (nodes (Fake_Rebalance opts f)) (ts ! j) = Some n \<and> Slots n = [Distribute (int (length ts)) ! j]"
    if j: "j < length ts" for j
  proof -
    obtain n where "map_of (nodes ?f2) (ts ! j) = Some n"
      using prim nth_mem [OF j] unfolding is_primary_at_def by blast
    with map_of_assign_split_nth [OF dist j, of "int (length ts)" 0 ?f2]
      nth_Distribute [of "int j" "int (length ts)"] j show ?thesis
      by (simp add: run)
  qed
  moreover have "count_at k (Fake_Rebalance opts f) = 0" if "k \<notin> set ts" for k
  proof -
    have "count_at k ?f2 = 0" using count_at_fold_clear [of k ?f1 "WeightZeroIDs opts"] by simp
    then show ?thesis using that by (simp add: run count_at_def map_of_assign_split_notin index_or_def)
  qed
  moreover have "SlotsCovered (Fake_State (Fake_Rebalance opts f))"
    using assigned_Rebalance [OF assms(1)] assms(2,3) by (simp add: Fake_State_def Let_def)
  ultimately show ?thesis by blast
qed

theorem Fake_Rebalance_split_witness:
  "SlotsCovered (Fake_State (Fake_Rebalance \<lparr>UseEmptyMasters = False, WeightZeroIDs = []\<rparr> two_nodes)) \<and>
   count_at ''h9'' (Fake_Rebalance \<lparr>UseEmptyMasters = False, WeightZeroIDs = []\<rparr> two_nodes) = 0"
proof -
  have ts: "primaries (WeightZeroIDs \<lparr>UseEmptyMasters = False, WeightZeroIDs = []\<rparr>) two_nodes = [''h0'', ''h1'']"
    by code_simp
  have ne: "''h9'' \<notin> set [''h0'', ''h1'']" "[''h0'', ''h1''] \<noteq> []" by simp_all
  show ?thesis
    using Fake_Rebalance_split [OF reachable_wf [OF two_nodes_reachable] ts ne(2)] ne(1) by blast
qed

text \<open>
  Claim C24. \<open>Failover\<close> of a replica whose master is known: the replica becomes a primary with
  its former master's slots, the former master becomes its replica and owns nothing, every
  other node is unchanged, and no slot is lost.
\<close>

theorem Fake_Failover_swap:
  assumes "Fake_wf f" and "map_of (nodes f) (epHost ep) = Some r" and "map_of (nodes f) (MasterID r) = Some m"
    and "MasterID r \<noteq> []" and "MasterID r \<noteq> epHost ep"
  shows "map_of (nodes (Fake_Failover ep f)) = (map_of (nodes f))
      (epHost ep \<mapsto> r\<lparr>Slots := Slots m, MasterID := [], Flags := [''master'']\<rparr>,
       MasterID r \<mapsto> m\<lparr>Slots := [], MasterID := epHost ep, Flags := [''slave'']\<rparr>) \<and>
    assignedSlots (Fake_Failover ep f) = assignedSlots f"
  using Failover_effect [OF assms(2-5)] assigned_Failover [OF assms(1)] Fake_wf_node [OF assms(1,2)]
  by (simp add: node_ok_def)

theorem Fake_Failover_swap_witness:
  "count_at ''h1'' (Fake_Failover ep1 (Fake_Replicate ep1 ''h0'' two_nodes)) = 16384 \<and>
   assignedSlots (Fake_Failover ep1 (Fake_Replicate ep1 ''h0'' two_nodes)) =
     assignedSlots (Fake_Replicate ep1 ''h0'' two_nodes)"
proof -
  let ?f = "Fake_Replicate ep1 ''h0'' two_nodes"
  have r: "map_of (nodes ?f) (epHost ep1) =
      Some ((new_node ep1)\<lparr>MasterID := ''h0'', Flags := [''slave'']\<rparr>)" by code_simp
  have m: "map_of (nodes ?f) (MasterID ((new_node ep1)\<lparr>MasterID := ''h0'', Flags := [''slave'']\<rparr>)) =
      Some ((new_node ep0)\<lparr>Slots := [\<lparr>Start = 0, End = 16383\<rparr>]\<rparr>)" by code_simp
  have wf: "Fake_wf ?f" using reachable_wf [OF two_nodes_reachable] by (rule Fake_wf_Replicate)
  have "assignedSlots (Fake_Failover ep1 ?f) = assignedSlots ?f"
    using Fake_Failover_swap [OF wf r m] by (simp add: ep1_def)
  moreover have "count_at ''h1'' (Fake_Failover ep1 ?f) = 16384" by code_simp
  ultimately show ?thesis by simp
qed

end
