(* ===== verification/Admin_Contract.thy ===== *)
theory Admin_Contract
  imports Cluster_Types
begin

text \<open>
  What the controller relies on in a \<^verbatim>\<open>ClusterAdmin\<close> (\<^verbatim>\<open>internal/cluster/admin.go\<close>, the comments on
  the interface's methods): the locale \<open>cluster_admin\<close>. The world is seen through a view, the
  map from node IDs to nodes that \<^verbatim>\<open>State\<close> reports. Calls may fail; the laws say what they
  leave as it was in either case.
\<close>

section \<open>Views\<close>

type_synonym node_view = "string \<rightharpoonup> NodeInfo"

definition node_map :: "ClusterState \<Rightarrow> node_view" where
  "node_map st = map_of (map (\<lambda>n. (ID n, n)) (Nodes st))"

definition owned :: "node_view \<Rightarrow> string \<Rightarrow> int" where
  "owned v k = (case v k of None \<Rightarrow> 0 | Some n \<Rightarrow> SlotCount n)"

definition total_owned :: "node_view \<Rightarrow> int" where
  "total_owned v = sum (owned v) (dom v)"

definition owners :: "node_view \<Rightarrow> string set" where
  "owners v = {k. 0 < owned v k}"

text \<open>
  Nodes are listed under their own non-empty ID, own no negative number of slots, and a node
  that owns slots is a primary.
\<close>

definition view_ok :: "node_view \<Rightarrow> bool" where
  "view_ok v \<longleftrightarrow> finite (dom v) \<and> v [] = None \<and>
     (\<forall>k n. v k = Some n \<longrightarrow> ID n = k \<and> 0 \<le> SlotCount n \<and> (0 < SlotCount n \<longrightarrow> IsPrimary n))"

text \<open>The known nodes are as they were; nodes that were not known own no slots.\<close>

definition grown :: "node_view \<Rightarrow> node_view \<Rightarrow> bool" where
  "grown v v' \<longleftrightarrow> v \<subseteq>\<^sub>m v' \<and> (\<forall>k n. v k = None \<longrightarrow> v' k = Some n \<longrightarrow> SlotCount n = 0)"

text \<open>An error value as opposed to a panic or an unfinished loop.\<close>

definition is_abort :: "error \<Rightarrow> bool" where
  "is_abort e = (case e of Panic _ \<Rightarrow> True | OutOfFuel \<Rightarrow> True | _ \<Rightarrow> False)"

lemma owned_Some [simp]: "v k = Some n \<Longrightarrow> owned v k = SlotCount n"
  by (simp add: owned_def)

lemma owned_None [simp]: "v k = None \<Longrightarrow> owned v k = 0"
  by (simp add: owned_def)

lemma owned_upd [simp]: "owned (v(k \<mapsto> n)) = (owned v)(k := SlotCount n)"
  by (auto simp: owned_def)

lemma owned_nonneg: "view_ok v \<Longrightarrow> 0 \<le> owned v k"
  by (auto simp: owned_def view_ok_def split: option.splits)

lemma owned_pos_known: "0 < owned v k \<Longrightarrow> k \<in> dom v"
  by (auto simp: owned_def split: option.splits)

lemma owners_dom: "owners v \<subseteq> dom v"
  using owned_pos_known by (auto simp: owners_def)

lemma finite_owners: "view_ok v \<Longrightarrow> finite (owners v)"
  using finite_subset [OF owners_dom] by (simp add: view_ok_def)

lemma in_owners: "k \<in> owners v \<longleftrightarrow> 0 < owned v k"
  by (simp add: owners_def)

lemma total_owned_superset:
  assumes "finite S" and "dom v \<subseteq> S"
  shows "total_owned v = sum (owned v) S"
  unfolding total_owned_def using assms by (intro sum.mono_neutral_left) (auto simp: owned_def split: option.splits)

lemma total_owned_cong:
  assumes "finite (dom v)" and "finite (dom v')" and "owned v' = owned v"
  shows "total_owned v' = total_owned v"
  using total_owned_superset [of "dom v \<union> dom v'" v] total_owned_superset [of "dom v \<union> dom v'" v'] assms
  by simp

lemma total_owned_owners: "view_ok v \<Longrightarrow> total_owned v = sum (owned v) (owners v)"
  unfolding total_owned_def
  using owners_dom owned_nonneg by (intro sum.mono_neutral_right) (auto simp: view_ok_def owners_def order.order_iff_strict)

lemma sum_transfer:
  fixes f :: "'a \<Rightarrow> int"
  assumes "finite S" and "a \<in> S" and "b \<in> S" and "a \<noteq> b"
  shows "sum (f(a := f a - m, b := f b + m)) S = sum f S"
proof -
  have "sum g S = g a + (g b + sum g (S - {a} - {b}))" for g :: "'a \<Rightarrow> int"
    using assms by (simp add: sum.remove [of S a] sum.remove [of "S - {a}" b])
  moreover have "sum (f(a := f a - m, b := f b + m)) (S - {a} - {b}) = sum f (S - {a} - {b})"
    by (rule sum.cong) auto
  ultimately show ?thesis using assms(4) by simp
qed

lemma grown_refl: "grown v v"
  by (simp add: grown_def)

lemma grown_owned: "grown v v' \<Longrightarrow> owned v' = owned v"
proof
  fix k assume g: "grown v v'"
  show "owned v' k = owned v k"
  proof (cases "v k")
    case None
    with g show ?thesis by (cases "v' k") (auto simp: grown_def)
  next
    case (Some n)
    then have "v' k = Some n" using g by (auto simp: grown_def map_le_def dom_def)
    with Some show ?thesis by simp
  qed
qed

lemma grown_trans: "grown u v \<Longrightarrow> grown v w \<Longrightarrow> grown u w"
  using map_le_trans [of u v w] grown_owned [of v w]
  unfolding grown_def
  by (metis (no_types, lifting) domI domIff map_le_def owned_Some owned_None)

lemma grown_dom: "grown v v' \<Longrightarrow> dom v \<subseteq> dom v'"
  by (auto simp: grown_def dest: map_le_implies_dom_le)

section \<open>The contract\<close>

locale cluster_admin =
  fixes A :: "'w ClusterAdmin"
    and inv :: "'w \<Rightarrow> bool"
    and view :: "'w \<Rightarrow> node_view"
    and ident :: "Endpoint \<Rightarrow> string"
    and up :: "Endpoint \<Rightarrow> bool"
  assumes inv_view: "inv w \<Longrightarrow> view_ok (view w)"
    and host: "inv w \<Longrightarrow> view w (ident ep) = Some n \<Longrightarrow> Host n = epHost ep"
    and State: "inv w \<Longrightarrow> run_state (aState A ep) w = (r, w') \<Longrightarrow>
      inv w' \<and> view w' = view w \<and>
      (case r of Inl e \<Rightarrow> \<not> is_abort e
       | Inr st \<Rightarrow> distinct (map ID (Nodes st)) \<and> node_map st = view w)"
    and MyID: "inv w \<Longrightarrow> ident ep \<noteq> [] \<Longrightarrow> run_state (aMyID A ep) w = (i, w') \<Longrightarrow>
      inv w' \<and> grown (view w) (view w') \<and>
      (case i of Inl e \<Rightarrow> \<not> up ep \<and> \<not> is_abort e | Inr k \<Rightarrow> up ep \<and> k = ident ep)"
    and Meet: "inv w \<Longrightarrow> ident a \<noteq> [] \<Longrightarrow> ident b \<noteq> [] \<Longrightarrow> run_state (aMeet A a b) w = (m, w') \<Longrightarrow>
      inv w' \<and> grown (view w) (view w') \<and>
      (case m of Inl e \<Rightarrow> \<not> is_abort e | Inr _ \<Rightarrow> ident b \<in> dom (view w'))"
    and Replicate: "inv w \<Longrightarrow> ident ep \<noteq> [] \<Longrightarrow> owned (view w) (ident ep) = 0 \<Longrightarrow>
      run_state (aReplicate A ep p) w = (m, w') \<Longrightarrow>
      inv w' \<and> owned (view w') = owned (view w) \<and> dom (view w) \<subseteq> dom (view w') \<and>
      (case m of Inl e \<Rightarrow> \<not> is_abort e | Inr _ \<Rightarrow> True)"
    and Forget: "inv w \<Longrightarrow> owned (view w) k = 0 \<Longrightarrow> run_state (aForget A ep k) w = (m, w') \<Longrightarrow>
      inv w' \<and> owned (view w') = owned (view w) \<and> (\<forall>x. x \<noteq> k \<longrightarrow> view w' x = view w x)"
    and MoveSlots: "inv w \<Longrightarrow> 0 \<le> num \<Longrightarrow> from \<noteq> to \<Longrightarrow> run_state (aMoveSlots A ep from to num) w = ((c, err), w') \<Longrightarrow>
      inv w' \<and> dom (view w') = dom (view w) \<and> 0 \<le> c \<and> c \<le> num \<and> c \<le> owned (view w) from \<and>
      (to \<notin> dom (view w) \<longrightarrow> c = 0) \<and>
      owned (view w') = (owned (view w))(from := owned (view w) from - c, to := owned (view w) to + c) \<and>
      (case err of Some e \<Rightarrow> \<not> is_abort e
       | None \<Rightarrow> from \<in> dom (view w) \<longrightarrow> to \<in> dom (view w) \<longrightarrow> c = min num (owned (view w) from))"
begin

lemma finite_view: "inv w \<Longrightarrow> finite (dom (view w))"
  using inv_view by (simp add: view_ok_def)

lemma total_same:
  "inv w \<Longrightarrow> inv w' \<Longrightarrow> owned (view w') = owned (view w) \<Longrightarrow> total_owned (view w') = total_owned (view w)"
  using total_owned_cong finite_view by blast

text \<open>No slot is lost or made by a move.\<close>

lemma MoveSlots_total:
  assumes "inv w" "0 \<le> n" "a \<noteq> b" "run_state (aMoveSlots A ep a b n) w = ((c, err), w')"
  shows "total_owned (view w') = total_owned (view w)"
proof -
  note law = MoveSlots [OF assms]
  show ?thesis
  proof (cases "c = 0")
    case True
    then have "owned (view w') = owned (view w)" using law by simp
    then show ?thesis using total_same assms(1) law by blast
  next
    case False
    then have "a \<in> dom (view w)" "b \<in> dom (view w)" using law owned_pos_known [of "view w" a] by auto
    then show ?thesis
      using law sum_transfer [OF finite_view [OF assms(1)], of a b "owned (view w)" c] assms(3)
      by (simp add: total_owned_def)
  qed
qed

end

end
