(* ===== verification/Fake_Contract.thy ===== *)
theory Fake_Contract
  imports Fake Admin_Contract
begin

text \<open>
  The in-memory cluster of \<open>Fake\<close> seen through the contract of \<open>Admin_Contract\<close>: its node map is
  the view, and the interpretation \<open>fake\<close> discharges every law on the model's own methods.
\<close>

section \<open>The in-memory cluster meets the admin contract\<close>

abbreviation Fake_view :: "'a Fake_scheme \<Rightarrow> node_view" where
  "Fake_view f \<equiv> map_of (nodes f)"

definition Fake_inv :: "'a Fake_scheme \<Rightarrow> bool" where
  "Fake_inv f \<longleftrightarrow> Fake_wf f \<and> Fake_view f [] = None"

lemma owned_Fake: "owned (Fake_view f) k = count_at k f"
  by (simp add: owned_def count_at_def index_or_def split: option.split)

lemma total_Fake: "Fake_wf f \<Longrightarrow> total_owned (Fake_view f) = assignedSlots f"
proof -
  assume "Fake_wf f"
  have "distinct (map fst m) \<Longrightarrow> sum (owned (map_of m)) (dom (map_of m)) = sum_vals SlotCount m" for m :: "(string \<times> NodeInfo) list"
  proof (induction m)
    case (Cons e m)
    obtain k n where e: "e = (k, n)" by fastforce
    have k: "k \<notin> dom (map_of m)" using Cons.prems by (simp add: e dom_map_of_conv_image_fst)
    have dom: "dom (map_of (e # m)) = insert k (dom (map_of m))" by (simp add: e)
    have "sum (owned (map_of (e # m))) (dom (map_of m)) = sum (owned (map_of m)) (dom (map_of m))"
      using k by (intro sum.cong) (auto simp: e owned_def)
    moreover have "owned (map_of (e # m)) k = SlotCount n" by (simp add: e)
    moreover have "sum (owned (map_of (e # m))) (insert k (dom (map_of m))) =
        owned (map_of (e # m)) k + sum (owned (map_of (e # m))) (dom (map_of m))"
      using k by (intro sum.insert) (simp_all add: finite_dom_map_of)
    ultimately show ?case
      unfolding dom using Cons by (simp add: e del: map_of.simps)
  qed simp
  with \<open>Fake_wf f\<close> show ?thesis by (simp add: total_owned_def assignedSlots_def Fake_wf_distinct)
qed

lemma Fake_inv_view: "Fake_inv f \<Longrightarrow> view_ok (Fake_view f)"
  unfolding view_ok_def Fake_inv_def
  using Fake_wf_node SlotCount_nonneg
  by (fastforce simp: finite_dom_map_of node_ok_def IsPrimary_iff SlotCount_eq)

lemma Fake_inv_ensure: "Fake_inv f \<Longrightarrow> epHost ep \<noteq> [] \<Longrightarrow> Fake_inv (ensure ep f)"
  by (simp add: Fake_inv_def Fake_wf_ensure)

lemma grown_ensure: "grown (Fake_view f) (Fake_view (ensure ep f))"
  by (auto simp: grown_def map_le_def)

lemma owned_mutate:
  "owned (Fake_view (mutate k g f)) =
     (case Fake_view f k of None \<Rightarrow> owned (Fake_view f) | Some n \<Rightarrow> (owned (Fake_view f))(k := SlotCount (g n)))"
  by (auto simp: owned_def fun_eq_iff split: option.splits)

lemma Fake_State_view:
  assumes "Fake_wf f"
  shows "node_map (Fake_State f) = Fake_view f"
proof
  fix k
  have "map_of (map (\<lambda>n. (ID n, n)) (Nodes (Fake_State f))) k = Some n \<longleftrightarrow> Fake_view f k = Some n" for n
  proof -
    have "distinct (map fst (map (\<lambda>n. (ID n, n)) (Nodes (Fake_State f))))"
      using distinct_ID_State [OF assms] by (simp add: comp_def)
    then show ?thesis
      using set_Nodes_State [OF assms] Fake_wf_node [OF assms]
      by (auto simp: map_of_eq_Some_iff node_ok_def image_iff)
  qed
  then show "node_map (Fake_State f) k = Fake_view f k"
    unfolding node_map_def by (metis not_Some_eq)
qed

lemma Fake_Replicate_owned:
  "owned (Fake_view f) (epHost ep) = 0 \<Longrightarrow> owned (Fake_view (Fake_Replicate ep p f)) = owned (Fake_view f)"
  by (auto simp: Fake_Replicate_def owned_def fun_eq_iff SlotCount_eq split: option.splits)

lemma Fake_inv_Replicate: "Fake_inv f \<Longrightarrow> epHost ep \<noteq> [] \<Longrightarrow> Fake_inv (Fake_Replicate ep p f)"
  by (simp add: Fake_inv_def Fake_wf_Replicate) (simp add: Fake_Replicate_def)

lemma Fake_MoveSlots_view:
  assumes "Fake_inv f" "0 \<le> n" "a \<noteq> b" "Fake_MoveSlots a b n f = ((c, err), f')"
  shows "Fake_inv f' \<and> dom (Fake_view f') = dom (Fake_view f) \<and> err = None \<and>
    c = (if a \<in> dom (Fake_view f) \<and> b \<in> dom (Fake_view f) then min n (owned (Fake_view f) a) else 0) \<and>
    owned (Fake_view f') = (owned (Fake_view f))(a := owned (Fake_view f) a - c, b := owned (Fake_view f) b + c)"
proof (cases "a \<in> dom (Fake_view f) \<and> b \<in> dom (Fake_view f)")
  case False
  then have "Fake_MoveSlots a b n f = ((0, None), f)" by (auto intro: MoveSlots_unknown)
  with assms False show ?thesis by auto
next
  case True
  then obtain na nb where known: "Fake_view f a = Some na" "Fake_view f b = Some nb" by blast
  have wf: "Fake_wf f" using assms(1) by (simp add: Fake_inv_def)
  have "0 \<le> SlotCount na" "0 \<le> SlotCount nb"
    using Fake_wf_node [OF wf] known SlotCount_nonneg by blast+
  moreover have "Fake_wf f'" using Fake_wf_MoveSlots [OF wf assms(2), of a b] assms(4) by simp
  moreover have view: "Fake_view f' = (Fake_view f)
      (a \<mapsto> na\<lparr>Slots := countToRanges (SlotCount na - min n (SlotCount na))\<rparr>,
       b \<mapsto> nb\<lparr>MasterID := [], Flags := [''master''], Slots := countToRanges (SlotCount nb + min n (SlotCount na))\<rparr>)"
    and c: "c = min n (SlotCount na)" "err = None"
    using MoveSlots_effect(1,2) [OF wf known assms(3,2)] assms(4) by simp_all
  moreover have "dom (Fake_view f') = dom (Fake_view f)" using known by (auto simp: view)
  moreover have "Fake_view f' [] = None" using assms(1) known by (auto simp: view Fake_inv_def)
  moreover have "owned (Fake_view f') = (owned (Fake_view f))(a := SlotCount na - c, b := SlotCount nb + c)"
    unfolding view c(1) using \<open>0 \<le> SlotCount na\<close> \<open>0 \<le> SlotCount nb\<close> assms(2) by simp
  ultimately show ?thesis
    using True known by (simp add: Fake_inv_def)
qed

interpretation fake: cluster_admin Fake_admin Fake_inv Fake_view epHost "\<lambda>_. True"
proof (unfold_locales, goal_cases)
  case (1 w)
  then show ?case by (rule Fake_inv_view)
next
  case (2 w ep n)
  then show ?case using Fake_wf_node [of w "epHost ep" n] by (simp add: Fake_inv_def node_ok_def)
next
  case (3 w ep r w')
  then have "Fake_wf w" by (simp add: Fake_inv_def)
  with 3 show ?case using distinct_ID_State Fake_State_view by auto
next
  case (4 w ep i w')
  then have "i = Inr (epHost ep)" "w' = ensure ep w"
    using MyID_wf [of w ep] by (auto simp: Fake_inv_def split: prod.splits)
  with 4 show ?case using grown_ensure Fake_inv_ensure by auto
next
  case (5 w a b m w')
  then have "w' = ensure b (ensure a w)" by (simp add: Fake_Meet_def)
  with 5 show ?case
    using grown_trans [OF grown_ensure [of w a] grown_ensure [of "ensure a w" b]] Fake_inv_ensure
    by (auto split: sum.splits)
next
  case (6 w ep p m w')
  then have w': "w' = Fake_Replicate ep p w" and m: "m = Inr ()" by simp_all
  have "dom (Fake_view w) \<subseteq> dom (Fake_view w')" by (auto simp: w' Fake_Replicate_def)
  with 6 w' m show ?case using Fake_Replicate_owned Fake_inv_Replicate by auto
next
  case (7 w k ep m w')
  then have w': "w' = Fake_Forget ep k w" by simp
  have "Fake_inv w'" using 7 by (simp add: w' Fake_inv_def Fake_wf_Forget) (simp add: Fake_Forget_def)
  moreover have "owned (Fake_view w') = owned (Fake_view w)"
    using 7 by (auto simp: w' Fake_Forget_def owned_def fun_eq_iff)
  ultimately show ?case by (simp add: w' Fake_Forget_def)
next
  case (8 w num a b ep c err w')
  then have "Fake_MoveSlots a b num w = ((c, err), w')" by simp
  from Fake_MoveSlots_view [OF 8(1-3) this] show ?case
    using 8 owned_nonneg [OF Fake_inv_view [OF 8(1)]] by (auto simp: min_def)
qed

end
