(* ===== verification/Kube_Types.thy ===== *)
theory Kube_Types
  imports Go_Ints Go_Strings
begin

text \<open>
  The data of the Kubernetes objects the operator builds and reads, restricted to the fields
  the source sets or reads. These are the plain structs of \<^verbatim>\<open>k8s.io/api\<close> and
  \<^verbatim>\<open>k8s.io/apimachinery\<close>; what the API server and the client library do with them is a
  parameter of the controller's model. Maps of labels and annotations are association lists.
\<close>

text \<open>An instant, as the distance from the zero time; \<open>IsZero\<close> of a nil pointer is true.\<close>

type_synonym Time = int

definition Time_IsZero :: "Time option \<Rightarrow> bool" where
  "Time_IsZero t = (case t of None \<Rightarrow> True | Some x \<Rightarrow> x = 0)"

text \<open>
  A \<^verbatim>\<open>resource.Quantity\<close>, through the answers of the two methods the source calls on it.
\<close>

record Quantity =
  IsZero :: bool
  Value :: int64

record OwnerReference =
  orUID :: string
  orController :: bool

record ObjectMeta =
  mName :: string
  mNamespace :: string
  mUID :: string
  mLabels :: "(string \<times> string) list"
  mAnnotations :: "(string \<times> string) list"
  mGeneration :: int64
  mCreationTimestamp :: Time
  mDeletionTimestamp :: "Time option"
  mFinalizers :: "string list"
  mOwnerReferences :: "OwnerReference list"

text \<open>\<^verbatim>\<open>metav1.ObjectMeta{Name: n, Namespace: ns}\<close>\<close>

definition object_meta :: "string \<Rightarrow> string \<Rightarrow> ObjectMeta" where
  "object_meta n ns = \<lparr>mName = n, mNamespace = ns, mUID = [], mLabels = [], mAnnotations = [],
     mGeneration = 0, mCreationTimestamp = 0, mDeletionTimestamp = None, mFinalizers = [],
     mOwnerReferences = []\<rparr>"

type_synonym NamespacedName = "string \<times> string"

record ConfigMap =
  cmMeta :: ObjectMeta
  cmData :: "(string \<times> string) list"

record ServicePort =
  spName :: string
  spPort :: int
  spTargetPort :: int

record Service =
  svcMeta :: ObjectMeta
  ClusterIP :: string
  PublishNotReadyAddresses :: bool
  svcSelector :: "(string \<times> string) list"
  svcPorts :: "ServicePort list"

record ResourceRequirements =
  Limits :: "(string \<times> Quantity) list"
  Requests :: "(string \<times> Quantity) list"

datatype EnvValue = EnvLiteral string | EnvFieldRef string

record PodAffinityTerm =
  Weight :: int
  TopologyKey :: string
  termSelector :: "(string \<times> string) list"

record Probe =
  probeCommand :: "string list"
  InitialDelaySeconds :: int
  PeriodSeconds :: int
  FailureThreshold :: int

record Container =
  cName :: string
  cImage :: string
  cCommand :: "string list"
  cResources :: ResourceRequirements
  cPorts :: "(string \<times> int) list"
  cEnv :: "(string \<times> EnvValue) list"
  cVolumeMounts :: "(string \<times> string) list"
  cReadinessProbe :: Probe

text \<open>A pod template; a volume is its name and the name of the ConfigMap it mounts.\<close>

record PodTemplate =
  tLabels :: "(string \<times> string) list"
  tAnnotations :: "(string \<times> string) list"
  tPodAntiAffinity :: "PodAffinityTerm list"
  tContainers :: "Container list"
  tVolumes :: "(string \<times> string) list"

record PersistentVolumeClaim =
  pvcMeta :: ObjectMeta
  pvcAccessModes :: "string list"
  pvcRequests :: "(string \<times> Quantity) list"
  pvcStorageClassName :: "string option"

record StatefulSetSpec =
  ServiceName :: string
  Replicas :: "int32 option"
  PodManagementPolicy :: string
  Selector :: "(string \<times> string) list option"
  Template :: PodTemplate
  VolumeClaimTemplates :: "PersistentVolumeClaim list"

record StatefulSet =
  stsMeta :: ObjectMeta
  stsSpec :: StatefulSetSpec
  stsReadyReplicas :: int32

definition zero_PodTemplate :: PodTemplate where
  "zero_PodTemplate = \<lparr>tLabels = [], tAnnotations = [], tPodAntiAffinity = [], tContainers = [], tVolumes = []\<rparr>"

definition zero_StatefulSetSpec :: StatefulSetSpec where
  "zero_StatefulSetSpec = \<lparr>ServiceName = [], Replicas = None, PodManagementPolicy = [], Selector = None,
     Template = zero_PodTemplate, VolumeClaimTemplates = []\<rparr>"

text \<open>A label selector of equalities matches a label map that has every pair.\<close>

definition labels_match :: "(string \<times> string) list \<Rightarrow> (string \<times> string) list \<Rightarrow> bool" where
  "labels_match sel ls = list_all (\<lambda>(k, v). map_of ls k = Some v) sel"

record Condition =
  condType :: string
  condStatus :: string
  condReason :: string
  condMessage :: string
  condObservedGeneration :: int64
  condLastTransitionTime :: Time

lemma object_meta_simps [simp]:
  "mName (object_meta n ns) = n" "mNamespace (object_meta n ns) = ns" "mLabels (object_meta n ns) = []"
  by (simp_all add: object_meta_def)

lemma labels_match_iff: "labels_match sel ls \<longleftrightarrow> (\<forall>(k, v) \<in> set sel. map_of ls k = Some v)"
  by (simp add: labels_match_def list_all_iff)

end
