(* ===== verification/Api_Types.thy ===== *)
theory Api_Types
  imports Kube_Types
begin

text \<open>
  \<^verbatim>\<open>api/v1alpha1/valkeycluster_types.go\<close>: the custom resource. String-typed enums stay
  strings, as in Go, where an object may hold any value (the empty string when the field is
  unset). \<open>spec_admitted\<close> is the validation that the \<^verbatim>\<open>+kubebuilder\<close> markers of the file declare
  and the API server enforces.
\<close>

record StorageSpec =
  Size :: Quantity
  StorageClassName :: string

record PersistenceSpec =
  Mode :: string
  AppendFsync :: string

definition PersistenceAOF :: string where "PersistenceAOF = ''AOF''"
definition PersistenceRDB :: string where "PersistenceRDB = ''RDB''"
definition PersistenceAOFAndRDB :: string where "PersistenceAOFAndRDB = ''AOFAndRDB''"
definition PersistenceNone :: string where "PersistenceNone = ''None''"

record HAPolicy =
  MinReplicasToWrite :: int32
  RequireFullCoverage :: "bool option"
  ClusterNodeTimeoutMillis :: int32

record PerformanceSpec =
  IOThreads :: int32
  MaxmemoryPolicy :: string

record ValkeyClusterSpec =
  Shards :: int32
  ReplicasPerShard :: int32
  Image :: string
  Storage :: StorageSpec
  Resources :: ResourceRequirements
  Persistence :: PersistenceSpec
  Performance :: PerformanceSpec
  HAPolicy :: HAPolicy

text \<open>The phases the controller sets, and the condition types.\<close>

definition PhaseProvisioning :: string where "PhaseProvisioning = ''Provisioning''"
definition PhaseForming :: string where "PhaseForming = ''Forming''"
definition PhaseReady :: string where "PhaseReady = ''Ready''"
definition PhaseResharding :: string where "PhaseResharding = ''Resharding''"
definition PhaseScalingReplicas :: string where "PhaseScalingReplicas = ''ScalingReplicas''"
definition PhaseDegraded :: string where "PhaseDegraded = ''Degraded''"

definition ConditionAvailable :: string where "ConditionAvailable = ''Available''"
definition ConditionProgressing :: string where "ConditionProgressing = ''Progressing''"
definition ConditionDegraded :: string where "ConditionDegraded = ''Degraded''"

record ShardStatus =
  ssIndex :: int32
  PrimaryPod :: string
  PrimaryNodeID :: string
  ssSlots :: string
  ReadyReplicas :: int32
  NodeIDs :: "string list"

record ValkeyClusterStatus =
  Phase :: string
  ObservedGeneration :: int64
  ReadyShards :: int32
  stShards :: "ShardStatus list"
  Conditions :: "Condition list"

record ValkeyCluster =
  Meta :: ObjectMeta
  Spec :: ValkeyClusterSpec
  Status :: ValkeyClusterStatus

abbreviation Name :: "ValkeyCluster \<Rightarrow> string" where
  "Name cr \<equiv> mName (Meta cr)"

abbreviation Namespace :: "ValkeyCluster \<Rightarrow> string" where
  "Namespace cr \<equiv> mNamespace (Meta cr)"

abbreviation Generation :: "ValkeyCluster \<Rightarrow> int64" where
  "Generation cr \<equiv> mGeneration (Meta cr)"

text \<open>\<^verbatim>\<open>int(cr.Spec.Shards)\<close> and \<^verbatim>\<open>int(cr.Spec.ReplicasPerShard)\<close>\<close>

definition nShards :: "ValkeyCluster \<Rightarrow> int" where
  "nShards cr = sint (Shards (Spec cr))"

definition nReplicas :: "ValkeyCluster \<Rightarrow> int" where
  "nReplicas cr = sint (ReplicasPerShard (Spec cr))"

section \<open>Admission\<close>

definition fsync_values :: "string list" where
  "fsync_values = [''always'', ''everysec'', ''no'']"

definition mode_values :: "string list" where
  "mode_values = [PersistenceAOF, PersistenceRDB, PersistenceAOFAndRDB, PersistenceNone]"

definition policy_values :: "string list" where
  "policy_values = [''noeviction'', ''allkeys-lru'', ''allkeys-lfu'', ''allkeys-random'', ''volatile-lru'',
     ''volatile-lfu'', ''volatile-random'', ''volatile-ttl'']"

text \<open>Optional fields may be unset, as they are in an object built without the defaults.\<close>

definition spec_admitted :: "ValkeyClusterSpec \<Rightarrow> bool" where
  "spec_admitted s \<longleftrightarrow>
     (sint (Shards s) = 1 \<or> sint (Shards s) \<ge> 3) \<and> sint (Shards s) \<le> 16 \<and>
     0 \<le> sint (ReplicasPerShard s) \<and> sint (ReplicasPerShard s) \<le> 5 \<and>
     (Mode (Persistence s) = [] \<or> Mode (Persistence s) \<in> set mode_values) \<and>
     (AppendFsync (Persistence s) = [] \<or> AppendFsync (Persistence s) \<in> set fsync_values) \<and>
     0 \<le> sint (MinReplicasToWrite (HAPolicy s)) \<and>
     (ClusterNodeTimeoutMillis (HAPolicy s) = 0 \<or> 1000 \<le> sint (ClusterNodeTimeoutMillis (HAPolicy s))) \<and>
     (IOThreads (Performance s) = 0 \<or> 1 \<le> sint (IOThreads (Performance s)) \<and> sint (IOThreads (Performance s)) \<le> 128) \<and>
     (MaxmemoryPolicy (Performance s) = [] \<or> MaxmemoryPolicy (Performance s) \<in> set policy_values)"

lemma admitted_shards: "spec_admitted (Spec cr) \<Longrightarrow> 1 \<le> nShards cr \<and> nShards cr \<le> 16"
  by (auto simp: spec_admitted_def nShards_def)

lemma admitted_replicas: "spec_admitted (Spec cr) \<Longrightarrow> 0 \<le> nReplicas cr \<and> nReplicas cr \<le> 5"
  by (auto simp: spec_admitted_def nReplicas_def)

lemma admitted_policy: "spec_admitted s \<Longrightarrow> MaxmemoryPolicy (Performance s) \<in> set ([] # policy_values)"
proof -
  assume "spec_admitted s"
  then have "MaxmemoryPolicy (Performance s) = [] \<or> MaxmemoryPolicy (Performance s) \<in> set policy_values"
    unfolding spec_admitted_def by (elim conjE)
  then show ?thesis by (simp only: list.set insert_iff)
qed

lemma admitted_fsync: "spec_admitted s \<Longrightarrow> AppendFsync (Persistence s) \<in> set ([] # fsync_values)"
proof -
  assume "spec_admitted s"
  then have "AppendFsync (Persistence s) = [] \<or> AppendFsync (Persistence s) \<in> set fsync_values"
    unfolding spec_admitted_def by (elim conjE)
  then show ?thesis by (simp only: list.set insert_iff)
qed

text \<open>A small cluster for concrete evaluations.\<close>

definition demo_cluster :: "int32 \<Rightarrow> int32 \<Rightarrow> ValkeyCluster" where
  "demo_cluster shards replicas =
     \<lparr>Meta = (object_meta ''demo'' ''ns'')\<lparr>mGeneration := 7\<rparr>,
      Spec =
        \<lparr>Shards = shards, ReplicasPerShard = replicas, Image = ''valkey/valkey:8'',
         Storage = \<lparr>Size = \<lparr>IsZero = False, Value = 1073741824\<rparr>, StorageClassName = []\<rparr>,
         Resources = \<lparr>Limits = [(''memory'', \<lparr>IsZero = False, Value = 1073741824\<rparr>)], Requests = []\<rparr>,
         Persistence = \<lparr>Mode = ''AOF'', AppendFsync = ''everysec''\<rparr>,
         Performance = \<lparr>IOThreads = 1, MaxmemoryPolicy = ''noeviction''\<rparr>,
         HAPolicy = \<lparr>MinReplicasToWrite = 0, RequireFullCoverage = Some True, ClusterNodeTimeoutMillis = 5000\<rparr>\<rparr>,
      Status = \<lparr>Phase = [], ObservedGeneration = 0, ReadyShards = 0, stShards = [], Conditions = []\<rparr>\<rparr>"

lemma demo_admitted:
  assumes "sint s = 1 \<or> 3 \<le> sint s" "sint s \<le> 16" "0 \<le> sint r" "sint r \<le> 5"
  shows "spec_admitted (Spec (demo_cluster s r))"
  using assms by (simp add: demo_cluster_def spec_admitted_def mode_values_def fsync_values_def
      policy_values_def PersistenceAOF_def)

lemma demo_counts [simp]:
  "nShards (demo_cluster s r) = sint s" "nReplicas (demo_cluster s r) = sint r"
  "Name (demo_cluster s r) = ''demo''" "Namespace (demo_cluster s r) = ''ns''"
  by (simp_all add: nShards_def nReplicas_def demo_cluster_def object_meta_def)

end
