(* ===== verification/Go_Sha256.thy ===== *)
theory Go_Sha256
  imports Go_Strings "HOL-Library.Word"
begin

text \<open>
  The parts of \<^verbatim>\<open>crypto/sha256\<close> and \<^verbatim>\<open>encoding/hex\<close> that \<^verbatim>\<open>configHash\<close> uses: \<open>Sum256\<close> of
  a byte string (FIPS 180-4) and \<open>EncodeToString\<close>. Bytes are 8-bit words.
\<close>

unbundle bit_operations_syntax

type_synonym u8 = "8 word"
type_synonym u32 = "32 word"

definition bytes :: "string \<Rightarrow> u8 list" where
  "bytes s = map (\<lambda>c. word_of_int (byte c)) s"

text \<open>
  The constants of the standard are the first 32 fraction bits of the square roots of the
  first 8 primes and of the cube roots of the first 64. \<open>int_root k b r x\<close> finds the largest \<open>r\<close>
  with \<open>r ^ k \<le> x\<close>, from the highest of \<open>b\<close> bits down.
\<close>

definition sha_primes :: "int list" where
  "sha_primes = filter (\<lambda>p. list_all (\<lambda>d. p mod d \<noteq> 0) [2..p - 1]) [2..311]"

primrec int_root :: "nat \<Rightarrow> nat \<Rightarrow> int \<Rightarrow> int \<Rightarrow> int" where
  "int_root k 0 r x = r"
| "int_root k (Suc b) r x = int_root k b (if (r + 2 ^ b) ^ k \<le> x then r + 2 ^ b else r) x"

definition root_fraction :: "nat \<Rightarrow> int \<Rightarrow> u32" where
  "root_fraction k p = word_of_int (int_root k 36 0 (p * 2 ^ (32 * k)))"

definition sha_k :: "u32 list" where
  "sha_k = map (root_fraction 3) sha_primes"

definition sha_init :: "u32 \<times> u32 \<times> u32 \<times> u32 \<times> u32 \<times> u32 \<times> u32 \<times> u32" where
  "sha_init = (root_fraction 2 2, root_fraction 2 3, root_fraction 2 5, root_fraction 2 7,
     root_fraction 2 11, root_fraction 2 13, root_fraction 2 17, root_fraction 2 19)"

definition rotr :: "nat \<Rightarrow> u32 \<Rightarrow> u32" where
  "rotr n x = drop_bit n x OR push_bit (32 - n) x"

definition big_sigma0 :: "u32 \<Rightarrow> u32" where
  "big_sigma0 x = rotr 2 x XOR rotr 13 x XOR rotr 22 x"

definition big_sigma1 :: "u32 \<Rightarrow> u32" where
  "big_sigma1 x = rotr 6 x XOR rotr 11 x XOR rotr 25 x"

definition sigma0 :: "u32 \<Rightarrow> u32" where
  "sigma0 x = rotr 7 x XOR rotr 18 x XOR drop_bit 3 x"

definition sigma1 :: "u32 \<Rightarrow> u32" where
  "sigma1 x = rotr 17 x XOR rotr 19 x XOR drop_bit 10 x"

definition sha_ch :: "u32 \<Rightarrow> u32 \<Rightarrow> u32 \<Rightarrow> u32" where
  "sha_ch x y z = (x AND y) XOR (NOT x AND z)"

definition sha_maj :: "u32 \<Rightarrow> u32 \<Rightarrow> u32 \<Rightarrow> u32" where
  "sha_maj x y z = (x AND y) XOR (x AND z) XOR (y AND z)"

text \<open>The message schedule, newest word first.\<close>

definition schedule :: "u32 list \<Rightarrow> u32 list" where
  "schedule ws =
     fold (\<lambda>_ v. (sigma1 (v ! 1) + v ! 6 + sigma0 (v ! 14) + v ! 15) # v) [16..<64] ws"

type_synonym sha_state = "u32 \<times> u32 \<times> u32 \<times> u32 \<times> u32 \<times> u32 \<times> u32 \<times> u32"

fun sha_round :: "u32 \<times> u32 \<Rightarrow> sha_state \<Rightarrow> sha_state" where
  "sha_round (k, w) (a, b, c, d, e, f, g, h) =
     (let t1 = h + big_sigma1 e + sha_ch e f g + k + w;
          t2 = big_sigma0 a + sha_maj a b c
      in (t1 + t2, a, b, c, d + t1, e, f, g))"

fun add_state :: "sha_state \<Rightarrow> sha_state \<Rightarrow> sha_state" where
  "add_state (a, b, c, d, e, f, g, h) (a', b', c', d', e', f', g', h') =
     (a + a', b + b', c + c', d + d', e + e', f + f', g + g', h + h')"

fun state_words :: "sha_state \<Rightarrow> u32 list" where
  "state_words (a, b, c, d, e, f, g, h) = [a, b, c, d, e, f, g, h]"

fun word_be :: "u8 list \<Rightarrow> u32" where
  "word_be (b0 # b1 # b2 # b3 # _) =
     push_bit 24 (ucast b0) OR push_bit 16 (ucast b1) OR push_bit 8 (ucast b2) OR ucast b3"
| "word_be _ = 0"

definition chunks :: "nat \<Rightarrow> nat \<Rightarrow> 'a list \<Rightarrow> 'a list list" where
  "chunks n k xs = map (\<lambda>i. take n (drop (n * i) xs)) [0..<k]"

definition compress :: "u8 list \<Rightarrow> sha_state \<Rightarrow> sha_state" where
  "compress block hs =
     (let ws = rev (schedule (rev (map word_be (chunks 4 16 block))))
      in add_state hs (fold sha_round (zip sha_k ws) hs))"

text \<open>Big-endian bytes of a number, and the padding of a message of \<open>n\<close> bytes.\<close>

definition be_bytes :: "nat \<Rightarrow> int \<Rightarrow> u8 list" where
  "be_bytes k x = map (\<lambda>i. word_of_int (x div 256 ^ i)) (rev [0..<k])"

definition padding :: "nat \<Rightarrow> u8 list" where
  "padding n = 0x80 # replicate ((119 - n mod 64) mod 64) 0 @ be_bytes 8 (8 * int n)"

definition Sum256 :: "u8 list \<Rightarrow> u8 list" where
  "Sum256 msg =
     (let padded = msg @ padding (length msg);
          hs = fold compress (chunks 64 (length padded div 64) padded) sha_init
      in concat (map (\<lambda>h. be_bytes 4 (uint h)) (state_words hs)))"

definition hex_digit :: "int \<Rightarrow> char" where
  "hex_digit d = ''0123456789abcdef'' ! nat d"

definition EncodeToString :: "u8 list \<Rightarrow> string" where
  "EncodeToString bs = concat (map (\<lambda>b. [hex_digit (uint b div 16), hex_digit (uint b mod 16)]) bs)"

lemma length_be_bytes [simp]: "length (be_bytes k x) = k"
  by (simp add: be_bytes_def)

text \<open>The padded message is a whole number of blocks.\<close>

lemma padded_blocks: "64 dvd length (msg @ padding (length msg))"
proof -
  define n m where "n = length msg" and "m = n mod 64"
  have "(n + (9 + (119 - m) mod 64)) mod 64 = (m + (9 + (119 - m) mod 64)) mod 64"
    unfolding m_def by (metis mod_add_left_eq)
  also have "\<dots> = 0"
  proof (cases "m \<le> 55")
    case True
    then have "119 - m = (55 - m) + 64" by simp
    moreover have "55 - m < (64::nat)" by simp
    ultimately have "(119 - m) mod 64 = 55 - m" by (metis mod_add_self2 mod_less)
    with True show ?thesis by simp
  next
    case False
    moreover have "m < 64" by (simp add: m_def)
    ultimately show ?thesis by simp
  qed
  finally have "64 dvd n + (9 + (119 - m) mod 64)" by (rule mod_0_imp_dvd)
  moreover have "length (msg @ padding (length msg)) = n + (9 + (119 - m) mod 64)"
    by (simp add: padding_def n_def m_def)
  ultimately show ?thesis by (simp only:)
qed

lemma length_Sum256: "length (Sum256 msg) = 32"
proof -
  have "length (concat (map (\<lambda>h. be_bytes 4 (uint h)) hs)) = 4 * length hs" for hs :: "u32 list"
    by (induction hs) simp_all
  moreover have "length (state_words s) = 8" for s
    by (cases s rule: state_words.cases) simp
  ultimately show ?thesis by (simp add: Sum256_def Let_def)
qed

lemma length_EncodeToString: "length (EncodeToString bs) = 2 * length bs"
  by (induction bs) (simp_all add: EncodeToString_def)

lemma hex_digit_set: "0 \<le> d \<Longrightarrow> d < 16 \<Longrightarrow> hex_digit d \<in> set ''0123456789abcdef''"
  unfolding hex_digit_def by (intro nth_mem) simp

lemma set_EncodeToString: "set (EncodeToString bs) \<subseteq> set ''0123456789abcdef''"
proof
  fix c assume "c \<in> set (EncodeToString bs)"
  then obtain b :: u8 where "c = hex_digit (uint b div 16) \<or> c = hex_digit (uint b mod 16)"
    by (auto simp: EncodeToString_def)
  moreover have "uint b < 256" using uint_lt2p [of b] by simp
  moreover have "0 \<le> uint b div 16" by (simp add: pos_imp_zdiv_nonneg_iff)
  ultimately show "c \<in> set ''0123456789abcdef''"
    by (elim disjE) (simp_all only:, auto simp only: intro!: hex_digit_set)
qed

end
