(* ===== verification/Builders.thy ===== *)
theory Builders
  imports Api_Types Go_Sha256
begin

text \<open>
  \<^verbatim>\<open>internal/resources/builders.go\<close>: names, labels, the rendered \<^verbatim>\<open>valkey.conf\<close>, and the
  Kubernetes objects of a cluster. The lemmas show that names are unique per pod, that the
  rendered configuration has exactly the intended directives, and that the labels, selectors
  and volumes of the built objects fit together.
\<close>

section \<open>Names and labels\<close>

definition clientPort :: int where "clientPort = 6379"
definition busPort :: int where "busPort = 16379"
definition dataVolume :: string where "dataVolume = ''data''"
definition confVolume :: string where "confVolume = ''conf''"
definition confMount :: string where "confMount = ''/conf''"
definition dataMount :: string where "dataMount = ''/data''"
definition labelName :: string where "labelName = ''app.kubernetes.io/name''"
definition labelInstance :: string where "labelInstance = ''app.kubernetes.io/instance''"
definition labelManagedBy :: string where "labelManagedBy = ''app.kubernetes.io/managed-by''"
definition LabelShard :: string where "LabelShard = ''valkey.razkevich.dev/shard''"
definition configHashAnnotation :: string where
  "configHashAnnotation = ''valkey.razkevich.dev/config-hash''"

definition HeadlessServiceName :: "ValkeyCluster \<Rightarrow> string" where
  "HeadlessServiceName cr = Name cr @ ''-nodes''"

definition ConfigMapName :: "ValkeyCluster \<Rightarrow> string" where
  "ConfigMapName cr = Name cr @ ''-config''"

definition StatefulSetName :: "ValkeyCluster \<Rightarrow> int \<Rightarrow> string" where
  "StatefulSetName cr shard = Name cr @ ''-shard-'' @ Itoa shard"

definition PodName :: "ValkeyCluster \<Rightarrow> int \<Rightarrow> int \<Rightarrow> string" where
  "PodName cr shard ordinal = StatefulSetName cr shard @ ''-'' @ Itoa ordinal"

definition PodFQDN :: "ValkeyCluster \<Rightarrow> int \<Rightarrow> int \<Rightarrow> string" where
  "PodFQDN cr shard ordinal =
     PodName cr shard ordinal @ ''.'' @ HeadlessServiceName cr @ ''.'' @ Namespace cr @ ''.svc''"

definition commonLabels :: "ValkeyCluster \<Rightarrow> (string \<times> string) list" where
  "commonLabels cr = [(labelName, ''valkeycluster''), (labelInstance, Name cr),
     (labelManagedBy, ''valkeycluster-operator'')]"

definition shardLabels :: "ValkeyCluster \<Rightarrow> int \<Rightarrow> (string \<times> string) list" where
  "shardLabels cr shard = AList.update LabelShard (Itoa shard) (commonLabels cr)"

section \<open>The rendered configuration\<close>

text \<open>\<^verbatim>\<open>fmt.Fprintf(&b, "key value\n")\<close>\<close>

definition conf_line :: "string \<Rightarrow> string \<Rightarrow> string" where
  "conf_line k v = k @ '' '' @ v @ [newline]"

definition RenderValkeyConf :: "ValkeyCluster \<Rightarrow> string" where
  "RenderValkeyConf cr =
     (let hp = HAPolicy (Spec cr);
          fullCoverage = (if RequireFullCoverage hp = Some False then ''no'' else ''yes'');
          timeout = (if ClusterNodeTimeoutMillis hp = 0 then 5000 else ClusterNodeTimeoutMillis hp);
          mode = (if Mode (Persistence (Spec cr)) = [] then PersistenceAOF else Mode (Persistence (Spec cr)));
          fsync = (if AppendFsync (Persistence (Spec cr)) = [] then ''everysec'' else AppendFsync (Persistence (Spec cr)));
          aofOn = (mode = PersistenceAOF \<or> mode = PersistenceAOFAndRDB);
          rdbOn = (mode = PersistenceRDB \<or> mode = PersistenceAOFAndRDB);
          ioThreads = (if sint (IOThreads (Performance (Spec cr))) < 1 then 1 else IOThreads (Performance (Spec cr)));
          policy = (if MaxmemoryPolicy (Performance (Spec cr)) = [] then ''noeviction'' else MaxmemoryPolicy (Performance (Spec cr)))
      in conf_line ''cluster-enabled'' ''yes'' @
         conf_line ''cluster-config-file'' (dataMount @ ''/nodes.conf'') @
         conf_line ''cluster-node-timeout'' (Itoa (sint timeout)) @
         conf_line ''cluster-require-full-coverage'' fullCoverage @
         conf_line ''cluster-preferred-endpoint-type'' ''hostname'' @
         conf_line ''cluster-port'' (Itoa busPort) @
         conf_line ''port'' (Itoa clientPort) @
         conf_line ''min-replicas-to-write'' (Itoa (sint (MinReplicasToWrite hp))) @
         conf_line ''dir'' dataMount @
         conf_line ''io-threads'' (Itoa (sint ioThreads)) @
         conf_line ''maxmemory-policy'' policy @
         (if aofOn then conf_line ''appendonly'' ''yes'' @ conf_line ''appendfsync'' fsync
          else conf_line ''appendonly'' ''no'') @
         (if rdbOn then conf_line ''save'' ''3600 1 300 100 60 10000'' else conf_line ''save'' ''\"\"'') @
         (case map_of (Limits (Resources (Spec cr))) ''memory'' of
            Some lim \<Rightarrow>
              if \<not> IsZero lim then conf_line ''maxmemory'' (Itoa (sint (div64 (Value lim * 70) 100))) else []
          | None \<Rightarrow> []))"

definition configHash :: "ValkeyCluster \<Rightarrow> string" where
  "configHash cr = EncodeToString (take 8 (Sum256 (bytes (RenderValkeyConf cr))))"

section \<open>Objects\<close>

definition mkHeadlessService :: "ValkeyCluster \<Rightarrow> Service" where
  "mkHeadlessService cr =
     \<lparr>svcMeta = (object_meta (HeadlessServiceName cr) (Namespace cr))\<lparr>mLabels := commonLabels cr\<rparr>,
      ClusterIP = ''None'',
      PublishNotReadyAddresses = True,
      svcSelector = [(labelInstance, Name cr)],
      svcPorts = [\<lparr>spName = ''client'', spPort = clientPort, spTargetPort = clientPort\<rparr>,
                  \<lparr>spName = ''cluster-bus'', spPort = busPort, spTargetPort = busPort\<rparr>]\<rparr>"

definition mkConfigMap :: "ValkeyCluster \<Rightarrow> ConfigMap" where
  "mkConfigMap cr =
     \<lparr>cmMeta = (object_meta (ConfigMapName cr) (Namespace cr))\<lparr>mLabels := commonLabels cr\<rparr>,
      cmData = [(''valkey.conf'', RenderValkeyConf cr)]\<rparr>"

definition startupScript :: string where
  "startupScript =
     Join [newline]
       [''set -eu'',
        ''FQDN=\"${POD_NAME}.${SVC_NAME}.${POD_NAMESPACE}.svc\"'',
        ''cp '' @ confMount @ ''/valkey.conf '' @ dataMount @ ''/valkey.conf'',
        ''{'',
        ''  echo \"cluster-announce-hostname ${FQDN}\"'',
        ''  echo \"cluster-announce-ip ${POD_IP}\"'',
        ''  echo \"cluster-announce-port '' @ Itoa clientPort @ ''\"'',
        ''  echo \"cluster-announce-bus-port '' @ Itoa busPort @ ''\"'',
        ''} >> '' @ dataMount @ ''/valkey.conf'',
        ''exec valkey-server '' @ dataMount @ ''/valkey.conf'']"

text \<open>\<^verbatim>\<open>int32(1 + cr.Spec.ReplicasPerShard)\<close>: the sum is taken at 32 bits.\<close>

definition wantReplicas :: "ValkeyCluster \<Rightarrow> int32" where
  "wantReplicas cr = 1 + ReplicasPerShard (Spec cr)"

definition valkey_container :: "ValkeyCluster \<Rightarrow> Container" where
  "valkey_container cr =
     \<lparr>cName = ''valkey'',
      cImage = Image (Spec cr),
      cCommand = [''sh'', ''-c'', startupScript],
      cResources = Resources (Spec cr),
      cPorts = [(''client'', clientPort), (''cluster-bus'', busPort)],
      cEnv = [(''POD_NAME'', EnvFieldRef ''metadata.name''),
              (''POD_NAMESPACE'', EnvFieldRef ''metadata.namespace''),
              (''POD_IP'', EnvFieldRef ''status.podIP''),
              (''SVC_NAME'', EnvLiteral (HeadlessServiceName cr))],
      cVolumeMounts = [(dataVolume, dataMount), (confVolume, confMount)],
      cReadinessProbe = \<lparr>probeCommand = [''valkey-cli'', ''-p'', Itoa clientPort, ''ping''],
        InitialDelaySeconds = 5, PeriodSeconds = 5, FailureThreshold = 5\<rparr>\<rparr>"

definition mkStatefulSet :: "ValkeyCluster \<Rightarrow> int \<Rightarrow> StatefulSet" where
  "mkStatefulSet cr shard =
     (let labels = shardLabels cr shard;
          vct = \<lparr>pvcMeta = object_meta dataVolume [],
                 pvcAccessModes = [''ReadWriteOnce''],
                 pvcRequests = [(''storage'', Size (Storage (Spec cr)))],
                 pvcStorageClassName = None\<rparr>;
          vct' = (if StorageClassName (Storage (Spec cr)) \<noteq> []
                  then vct\<lparr>pvcStorageClassName := Some (StorageClassName (Storage (Spec cr)))\<rparr> else vct)
      in \<lparr>stsMeta = (object_meta (StatefulSetName cr shard) (Namespace cr))\<lparr>mLabels := labels\<rparr>,
          stsSpec =
            \<lparr>ServiceName = HeadlessServiceName cr,
             Replicas = Some (wantReplicas cr),
             PodManagementPolicy = ''Parallel'',
             Selector = Some labels,
             Template =
               \<lparr>tLabels = labels,
                tAnnotations = [(configHashAnnotation, configHash cr)],
                tPodAntiAffinity =
                  [\<lparr>Weight = 100, TopologyKey = ''kubernetes.io/hostname'',
                    termSelector = [(LabelShard, Itoa shard), (labelInstance, Name cr)]\<rparr>],
                tContainers = [valkey_container cr],
                tVolumes = [(confVolume, ConfigMapName cr)]\<rparr>,
             VolumeClaimTemplates = [vct']\<rparr>,
          stsReadyReplicas = 0\<rparr>)"

section \<open>Names are unique\<close>

lemma first_sep_inj:
  fixes c :: char
  assumes "c \<notin> set p" "c \<notin> set q" "p @ c # s = q @ c # t"
  shows "p = q \<and> s = t"
  using Cut_append_sep [OF assms(1), of s] Cut_append_sep [OF assms(2), of t] assms(3)
  by (metis prod.inject)

lemma last_sep_inj:
  fixes c :: char
  assumes "c \<notin> set a" "c \<notin> set b" "xs @ c # a = ys @ c # b"
  shows "xs = ys \<and> a = b"
proof -
  have "rev a @ c # rev xs = rev b @ c # rev ys"
    using arg_cong [OF assms(3), of rev] by simp
  then have "rev a = rev b \<and> rev xs = rev ys"
    using assms(1,2) by (intro first_sep_inj) simp_all
  then show ?thesis by simp
qed

lemma dash_Itoa: "0 \<le> n \<Longrightarrow> CHR ''-'' \<notin> set (Itoa n)"
  by (rule Itoa_notin) (simp_all add: nondigits)

lemma dot_Itoa: "0 \<le> n \<Longrightarrow> CHR ''.'' \<notin> set (Itoa n)"
  by (rule Itoa_notin) (simp_all add: nondigits)

lemma StatefulSetName_inj:
  assumes "0 \<le> i" "0 \<le> i'" "StatefulSetName cr i = StatefulSetName cr' i'"
  shows "Name cr = Name cr' \<and> i = i'"
proof -
  have "(Name cr @ ''-shard'') @ CHR ''-'' # Itoa i = (Name cr' @ ''-shard'') @ CHR ''-'' # Itoa i'"
    using assms(3) by (simp add: StatefulSetName_def)
  then have "Name cr @ ''-shard'' = Name cr' @ ''-shard'' \<and> Itoa i = Itoa i'"
    using assms(1,2) by (intro last_sep_inj [where c = "CHR ''-''"] dash_Itoa)
  then show ?thesis using assms(1,2) Itoa_inj by simp
qed

lemma PodName_inj:
  assumes "0 \<le> i" "0 \<le> i'" "0 \<le> j" "0 \<le> j'" "PodName cr i j = PodName cr' i' j'"
  shows "Name cr = Name cr' \<and> i = i' \<and> j = j'"
proof -
  have "StatefulSetName cr i = StatefulSetName cr' i' \<and> Itoa j = Itoa j'"
    using assms(3-5) by (intro last_sep_inj [where c = "CHR ''-''"] dash_Itoa) (simp_all add: PodName_def)
  then show ?thesis using assms StatefulSetName_inj Itoa_inj by blast
qed

lemma dot_PodName:
  "CHR ''.'' \<notin> set (Name cr) \<Longrightarrow> 0 \<le> i \<Longrightarrow> 0 \<le> j \<Longrightarrow> CHR ''.'' \<notin> set (PodName cr i j)"
  by (simp add: PodName_def StatefulSetName_def dot_Itoa)

lemma PodFQDN_split: "PodFQDN cr i j = PodName cr i j @ CHR ''.'' # HeadlessServiceName cr @ ''.'' @ Namespace cr @ ''.svc''"
  by (simp add: PodFQDN_def)

lemma PodFQDN_PodName:
  assumes "CHR ''.'' \<notin> set (Name cr)" "CHR ''.'' \<notin> set (Name cr')" "0 \<le> i" "0 \<le> i'" "0 \<le> j" "0 \<le> j'"
    and "PodFQDN cr i j = PodFQDN cr' i' j'"
  shows "PodName cr i j = PodName cr' i' j' \<and> Namespace cr = Namespace cr'"
proof -
  have *: "PodName cr i j = PodName cr' i' j' \<and>
      HeadlessServiceName cr @ ''.'' @ Namespace cr @ ''.svc'' = HeadlessServiceName cr' @ ''.'' @ Namespace cr' @ ''.svc''"
    using assms by (intro first_sep_inj [where c = "CHR ''.''"] dot_PodName) (simp_all add: PodFQDN_split)
  then have "Namespace cr @ ''.svc'' = Namespace cr' @ ''.svc''"
    using assms(1,2) first_sep_inj [of "CHR ''.''" "HeadlessServiceName cr" "HeadlessServiceName cr'"
        "Namespace cr @ ''.svc''" "Namespace cr' @ ''.svc''"]
    by (simp add: HeadlessServiceName_def)
  with * show ?thesis by simp
qed

text \<open>Within one cluster no assumption on the name is needed.\<close>

lemma PodFQDN_inj_cluster:
  assumes "0 \<le> i" "0 \<le> i'" "0 \<le> j" "0 \<le> j'" "PodFQDN cr i j = PodFQDN cr i' j'"
  shows "i = i' \<and> j = j'"
  using assms PodName_inj [of i i' j j' cr cr] by (simp add: PodFQDN_def)

section \<open>The configuration, line by line\<close>

definition persistence_settings :: "string \<Rightarrow> string \<Rightarrow> (string \<times> string) list" where
  "persistence_settings mode fsync =
     (if mode \<in> {[], ''AOF'', ''AOFAndRDB''}
      then [(''appendonly'', ''yes''), (''appendfsync'', if fsync = [] then ''everysec'' else fsync)]
      else [(''appendonly'', ''no'')]) @
     [(''save'', if mode \<in> {''RDB'', ''AOFAndRDB''} then ''3600 1 300 100 60 10000'' else ''\"\"'')]"

fun memory_settings :: "Quantity option \<Rightarrow> (string \<times> string) list" where
  "memory_settings None = []"
| "memory_settings (Some lim) =
     (if IsZero lim then [] else [(''maxmemory'', Itoa (sint (div64 (Value lim * 70) 100)))])"

definition conf_settings :: "ValkeyCluster \<Rightarrow> (string \<times> string) list" where
  "conf_settings cr =
     (let hp = HAPolicy (Spec cr); policy = MaxmemoryPolicy (Performance (Spec cr))
      in [(''cluster-enabled'', ''yes''),
          (''cluster-config-file'', ''/data/nodes.conf''),
          (''cluster-node-timeout'', Itoa (if ClusterNodeTimeoutMillis hp = 0 then 5000 else sint (ClusterNodeTimeoutMillis hp))),
          (''cluster-require-full-coverage'', if RequireFullCoverage hp = Some False then ''no'' else ''yes''),
          (''cluster-preferred-endpoint-type'', ''hostname''),
          (''cluster-port'', ''16379''),
          (''port'', ''6379''),
          (''min-replicas-to-write'', Itoa (sint (MinReplicasToWrite hp))),
          (''dir'', ''/data''),
          (''io-threads'', Itoa (max 1 (sint (IOThreads (Performance (Spec cr)))))),
          (''maxmemory-policy'', if policy = [] then ''noeviction'' else policy)] @
         persistence_settings (Mode (Persistence (Spec cr))) (AppendFsync (Persistence (Spec cr))) @
         memory_settings (map_of (Limits (Resources (Spec cr))) ''memory''))"

lemma Itoa_ports: "Itoa busPort = ''16379''" "Itoa clientPort = ''6379''"
  by code_simp+

lemma sint_if_5000: "Itoa (sint (if (b::bool) then 5000 else x :: int32)) = Itoa (if b then 5000 else sint x)"
  by simp

abbreviation conf_text :: "(string \<times> string) list \<Rightarrow> string" where
  "conf_text kvs \<equiv> concat (map (\<lambda>(k, v). conf_line k v) kvs)"

lemma render_persistence:
  "conf_text (persistence_settings m f) =
     (let mode = (if m = [] then PersistenceAOF else m)
      in (if mode = PersistenceAOF \<or> mode = PersistenceAOFAndRDB
          then conf_line ''appendonly'' ''yes'' @ conf_line ''appendfsync'' (if f = [] then ''everysec'' else f)
          else conf_line ''appendonly'' ''no'') @
         (if mode = PersistenceRDB \<or> mode = PersistenceAOFAndRDB
          then conf_line ''save'' ''3600 1 300 100 60 10000'' else conf_line ''save'' ''\"\"''))"
  by (simp add: persistence_settings_def PersistenceAOF_def PersistenceRDB_def PersistenceAOFAndRDB_def)

lemma render_memory:
  "conf_text (memory_settings lim) =
     (case lim of
        Some q \<Rightarrow> if \<not> IsZero q then conf_line ''maxmemory'' (Itoa (sint (div64 (Value q * 70) 100))) else []
      | None \<Rightarrow> [])"
  by (cases lim) simp_all

lemma RenderValkeyConf_settings: "RenderValkeyConf cr = conf_text (conf_settings cr)"
proof -
  have threads: "sint (if sint x < 1 then 1 else x) = max 1 (sint x)" for x :: int32
    by simp
  show ?thesis
    unfolding RenderValkeyConf_def conf_settings_def Let_def map_append concat_append
      render_persistence render_memory threads sint_if_5000 Itoa_ports dataMount_def
    by (simp only: list.map concat.simps prod.case append_assoc append.simps)
qed

text \<open>How a server reads the file: one directive and its arguments per non-empty line.\<close>

definition conf_directives :: "string \<Rightarrow> (string \<times> string) list" where
  "conf_directives s =
     map (\<lambda>l. case Cut CHR '' '' l of (k, v, _) \<Rightarrow> (k, v)) (filter (\<lambda>l. l \<noteq> []) (Split newline s))"

definition conf_clean :: "string \<times> string \<Rightarrow> bool" where
  "conf_clean kv \<longleftrightarrow> newline \<notin> set (fst kv) \<and> CHR '' '' \<notin> set (fst kv) \<and> newline \<notin> set (snd kv)"

lemma conf_directives_lines:
  assumes "list_all conf_clean kvs"
  shows "conf_directives (conf_text kvs) = kvs"
  using assms
proof (induction kvs)
  case (Cons kv kvs)
  obtain k v where kv: "kv = (k, v)" by fastforce
  have ok: "newline \<notin> set (k @ '' '' @ v)" "CHR '' '' \<notin> set k"
    using Cons.prems by (auto simp: kv conf_clean_def)
  have "Split newline (conf_line k v @ t) = (k @ '' '' @ v) # Split newline t" for t
    using Split_append_sep [OF ok(1), of t] by (simp add: conf_line_def)
  then have "conf_directives (conf_line k v @ t) = (k, v) # conf_directives t" for t
    using Cut_append_sep [OF ok(2), of v] by (simp add: conf_directives_def)
  with Cons show ?case by (simp add: kv)
qed (simp add: conf_directives_def)

lemma newline_Itoa: "newline \<notin> set (Itoa n)"
proof (cases "n < 0")
  case True
  then show ?thesis using digits_all_digits [of "- n" newline] nondigits by (auto simp: Itoa_def)
next
  case False
  then show ?thesis using Itoa_notin [of n newline] nondigits by simp
qed

lemma conf_settings_clean:
  assumes "spec_admitted (Spec cr)"
  shows "list_all conf_clean (conf_settings cr)"
proof -
  have policy: "newline \<notin> set (MaxmemoryPolicy (Performance (Spec cr)))"
  proof -
    have "list_all (\<lambda>p. newline \<notin> set p) ([] # policy_values)" by (simp add: policy_values_def)
    with admitted_policy [OF assms] show ?thesis unfolding list_all_iff by blast
  qed
  have fsync: "newline \<notin> set (AppendFsync (Persistence (Spec cr)))"
  proof -
    have "list_all (\<lambda>p. newline \<notin> set p) ([] # fsync_values)" by (simp add: fsync_values_def)
    with admitted_fsync [OF assms] show ?thesis unfolding list_all_iff by blast
  qed
  have "list_all conf_clean (persistence_settings mode (AppendFsync (Persistence (Spec cr))))" for mode
    using fsync by (simp add: persistence_settings_def conf_clean_def)
  moreover have "list_all conf_clean (memory_settings lim)" for lim
    by (cases lim) (simp_all add: conf_clean_def newline_Itoa)
  ultimately show ?thesis
    using policy by (simp add: conf_settings_def Let_def newline_Itoa conf_clean_def)
qed

lemma fst_persistence: "fst ` set (persistence_settings mode fsync) \<subseteq> {''appendonly'', ''appendfsync'', ''save''}"
  by (simp add: persistence_settings_def)

lemma fst_memory: "fst ` set (memory_settings lim) \<subseteq> {''maxmemory''}"
  by (cases lim) simp_all

lemma disjoint_names: "A \<subseteq> B \<Longrightarrow> C \<subseteq> {x} \<Longrightarrow> x \<notin> B \<Longrightarrow> A \<inter> C = {}"
  by blast

lemma distinct_conf_settings: "distinct (map fst (conf_settings cr))"
proof -
  have "distinct (map fst (persistence_settings mode fsync))" for mode fsync
    by (simp add: persistence_settings_def)
  moreover have "distinct (map fst (memory_settings lim))" for lim
    by (cases lim) simp_all
  moreover have "x \<notin> fst ` set (persistence_settings mode fsync)" if "x \<notin> {''appendonly'', ''appendfsync'', ''save''}" for x mode fsync
    using fst_persistence that by blast
  moreover have "x \<notin> fst ` set (memory_settings lim)" if "x \<noteq> ''maxmemory''" for x lim
    using fst_memory that by blast
  moreover have "fst ` set (persistence_settings mode fsync) \<inter> fst ` set (memory_settings lim) = {}" for mode fsync lim
    by (rule disjoint_names [OF fst_persistence fst_memory]) simp
  ultimately show ?thesis by (simp add: conf_settings_def Let_def)
qed

section \<open>The objects fit together\<close>

lemma label_keys_distinct:
  "labelName \<noteq> labelInstance" "labelName \<noteq> labelManagedBy" "labelInstance \<noteq> labelManagedBy"
  "LabelShard \<noteq> labelName" "LabelShard \<noteq> labelInstance" "LabelShard \<noteq> labelManagedBy"
  by (simp_all add: labelName_def labelInstance_def labelManagedBy_def LabelShard_def)

lemma map_of_shardLabels:
  "map_of (shardLabels cr i) LabelShard = Some (Itoa i)"
  "map_of (shardLabels cr i) labelInstance = Some (Name cr)"
  by (simp_all add: shardLabels_def commonLabels_def label_keys_distinct label_keys_distinct [symmetric])

lemma mkStatefulSet_simps [simp]:
  "mName (stsMeta (mkStatefulSet cr i)) = StatefulSetName cr i"
  "mNamespace (stsMeta (mkStatefulSet cr i)) = Namespace cr"
  "mLabels (stsMeta (mkStatefulSet cr i)) = shardLabels cr i"
  "ServiceName (stsSpec (mkStatefulSet cr i)) = HeadlessServiceName cr"
  "Replicas (stsSpec (mkStatefulSet cr i)) = Some (wantReplicas cr)"
  "Selector (stsSpec (mkStatefulSet cr i)) = Some (shardLabels cr i)"
  "tLabels (Template (stsSpec (mkStatefulSet cr i))) = shardLabels cr i"
  "tAnnotations (Template (stsSpec (mkStatefulSet cr i))) = [(configHashAnnotation, configHash cr)]"
  "tContainers (Template (stsSpec (mkStatefulSet cr i))) = [valkey_container cr]"
  "tVolumes (Template (stsSpec (mkStatefulSet cr i))) = [(confVolume, ConfigMapName cr)]"
  by (simp_all add: mkStatefulSet_def Let_def)

lemma wantReplicas_exact: "nReplicas cr < 2 ^ 31 - 1 \<Longrightarrow> - (2 ^ 31) \<le> nReplicas cr \<Longrightarrow> sint (wantReplicas cr) = 1 + nReplicas cr"
  unfolding wantReplicas_def nReplicas_def
  using sint_add32 [of 1 "ReplicasPerShard (Spec cr)"] by (simp add: fits32_def)

lemma length_configHash: "length (configHash cr) = 16"
  by (simp add: configHash_def length_EncodeToString length_Sum256)

section \<open>Properties\<close>

text \<open>
  Claim C32. Two pods with the same DNS name are the same pod: the name determines the cluster's
  name and namespace, the shard and the ordinal. (Custom resource names are DNS labels here,
  so they have no dot.)
\<close>

theorem PodFQDN_unique:
  assumes "CHR ''.'' \<notin> set (Name cr)" and "CHR ''.'' \<notin> set (Name cr')"
    and "0 \<le> i" and "0 \<le> i'" and "0 \<le> j" and "0 \<le> j'"
    and "PodFQDN cr i j = PodFQDN cr' i' j'"
  shows "Name cr = Name cr' \<and> Namespace cr = Namespace cr' \<and> i = i' \<and> j = j'"
  using PodFQDN_PodName [OF assms] PodName_inj [OF assms(3-6)] by blast

theorem PodFQDN_unique_witness:
  "CHR ''.'' \<notin> set (Name (demo_cluster 3 1)) \<and>
   PodFQDN (demo_cluster 3 1) 2 1 = PodFQDN (demo_cluster 4 0) 2 1 \<and>
   Name (demo_cluster 3 1) = Name (demo_cluster 4 0)"
proof -
  have same: "PodFQDN (demo_cluster 3 1) 2 1 = PodFQDN (demo_cluster 4 0) 2 1"
    by (simp add: PodFQDN_def PodName_def StatefulSetName_def HeadlessServiceName_def)
  show ?thesis
    using PodFQDN_unique [OF _ _ _ _ _ _ same] same by simp
qed

text \<open>
  Claim C29. For an admitted spec the rendered \<^verbatim>\<open>valkey.conf\<close> has exactly the directives of
  \<open>conf_settings\<close>, each once: nothing in the spec can add a line, and the persistence mode,
  timeout, coverage, thread and eviction settings have the documented values and defaults.
\<close>

theorem RenderValkeyConf_exact:
  assumes "spec_admitted (Spec cr)"
  shows "conf_directives (RenderValkeyConf cr) = conf_settings cr \<and> distinct (map fst (conf_settings cr))"
  using conf_directives_lines [OF conf_settings_clean [OF assms]] distinct_conf_settings [of cr]
  unfolding RenderValkeyConf_settings by (rule conjI)

theorem RenderValkeyConf_exact_witness:
  "spec_admitted (Spec (demo_cluster 3 1)) \<and>
   map_of (conf_directives (RenderValkeyConf (demo_cluster 3 1))) ''maxmemory'' = Some ''751619276'' \<and>
   map_of (conf_directives (RenderValkeyConf (demo_cluster 3 1))) ''appendonly'' = Some ''yes''"
proof -
  have ok: "spec_admitted (Spec (demo_cluster 3 1))" by (rule demo_admitted) simp_all
  have "Itoa 751619276 = ''751619276''" by code_simp
  then have "map_of (conf_settings (demo_cluster 3 1)) ''maxmemory'' = Some ''751619276''"
    by (simp add: conf_settings_def persistence_settings_def demo_cluster_def Let_def div64_def sdiv_nonneg)
  moreover have "map_of (conf_settings (demo_cluster 3 1)) ''appendonly'' = Some ''yes''"
    by (simp add: conf_settings_def persistence_settings_def demo_cluster_def Let_def)
  ultimately show ?thesis
    using RenderValkeyConf_exact [OF ok] ok by simp
qed



text \<open>
  Claim C30. The objects built for shard \<open>i\<close> of an admitted cluster fit together: the StatefulSet's
  selector and the headless Service's selector match the pod labels, the anti-affinity term
  selects the shard's own pods, the claim template and the config volume are the ones the
  container mounts, the volume is the rendered ConfigMap, the pods get the Service's domain,
  the pod count is one primary plus the replicas with no 32-bit wrap, the shard label is read
  back as \<open>i\<close>, and the config hash is 16 hexadecimal digits.
\<close>

theorem StatefulSet_wired:
  assumes "spec_admitted (Spec cr)" and "0 \<le> i" and "i < 2 ^ 63"
  shows "(\<forall>sel. Selector (stsSpec (mkStatefulSet cr i)) = Some sel \<longrightarrow>
            sel = tLabels (Template (stsSpec (mkStatefulSet cr i)))) \<and>
    labels_match (svcSelector (mkHeadlessService cr)) (tLabels (Template (stsSpec (mkStatefulSet cr i)))) \<and>
    list_all (\<lambda>t. labels_match (termSelector t) (tLabels (Template (stsSpec (mkStatefulSet cr i)))))
      (tPodAntiAffinity (Template (stsSpec (mkStatefulSet cr i)))) \<and>
    map fst (cVolumeMounts (valkey_container cr)) =
      map (mName \<circ> pvcMeta) (VolumeClaimTemplates (stsSpec (mkStatefulSet cr i))) @
      map fst (tVolumes (Template (stsSpec (mkStatefulSet cr i)))) \<and>
    map snd (tVolumes (Template (stsSpec (mkStatefulSet cr i)))) = [mName (cmMeta (mkConfigMap cr))] \<and>
    ServiceName (stsSpec (mkStatefulSet cr i)) = mName (svcMeta (mkHeadlessService cr)) \<and>
    map_option sint (Replicas (stsSpec (mkStatefulSet cr i))) = Some (1 + nReplicas cr) \<and>
    map_option Atoi (map_of (mLabels (stsMeta (mkStatefulSet cr i))) LabelShard) = Some (i, None) \<and>
    list_all (\<lambda>(k, v). length v = 16 \<and> set v \<subseteq> set ''0123456789abcdef'')
      (tAnnotations (Template (stsSpec (mkStatefulSet cr i))))"
proof -
  have "sint (wantReplicas cr) = 1 + nReplicas cr"
    using admitted_replicas [OF assms(1)] by (intro wantReplicas_exact) simp_all
  moreover have "set (configHash cr) \<subseteq> set ''0123456789abcdef''"
    unfolding configHash_def by (rule set_EncodeToString)
  moreover have "map_option Atoi (map_of (shardLabels cr i) LabelShard) = Some (i, None)"
    using assms(2,3) Atoi_Itoa [of i] by (simp add: map_of_shardLabels)
  moreover have "tPodAntiAffinity (Template (stsSpec (mkStatefulSet cr i))) =
      [\<lparr>Weight = 100, TopologyKey = ''kubernetes.io/hostname'',
        termSelector = [(LabelShard, Itoa i), (labelInstance, Name cr)]\<rparr>]"
    by (simp add: mkStatefulSet_def Let_def)
  moreover have "map (mName \<circ> pvcMeta) (VolumeClaimTemplates (stsSpec (mkStatefulSet cr i))) = [dataVolume]"
    by (simp add: mkStatefulSet_def Let_def)
  ultimately show ?thesis
    by (simp add: labels_match_def map_of_shardLabels mkHeadlessService_def mkConfigMap_def
        valkey_container_def length_configHash del: set_simps)
qed

theorem StatefulSet_wired_witness:
  "spec_admitted (Spec (demo_cluster 3 1)) \<and>
   map_option sint (Replicas (stsSpec (mkStatefulSet (demo_cluster 3 1) 2))) = Some 2 \<and>
   map_option Atoi (map_of (mLabels (stsMeta (mkStatefulSet (demo_cluster 3 1) 2))) LabelShard) = Some (2, None)"
proof -
  have ok: "spec_admitted (Spec (demo_cluster 3 1))" by (rule demo_admitted) simp_all
  have b: "0 \<le> (2::int)" "(2::int) < 2 ^ 63" by simp_all
  have "map_option sint (Replicas (stsSpec (mkStatefulSet (demo_cluster 3 1) 2))) = Some (1 + nReplicas (demo_cluster 3 1)) \<and>
      map_option Atoi (map_of (mLabels (stsMeta (mkStatefulSet (demo_cluster 3 1) 2))) LabelShard) = Some (2, None)"
    using StatefulSet_wired [OF ok b] by blast
  moreover have "1 + nReplicas (demo_cluster 3 1) = 2" by simp
  ultimately show ?thesis using ok by metis
qed

end
