(* ===== verification/Kube_Client.thy ===== *)
theory Kube_Client
  imports Builders Admin_Contract
begin

text \<open>
  What the controller uses of \<^verbatim>\<open>controller-runtime\<close> and \<^verbatim>\<open>client-go\<close>: the API server's
  typed reads and writes, \<^verbatim>\<open>controllerutil\<close>, \<^verbatim>\<open>retry.RetryOnConflict\<close>, \<^verbatim>\<open>apierrors\<close> and the
  clock, as a record of functions over the world. That code is not part of the repository,
  so every function of the controller takes a value of this record, and what a property needs
  of it is a named hypothesis.

  \<^verbatim>\<open>Update\<close> writes the server's answer back into the object it is given, hence the result.
  \<^verbatim>\<open>CreateOrUpdate\<close> takes the object to look up and the function that mutates it.
\<close>

record 'w Client =
  GetVC :: "NamespacedName \<Rightarrow> ('w, ValkeyCluster) ioE"
  UpdateVC :: "ValkeyCluster \<Rightarrow> ('w, ValkeyCluster) ioE"
  StatusUpdate :: "ValkeyCluster \<Rightarrow> ('w, unit) ioE"
  GetSTS :: "NamespacedName \<Rightarrow> ('w, StatefulSet) ioE"
  ListSTS :: "string \<Rightarrow> (string \<times> string) list \<Rightarrow> ('w, StatefulSet list) ioE"
  DeleteSTS :: "StatefulSet \<Rightarrow> ('w, unit) ioE"
  ListPVC :: "string \<Rightarrow> (string \<times> string) list \<Rightarrow> ('w, PersistentVolumeClaim list) ioE"
  DeletePVC :: "PersistentVolumeClaim \<Rightarrow> ('w, unit) ioE"
  CreateOrUpdateCM :: "ConfigMap \<Rightarrow> (ConfigMap \<Rightarrow> error + ConfigMap) \<Rightarrow> ('w, unit) ioE"
  CreateOrUpdateSvc :: "Service \<Rightarrow> (Service \<Rightarrow> error + Service) \<Rightarrow> ('w, unit) ioE"
  CreateOrUpdateSTS :: "StatefulSet \<Rightarrow> (StatefulSet \<Rightarrow> error + StatefulSet) \<Rightarrow> ('w, unit) ioE"
  SetControllerReference :: "ValkeyCluster \<Rightarrow> ObjectMeta \<Rightarrow> error + ObjectMeta"
  RetryOnConflict :: "('w, unit) ioE \<Rightarrow> ('w, unit) ioE"
  IsNotFound :: "error \<Rightarrow> bool"
  IgnoreNotFound :: "error \<Rightarrow> error option"
  ContainsFinalizer :: "ValkeyCluster \<Rightarrow> string \<Rightarrow> bool"
  AddFinalizer :: "ValkeyCluster \<Rightarrow> string \<Rightarrow> ValkeyCluster"
  RemoveFinalizer :: "ValkeyCluster \<Rightarrow> string \<Rightarrow> ValkeyCluster"
  Now :: "('w, Time) io"

text \<open>
  \<^verbatim>\<open>ValkeyClusterReconciler\<close>. Go iterates over a map in an order the runtime picks anew each
  time; \<open>map_order\<close> is that choice, a permutation of the entries that may depend on the world.
\<close>

record 'w Reconciler =
  kube :: "'w Client"
  Admin :: "'w ClusterAdmin"
  map_order :: "(string \<times> NodeInfo) list \<Rightarrow> ('w, (string \<times> NodeInfo) list) io"

definition ignoreNotFound :: "'w Client \<Rightarrow> ('w, unit) ioE \<Rightarrow> ('w, unit) ioE" where
  "ignoreNotFound c m =
     State_Monad.bind m (\<lambda>res. case res of
       Inl e \<Rightarrow> if IsNotFound c e then retE () else failE e
     | Inr _ \<Rightarrow> retE ())"

section \<open>Endpoints\<close>

definition endpoint :: "ValkeyCluster \<Rightarrow> int \<Rightarrow> int \<Rightarrow> Endpoint" where
  "endpoint cr shard ordinal =
     \<lparr>epHost = PodFQDN cr shard ordinal, epPort = clientPort,
      epPodName = PodName cr shard ordinal, epNamespace = Namespace cr\<rparr>"

definition seed :: "ValkeyCluster \<Rightarrow> Endpoint" where
  "seed cr = endpoint cr 0 0"

definition allEndpoints :: "ValkeyCluster \<Rightarrow> Endpoint list" where
  "allEndpoints cr =
     concat (map (\<lambda>i. map (\<lambda>j. endpoint cr i j) [0..nReplicas cr]) [0..nShards cr - 1])"

section \<open>Ensuring the workload objects\<close>

definition ensureConfigMap :: "'w Reconciler \<Rightarrow> ValkeyCluster \<Rightarrow> ('w, unit) ioE" where
  "ensureConfigMap r cr =
     (let desired = mkConfigMap cr;
          cm = \<lparr>cmMeta = object_meta (mName (cmMeta desired)) (mNamespace (cmMeta desired)), cmData = []\<rparr>
      in CreateOrUpdateCM (kube r) cm
           (\<lambda>cm. map_sum id (\<lambda>m. cm\<lparr>cmMeta := m, cmData := cmData desired\<rparr>)
              (SetControllerReference (kube r) cr ((cmMeta cm)\<lparr>mLabels := mLabels (cmMeta desired)\<rparr>))))"

definition ensureHeadlessService :: "'w Reconciler \<Rightarrow> ValkeyCluster \<Rightarrow> ('w, unit) ioE" where
  "ensureHeadlessService r cr =
     (let desired = mkHeadlessService cr;
          svc = \<lparr>svcMeta = object_meta (mName (svcMeta desired)) (mNamespace (svcMeta desired)),
                 ClusterIP = [], PublishNotReadyAddresses = False, svcSelector = [], svcPorts = []\<rparr>
      in CreateOrUpdateSvc (kube r) svc
           (\<lambda>svc. map_sum id
              (\<lambda>m. svc\<lparr>svcMeta := m, ClusterIP := ''None'', PublishNotReadyAddresses := True,
                 svcSelector := svcSelector desired, svcPorts := svcPorts desired\<rparr>)
              (SetControllerReference (kube r) cr ((svcMeta svc)\<lparr>mLabels := mLabels (svcMeta desired)\<rparr>))))"

text \<open>The mutation of one StatefulSet: immutable fields only while it has not been created.\<close>

definition mutate_sts :: "'w Reconciler \<Rightarrow> ValkeyCluster \<Rightarrow> StatefulSet \<Rightarrow> StatefulSet \<Rightarrow> error + StatefulSet" where
  "mutate_sts r cr desired sts =
     (let d = stsSpec desired;
          spec0 = stsSpec sts;
          spec1 = (if mCreationTimestamp (stsMeta sts) = 0
                   then spec0\<lparr>Selector := Selector d, VolumeClaimTemplates := VolumeClaimTemplates d,
                          ServiceName := ServiceName d, PodManagementPolicy := PodManagementPolicy d\<rparr>
                   else spec0);
          spec2 = spec1\<lparr>Replicas := Replicas d, Template := Template d\<rparr>
      in map_sum id (\<lambda>m. sts\<lparr>stsMeta := m, stsSpec := spec2\<rparr>)
           (SetControllerReference (kube r) cr ((stsMeta sts)\<lparr>mLabels := mLabels (stsMeta desired)\<rparr>)))"

definition bare_sts :: "string \<Rightarrow> string \<Rightarrow> StatefulSet" where
  "bare_sts n ns = \<lparr>stsMeta = object_meta n ns, stsSpec = zero_StatefulSetSpec, stsReadyReplicas = 0\<rparr>"

definition ensureStatefulSets :: "'w Reconciler \<Rightarrow> ValkeyCluster \<Rightarrow> ('w, unit) ioE" where
  "ensureStatefulSets r cr =
     forE [0..nShards cr - 1] (\<lambda>i.
       let desired = mkStatefulSet cr i in
       CreateOrUpdateSTS (kube r) (bare_sts (mName (stsMeta desired)) (mNamespace (stsMeta desired)))
         (mutate_sts r cr desired))"

fun shards_ready :: "'w Reconciler \<Rightarrow> ValkeyCluster \<Rightarrow> int32 \<Rightarrow> int list \<Rightarrow> ('w, bool) ioE" where
  "shards_ready r cr want [] = retE True"
| "shards_ready r cr want (i # is) =
     State_Monad.bind (GetSTS (kube r) (Namespace cr, StatefulSetName cr i)) (\<lambda>res. case res of
       Inl e \<Rightarrow> (case IgnoreNotFound (kube r) e of None \<Rightarrow> retE False | Some e' \<Rightarrow> failE e')
     | Inr sts \<Rightarrow> if stsReadyReplicas sts \<noteq> want then retE False else shards_ready r cr want is)"

definition shardsReady :: "'w Reconciler \<Rightarrow> ValkeyCluster \<Rightarrow> ('w, bool) ioE" where
  "shardsReady r cr = shards_ready r cr (wantReplicas cr) [0..nShards cr - 1]"

end
