(* ===== verification/Cluster_Status.thy ===== *)
theory Cluster_Status
  imports Kube_Client Topology Slot_Distribution
begin

text \<open>
  \<^verbatim>\<open>internal/controller/status.go\<close>: reducing an observed cluster to the planner's inputs, and
  publishing the phase, the per-shard status and the conditions of the custom resource.
\<close>

section \<open>Helpers\<close>

text \<open>A shard's primary as the controller counts it: a primary that owns slots.\<close>

definition slot_owner :: "NodeInfo \<Rightarrow> bool" where
  "slot_owner n \<longleftrightarrow> IsPrimary n \<and> SlotCount n > 0"

definition byID :: "ClusterState \<Rightarrow> (string \<times> NodeInfo) list" where
  "byID st = fold (\<lambda>n. AList.update (ID n) n) (Nodes st) []"

definition hostIndex :: "ClusterState \<Rightarrow> (string \<times> NodeInfo) list" where
  "hostIndex st = fold (\<lambda>n. AList.update (Host n) n) (Nodes st) []"

definition podNameFromHost :: "string \<Rightarrow> string" where
  "podNameFromHost host = (let i = Index host CHR ''.'' in if i \<ge> 0 then take (nat i) host else host)"

definition count_replica :: "NodeInfo \<Rightarrow> (string \<times> int) list \<Rightarrow> (string \<times> int) list" where
  "count_replica n m =
     (if \<not> IsPrimary n \<and> MasterID n \<noteq> [] then AList.update (MasterID n) (index_or 0 m (MasterID n) + 1) m else m)"

definition summarize :: "ClusterState \<Rightarrow> Observed" where
  "summarize st =
     (let replicaByPrimary = fold count_replica (Nodes st) [];
          owners = filter slot_owner (Nodes st)
      in \<lparr>oFormed = Formed st,
          oSlotsCovered = (SlotsCovered st \<and> \<not> OpenSlots st),
          oPrimaryCount = int (length owners),
          oReplicaCounts = map (\<lambda>n. index_or 0 replicaByPrimary (ID n)) owners\<rparr>)"

text \<open>The loop of \<^verbatim>\<open>setCond\<close> over the existing conditions.\<close>

fun put_cond :: "Condition \<Rightarrow> Condition list \<Rightarrow> Condition list" where
  "put_cond meta [] = [meta]"
| "put_cond meta (c # cs) =
     (if condType c = condType meta
      then (if condStatus c = condStatus meta
            then meta\<lparr>condLastTransitionTime := condLastTransitionTime c\<rparr> else meta) # cs
      else c # put_cond meta cs)"

definition set_cond :: "Time \<Rightarrow> string \<Rightarrow> string \<Rightarrow> string \<Rightarrow> string \<Rightarrow> ValkeyCluster \<Rightarrow> ValkeyCluster" where
  "set_cond now typ status reason msg cr =
     cr\<lparr>Status := (Status cr)\<lparr>Conditions :=
       put_cond \<lparr>condType = typ, condStatus = status, condReason = reason, condMessage = msg,
         condObservedGeneration = Generation cr, condLastTransitionTime = now\<rparr> (Conditions (Status cr))\<rparr>\<rparr>"

definition setCond :: "'w Client \<Rightarrow> string \<Rightarrow> string \<Rightarrow> string \<Rightarrow> string \<Rightarrow> ValkeyCluster \<Rightarrow> ('w, ValkeyCluster) io" where
  "setCond c typ status reason msg cr =
     State_Monad.bind (Now c) (\<lambda>now. ret (set_cond now typ status reason msg cr))"

definition setPhase :: "'w Reconciler \<Rightarrow> ValkeyCluster \<Rightarrow> string \<Rightarrow> string \<Rightarrow> string \<Rightarrow> ('w, unit) ioE" where
  "setPhase r cr phase reason msg =
     RetryOnConflict (kube r)
       (bindE (GetVC (kube r) (Namespace cr, Name cr)) (\<lambda>latest.
        State_Monad.bind
          (setCond (kube r) ConditionProgressing ''True'' reason msg
             (latest\<lparr>Status := (Status latest)\<lparr>Phase := phase\<rparr>\<rparr>)) (\<lambda>latest'.
        StatusUpdate (kube r) latest')))"

section \<open>The published status\<close>

text \<open>The pods of shard \<open>i\<close>: their node IDs, and the last of them that owns slots.\<close>

fun scan_pods :: "(string \<times> NodeInfo) list \<Rightarrow> ValkeyCluster \<Rightarrow> int \<Rightarrow> int list \<Rightarrow>
    string list \<Rightarrow> NodeInfo option \<Rightarrow> string list \<times> NodeInfo option" where
  "scan_pods byHost cr i [] ids primary = (ids, primary)"
| "scan_pods byHost cr i (j # js) ids primary =
     (case map_of byHost (PodFQDN cr i j) of
        None \<Rightarrow> scan_pods byHost cr i js ids primary
      | Some n \<Rightarrow>
          scan_pods byHost cr i js (ids @ [ID n])
            (if IsPrimary n \<and> SlotCount n > 0 then Some n else primary))"

definition shard_status :: "ValkeyCluster \<Rightarrow> ClusterState \<Rightarrow> int \<Rightarrow> ShardStatus \<times> bool" where
  "shard_status cr st i =
     (case scan_pods (hostIndex st) cr i [0..nReplicas cr] [] None of (ids, primary) \<Rightarrow>
        let ss = \<lparr>ssIndex = word_of_int i, PrimaryPod = [], PrimaryNodeID = [], ssSlots = [],
                  ReadyReplicas = 0, NodeIDs = ids\<rparr>
        in case primary of
             None \<Rightarrow> (ss, False)
           | Some p \<Rightarrow>
               (ss\<lparr>PrimaryPod := podNameFromHost (Host p),
                   PrimaryNodeID := ID p,
                   ssSlots := FormatRanges (Slots p),
                   ReadyReplicas := word_of_int (int (length
                     (filter (\<lambda>n. MasterID n = ID p \<and> Connected n) (Nodes st))))\<rparr>, True))"

definition shard_statuses :: "ValkeyCluster \<Rightarrow> ClusterState \<Rightarrow> (ShardStatus \<times> bool) list" where
  "shard_statuses cr st = map (shard_status cr st) [0..nShards cr - 1]"

definition ready_shards :: "ValkeyCluster \<Rightarrow> ClusterState \<Rightarrow> int" where
  "ready_shards cr st = int (length (filter snd (shard_statuses cr st)))"

definition actual_shards :: "ClusterState \<Rightarrow> int" where
  "actual_shards st = int (length (filter (\<lambda>n. IsPrimary n \<and> SlotCount n > 0) (Nodes st)))"

definition all_ready :: "ValkeyCluster \<Rightarrow> ClusterState \<Rightarrow> bool" where
  "all_ready cr st \<longleftrightarrow>
     ready_shards cr st = nShards cr \<and> actual_shards st = nShards cr \<and> SlotsCovered st \<and> \<not> OpenSlots st"

text \<open>The switch of \<^verbatim>\<open>updateStatus\<close>: a phase and the conditions to set, in order.\<close>

definition status_switch :: "bool \<Rightarrow> int \<Rightarrow> int \<Rightarrow> int \<Rightarrow> bool \<Rightarrow> string \<times> (string \<times> string \<times> string \<times> string) list" where
  "status_switch allReady actualShards desired ready openSlots =
     (if allReady then
        (PhaseReady,
         [(ConditionAvailable, ''True'', ''Ready'', ''all shards serving, full keyspace covered''),
          (ConditionProgressing, ''False'', ''Ready'', ''converged''),
          (ConditionDegraded, ''False'', ''Ready'', ''healthy'')])
      else if actualShards > desired \<and> ready > 0 then
        (PhaseResharding,
         [(ConditionProgressing, ''True'', ''Resharding'', ''removing shards''),
          (ConditionAvailable, ''True'', ''Serving'', ''primaries serving during scale-in'')])
      else if openSlots \<and> ready > 0 then
        (PhaseResharding,
         [(ConditionProgressing, ''True'', ''Resharding'', ''slot migration in progress''),
          (ConditionAvailable, ''True'', ''Serving'', ''primaries serving during migration'')])
      else if ready = 0 then
        (PhaseDegraded,
         [(ConditionAvailable, ''False'', ''NoPrimaries'', ''no shard has a reachable primary''),
          (ConditionDegraded, ''True'', ''NoPrimaries'', ''no shard has a reachable primary'')])
      else
        (PhaseDegraded,
         [(ConditionAvailable, ''False'', ''PartialCoverage'', ''not all shards serving or keyspace not fully covered''),
          (ConditionDegraded, ''True'', ''PartialCoverage'', ''degraded'')]))"

fun set_conds :: "'w Client \<Rightarrow> (string \<times> string \<times> string \<times> string) list \<Rightarrow> ValkeyCluster \<Rightarrow> ('w, ValkeyCluster) io" where
  "set_conds c [] cr = ret cr"
| "set_conds c ((typ, status, reason, msg) # cs) cr =
     State_Monad.bind (setCond c typ status reason msg cr) (\<lambda>cr'. set_conds c cs cr')"

definition updateStatus :: "'w Reconciler \<Rightarrow> ValkeyCluster \<Rightarrow> ClusterState \<Rightarrow> ('w, unit) ioE" where
  "updateStatus r cr st =
     (let shardStatuses = map fst (shard_statuses cr st);
          ready = ready_shards cr st;
          (phase, conds) = status_switch (all_ready cr st) (actual_shards st) (nShards cr) ready (OpenSlots st)
      in RetryOnConflict (kube r)
           (bindE (GetVC (kube r) (Namespace cr, Name cr)) (\<lambda>latest.
              let latest1 = latest\<lparr>Status := (Status latest)
                    \<lparr>stShards := shardStatuses, ReadyShards := word_of_int ready,
                     ObservedGeneration := Generation latest, Phase := phase\<rparr>\<rparr>
              in State_Monad.bind (set_conds (kube r) conds latest1) (\<lambda>latest2.
                 StatusUpdate (kube r) latest2))))"

end
