(* ===== verification/Membership.thy ===== *)
theory Membership
  imports Cluster_Status
begin

text \<open>
  \<^verbatim>\<open>internal/controller/membership.go\<close>, with the two functions of \<^verbatim>\<open>scaling.go\<close> that say which
  shards exist: joining pods, attaching replicas to their shard's primary, and forgetting
  nodes whose pods are gone.
\<close>

section \<open>Attaching replicas\<close>

fun find_owner :: "'w Reconciler \<Rightarrow> ValkeyCluster \<Rightarrow> int \<Rightarrow> (string \<times> NodeInfo) list \<Rightarrow> int list \<Rightarrow>
    ('w, (string \<times> int) option) io" where
  "find_owner r cr shard idx [] = ret None"
| "find_owner r cr shard idx (j # js) =
     State_Monad.bind (aMyID (Admin r) (endpoint cr shard j)) (\<lambda>res. case res of
       Inl _ \<Rightarrow> find_owner r cr shard idx js
     | Inr i \<Rightarrow>
         (case map_of idx i of
            Some n \<Rightarrow>
              if IsPrimary n \<and> SlotCount n > 0 then ret (Some (i, j)) else find_owner r cr shard idx js
          | None \<Rightarrow> find_owner r cr shard idx js))"

definition findShardPrimary :: "'w Reconciler \<Rightarrow> ValkeyCluster \<Rightarrow> int \<Rightarrow> (string \<times> NodeInfo) list \<Rightarrow>
    ('w, string \<times> int) io" where
  "findShardPrimary r cr shard idx =
     State_Monad.bind (find_owner r cr shard idx [0..nReplicas cr]) (\<lambda>found. case found of
       Some p \<Rightarrow> ret p
     | None \<Rightarrow>
         State_Monad.bind (aMyID (Admin r) (endpoint cr shard 0)) (\<lambda>res. case res of
           Inr i \<Rightarrow> ret (i, 0)
         | Inl _ \<Rightarrow> ret ([], - 1)))"

definition attach_pod :: "'w Reconciler \<Rightarrow> ValkeyCluster \<Rightarrow> (string \<times> NodeInfo) list \<Rightarrow> string \<Rightarrow> int \<Rightarrow>
    int \<Rightarrow> int \<Rightarrow> ('w, unit) ioE" where
  "attach_pod r cr idx primaryID primaryOrd i j =
     (if j = primaryOrd then retE ()
      else
        let ep = endpoint cr i j in
        State_Monad.bind (aMyID (Admin r) ep) (\<lambda>res. case res of
          Inl _ \<Rightarrow> retE ()
        | Inr k \<Rightarrow>
            if (case map_of idx k of Some n \<Rightarrow> MasterID n = primaryID | None \<Rightarrow> False) then retE ()
            else wrapE (\<lambda>e. Errorf (''replicate '' @ epHost ep) (Some e)) (aReplicate (Admin r) ep primaryID)))"

definition attach_shard :: "'w Reconciler \<Rightarrow> ValkeyCluster \<Rightarrow> (string \<times> NodeInfo) list \<Rightarrow> int \<Rightarrow> ('w, unit) ioE" where
  "attach_shard r cr idx i =
     State_Monad.bind (findShardPrimary r cr i idx) (\<lambda>(primaryID, primaryOrd).
       if primaryID = [] then retE ()
       else forE [0..nReplicas cr] (attach_pod r cr idx primaryID primaryOrd i))"

definition attachReplicas :: "'w Reconciler \<Rightarrow> ValkeyCluster \<Rightarrow> ClusterState \<Rightarrow> ('w, unit) ioE" where
  "attachReplicas r cr st = forE [0..nShards cr - 1] (attach_shard r cr (byID st))"

section \<open>Existing shards\<close>

definition shard_index :: "StatefulSet \<Rightarrow> int option" where
  "shard_index s =
     (case map_of (mLabels (stsMeta s)) LabelShard of
        None \<Rightarrow> None
      | Some v \<Rightarrow> (case Atoi v of (n, None) \<Rightarrow> Some n | (_, Some _) \<Rightarrow> None))"

definition existingShardIndexes :: "'w Reconciler \<Rightarrow> ValkeyCluster \<Rightarrow> ('w, int list) ioE" where
  "existingShardIndexes r cr =
     bindE (ListSTS (kube r) (Namespace cr) [(''app.kubernetes.io/instance'', Name cr)]) (\<lambda>items.
       retE (sort (List.map_filter shard_index items)))"

definition hasExcessShardStatefulSets :: "'w Reconciler \<Rightarrow> ValkeyCluster \<Rightarrow> ('w, bool) ioE" where
  "hasExcessShardStatefulSets r cr =
     bindE (existingShardIndexes r cr) (\<lambda>idxs. retE (list_ex (\<lambda>i. i \<ge> nShards cr) idxs))"

text \<open>The set of host names, as the list of its members.\<close>

definition existingPodHosts :: "'w Reconciler \<Rightarrow> ValkeyCluster \<Rightarrow> ('w, string list) ioE" where
  "existingPodHosts r cr =
     bindE (existingShardIndexes r cr) (\<lambda>idxs.
       retE (concat (map (\<lambda>i. map (\<lambda>j. PodFQDN cr i j) [0..nReplicas cr]) idxs)))"

section \<open>Forgetting nodes\<close>

definition forgetEverywhere :: "'w Reconciler \<Rightarrow> ValkeyCluster \<Rightarrow> string \<Rightarrow> ('w, unit) ioE" where
  "forgetEverywhere r cr nodeID =
     forE (allEndpoints cr) (\<lambda>ep. ignoreE (aForget (Admin r) ep nodeID))"

definition forgetStaleNodes :: "'w Reconciler \<Rightarrow> ValkeyCluster \<Rightarrow> ClusterState \<Rightarrow> ('w, unit) ioE" where
  "forgetStaleNodes r cr st =
     State_Monad.bind (existingPodHosts r cr) (\<lambda>res. case res of
       Inl _ \<Rightarrow> retE ()
     | Inr want \<Rightarrow>
         forE (Nodes st) (\<lambda>n. if Host n \<noteq> [] \<and> Host n \<notin> set want then forgetEverywhere r cr (ID n) else retE ()))"

text \<open>The \<^verbatim>\<open>want\<close> map of the source is filled and never read.\<close>

definition reconcileMembership :: "'w Reconciler \<Rightarrow> ValkeyCluster \<Rightarrow> ClusterState \<Rightarrow> ('w, unit) ioE" where
  "reconcileMembership r cr st =
     (let byHost = hostIndex st in
      bindE (forE (allEndpoints cr) (\<lambda>ep.
               if map_of byHost (epHost ep) = None then aMeet (Admin r) (seed cr) ep else retE ())) (\<lambda>_.
      bindE (attachReplicas r cr st) (\<lambda>_.
      forgetStaleNodes r cr st)))"

lemma triple_pure: "(\<phi> \<Longrightarrow> triple P m Q) \<Longrightarrow> triple (\<lambda>w. P w \<and> \<phi>) m Q"
  by (auto simp: triple_def)

section \<open>Index maps\<close>

lemma map_of_fold_update:
  "map_of (fold (\<lambda>n. AList.update (f n) n) ns m) = map_of m ++ map_of (rev (map (\<lambda>n. (f n, n)) ns))"
  by (induction ns arbitrary: m) (auto simp: map_add_def fun_eq_iff split: option.splits)

lemma distinct_fold_update:
  "distinct (map fst m) \<Longrightarrow> distinct (map fst (fold (\<lambda>n. AList.update (f n) n) ns m))"
  by (induction ns arbitrary: m) simp_all

lemma map_of_rev_distinct: "distinct (map fst xs) \<Longrightarrow> map_of (rev xs) = map_of xs"
proof
  fix k assume d: "distinct (map fst xs)"
  then have d': "distinct (map fst (rev xs))" by (simp add: rev_map [symmetric])
  have "map_of (rev xs) k = Some v \<longleftrightarrow> map_of xs k = Some v" for v
    unfolding map_of_eq_Some_iff [OF d] map_of_eq_Some_iff [OF d'] by simp
  then show "map_of (rev xs) k = map_of xs k" by (metis not_Some_eq)
qed

lemma byID_node_map: "distinct (map ID (Nodes st)) \<Longrightarrow> map_of (byID st) = node_map st"
  unfolding byID_def map_of_fold_update node_map_def
  by (simp add: map_of_rev_distinct comp_def)

lemma distinct_byID: "distinct (map fst (byID st))"
  unfolding byID_def by (rule distinct_fold_update) simp

section \<open>Replica attachment keeps every slot where it is\<close>

text \<open>
  The pods' node IDs are distinct. \<open>pod i j\<close> is the ID of ordinal \<open>j\<close> of shard \<open>i\<close>.
\<close>

locale reconciling = cluster_admin "Admin r" inv view ident up
  for r :: "'w Reconciler" and inv view ident up +
  fixes cr :: ValkeyCluster
  assumes pod_ident: "ident (endpoint cr i j) \<noteq> []"
    and pod_inj: "0 \<le> i \<Longrightarrow> 0 \<le> j \<Longrightarrow> 0 \<le> i' \<Longrightarrow> 0 \<le> j' \<Longrightarrow>
      ident (endpoint cr i j) = ident (endpoint cr i' j') \<Longrightarrow> i = i' \<and> j = j'"
begin

abbreviation pod :: "int \<Rightarrow> int \<Rightarrow> string" where
  "pod i j \<equiv> ident (endpoint cr i j)"

text \<open>The slot counts are \<open>c\<close> and the nodes of \<open>D\<close> are known.\<close>

definition holding :: "(string \<Rightarrow> int) \<Rightarrow> string set \<Rightarrow> 'w \<Rightarrow> bool" where
  "holding c D w \<longleftrightarrow> inv w \<and> owned (view w) = c \<and> D \<subseteq> dom (view w)"

text \<open>The same after a fallible call that did not panic.\<close>

definition held :: "(string \<Rightarrow> int) \<Rightarrow> string set \<Rightarrow> error + 'b \<Rightarrow> 'w \<Rightarrow> bool" where
  "held c D res w \<longleftrightarrow> holding c D w \<and> (\<forall>e. res = Inl e \<longrightarrow> \<not> is_abort e)"

lemma holding_grown:
  "holding c D w \<Longrightarrow> inv w' \<Longrightarrow> grown (view w) (view w') \<Longrightarrow> holding c D w'"
  using grown_owned grown_dom unfolding holding_def by blast

lemma bind_MyID:
  assumes "\<And>e. \<not> up (endpoint cr i j) \<Longrightarrow> \<not> is_abort e \<Longrightarrow> triple (holding c D) (f (Inl e)) Q"
    and "up (endpoint cr i j) \<Longrightarrow> triple (holding c D) (f (Inr (pod i j))) Q"
  shows "triple (holding c D) (State_Monad.bind (aMyID (Admin r) (endpoint cr i j)) f) Q"
proof (rule tripleI)
  fix w q w'
  assume h: "holding c D w"
    and run: "run_state (State_Monad.bind (aMyID (Admin r) (endpoint cr i j)) f) w = (q, w')"
  obtain res w1 where my: "run_state (aMyID (Admin r) (endpoint cr i j)) w = (res, w1)" by fastforce
  with run have step: "run_state (f res) w1 = (q, w')" by simp
  from h have "inv w" by (simp add: holding_def)
  note law = MyID [OF this pod_ident my]
  then have h1: "holding c D w1" using h holding_grown by blast
  from law have "triple (holding c D) (f res) Q"
    using assms by (cases res) auto
  from tripleD [OF this h1 step] show "Q q w'" .
qed

text \<open>What a reading of the cluster gives the code to work with.\<close>

definition snapshot :: "(string \<Rightarrow> int) \<Rightarrow> string set \<Rightarrow> (string \<times> NodeInfo) list \<Rightarrow> bool" where
  "snapshot c D idx \<longleftrightarrow> owned (map_of idx) = c \<and> view_ok (map_of idx) \<and> D \<subseteq> dom (map_of idx) \<and>
     distinct (map fst idx)"

lemma bindE_State:
  assumes "\<And>e w. \<not> is_abort e \<Longrightarrow> holding c D w \<Longrightarrow> Q (Inl e) w"
    and "\<And>st. snapshot c D (byID st) \<Longrightarrow> triple (holding c D) (f st) Q"
  shows "triple (holding c D) (bindE (aState (Admin r) ep) f) Q"
proof (rule tripleI)
  fix w q w'
  assume h: "holding c D w" and run: "run_state (bindE (aState (Admin r) ep) f) w = (q, w')"
  obtain res w1 where st: "run_state (aState (Admin r) ep) w = (res, w1)" by fastforce
  from h have inv: "inv w" by (simp add: holding_def)
  note law = State [OF this st]
  then have h1: "holding c D w1" using h by (simp add: holding_def)
  show "Q q w'"
  proof (cases res)
    case (Inl e)
    with run st have "q = Inl e" "w' = w1" by (simp_all add: run_bindE)
    with law h1 assms(1) Inl show ?thesis by simp
  next
    case (Inr s)
    with law have "map_of (byID s) = view w" using byID_node_map by simp
    then have "snapshot c D (byID s)"
      using h inv_view [OF inv] distinct_byID by (simp add: snapshot_def holding_def)
    from assms(2) [OF this] have t: "triple (holding c D) (f s) Q" .
    from run st Inr have "run_state (f s) w1 = (q, w')" by (simp add: run_bindE)
    from tripleD [OF t h1 this] show ?thesis .
  qed
qed

lemma snapshot_owner:
  "snapshot c D idx \<Longrightarrow> (\<exists>n. map_of idx k = Some n \<and> IsPrimary n \<and> 0 < SlotCount n) \<longleftrightarrow> 0 < c k"
  by (cases "map_of idx k") (auto simp: snapshot_def view_ok_def)

lemma snapshot_nonneg: "snapshot c D idx \<Longrightarrow> 0 \<le> c k"
  unfolding snapshot_def using owned_nonneg by blast

text \<open>What \<open>find_owner\<close> reports.\<close>

definition found_owner :: "(string \<Rightarrow> int) \<Rightarrow> int \<Rightarrow> int list \<Rightarrow> (string \<times> int) option \<Rightarrow> bool" where
  "found_owner c i js res \<longleftrightarrow>
     (case res of
        Some (k, j) \<Rightarrow> j \<in> set js \<and> up (endpoint cr i j) \<and> k = pod i j \<and> 0 < c k
      | None \<Rightarrow> \<forall>j \<in> set js. up (endpoint cr i j) \<longrightarrow> c (pod i j) = 0)"

lemma find_owner_triple:
  assumes "snapshot c D idx"
  shows "triple (holding c D) (find_owner r cr i idx js) (\<lambda>res w. holding c D w \<and> found_owner c i js res)"
proof (induction js)
  case Nil
  show ?case by (simp add: found_owner_def triple_return)
next
  case (Cons j js)
  have skip: "triple (holding c D) (find_owner r cr i idx js) (\<lambda>res w. holding c D w \<and> found_owner c i (j # js) res)"
    if "up (endpoint cr i j) \<longrightarrow> c (pod i j) = 0"
    by (rule triple_conseq [OF Cons.IH]) (use that in \<open>auto simp: found_owner_def split: option.splits\<close>)
  show ?case
    unfolding find_owner.simps
  proof (rule bind_MyID)
    fix e assume "\<not> up (endpoint cr i j)"
    with skip show "triple (holding c D) (case Inl e of Inl _ \<Rightarrow> find_owner r cr i idx js
         | Inr k \<Rightarrow> (case map_of idx k of None \<Rightarrow> find_owner r cr i idx js
            | Some n \<Rightarrow> if IsPrimary n \<and> 0 < SlotCount n then ret (Some (k, j)) else find_owner r cr i idx js))
        (\<lambda>res w. holding c D w \<and> found_owner c i (j # js) res)" by simp
  next
    assume u: "up (endpoint cr i j)"
    show "triple (holding c D) (case Inr (pod i j) of Inl _ \<Rightarrow> find_owner r cr i idx js
         | Inr k \<Rightarrow> (case map_of idx k of None \<Rightarrow> find_owner r cr i idx js
            | Some n \<Rightarrow> if IsPrimary n \<and> 0 < SlotCount n then ret (Some (k, j)) else find_owner r cr i idx js))
        (\<lambda>res w. holding c D w \<and> found_owner c i (j # js) res)"
    proof (cases "0 < c (pod i j)")
      case True
      with snapshot_owner [OF assms, of "pod i j"] obtain n
        where "map_of idx (pod i j) = Some n" "IsPrimary n" "0 < SlotCount n" by blast
      then show ?thesis using u True by (simp add: triple_return found_owner_def)
    next
      case False
      with snapshot_nonneg [OF assms, of "pod i j"] have "c (pod i j) = 0" by simp
      moreover have "\<not> (IsPrimary n \<and> 0 < SlotCount n)" if "map_of idx (pod i j) = Some n" for n
        using snapshot_owner [OF assms, of "pod i j"] False that by blast
      ultimately show ?thesis using skip by (cases "map_of idx (pod i j)") auto
    qed
  qed
qed

text \<open>The answer of \<open>findShardPrimary\<close>: an owner, or ordinal 0 if no reachable pod owns slots.\<close>

definition shard_primary :: "(string \<Rightarrow> int) \<Rightarrow> int \<Rightarrow> string \<times> int \<Rightarrow> bool" where
  "shard_primary c i p \<longleftrightarrow>
     (case p of (k, j) \<Rightarrow>
        0 \<le> j \<and> j \<le> nReplicas cr \<and> up (endpoint cr i j) \<and> k = pod i j \<and> 0 < c k \<or>
        (\<forall>x \<in> {0..nReplicas cr}. up (endpoint cr i x) \<longrightarrow> c (pod i x) = 0) \<and>
        (if up (endpoint cr i 0) then k = pod i 0 \<and> j = 0 else k = [] \<and> j = - 1))"

lemma findShardPrimary_triple:
  assumes "snapshot c D idx"
  shows "triple (holding c D) (findShardPrimary r cr i idx) (\<lambda>p w. holding c D w \<and> shard_primary c i p)"
  unfolding findShardPrimary_def
proof (rule triple_bind [OF find_owner_triple [OF assms]], rule triple_pure)
  fix found :: "(string \<times> int) option"
  assume found: "found_owner c i [0..nReplicas cr] found"
  show "triple (holding c D)
      (case found of Some p \<Rightarrow> ret p
       | None \<Rightarrow> State_Monad.bind (aMyID (Admin r) (endpoint cr i 0))
           (\<lambda>res. case res of Inr k \<Rightarrow> ret (k, 0) | Inl _ \<Rightarrow> ret ([], - 1)))
      (\<lambda>p w. holding c D w \<and> shard_primary c i p)"
  proof (cases found)
    case None
    with found show ?thesis
      by (auto intro!: bind_MyID triple_return simp: found_owner_def shard_primary_def)
  next
    case (Some p)
    with found show ?thesis
      by (cases p) (auto intro!: triple_return simp: found_owner_def shard_primary_def)
  qed
qed

lemma held_Inr [simp]: "held c D (Inr x) = holding c D"
  by (simp add: held_def fun_eq_iff)

lemma held_retE: "triple (holding c D) (retE x) (held c D)"
  by (rule triple_retE) simp

lemma held_forE:
  assumes "\<And>x. x \<in> set xs \<Longrightarrow> triple (holding c D) (f x) (held c D)"
  shows "triple (holding c D) (forE xs f) (held c D)"
  using assms
  by (induction xs) (auto intro!: held_retE triple_bindE [where R = "held c D"] simp: held_def)

lemma held_Replicate:
  assumes "c (pod i j) = 0"
  shows "triple (holding c D) (aReplicate (Admin r) (endpoint cr i j) p) (held c D)"
proof (rule tripleI)
  fix w res w'
  assume h: "holding c D w" and run: "run_state (aReplicate (Admin r) (endpoint cr i j) p) w = (res, w')"
  from h assms have "inv w" "owned (view w) (pod i j) = 0" by (auto simp: holding_def)
  from Replicate [OF this(1) pod_ident this(2) run] h show "held c D res w'"
    by (auto simp: held_def holding_def)
qed

lemma attach_pod_triple:
  assumes "j \<noteq> ord \<Longrightarrow> up (endpoint cr i j) \<Longrightarrow> c (pod i j) = 0"
  shows "triple (holding c D) (attach_pod r cr idx p ord i j) (held c D)"
proof (cases "j = ord")
  case False
  have "triple (holding c D) (wrapE (\<lambda>e. Errorf m (Some e)) (aReplicate (Admin r) (endpoint cr i j) p)) (held c D)"
    if "up (endpoint cr i j)" for m
    using held_Replicate assms [OF False that]
    by (intro triple_wrapE [where R = "held c D"]) (auto simp: held_def is_abort_def)
  with False show ?thesis
    unfolding attach_pod_def Let_def by (auto intro!: bind_MyID held_retE)
qed (simp add: attach_pod_def held_retE)

text \<open>At most one pod of shard \<open>i\<close> owns slots.\<close>

definition lone_owner :: "(string \<Rightarrow> int) \<Rightarrow> int \<Rightarrow> bool" where
  "lone_owner c i \<longleftrightarrow>
     (\<forall>j \<in> {0..nReplicas cr}. \<forall>j' \<in> {0..nReplicas cr}. 0 < c (pod i j) \<longrightarrow> 0 < c (pod i j') \<longrightarrow> j = j')"

lemma attach_shard_triple:
  assumes "snapshot c D idx" and "lone_owner c i"
  shows "triple (holding c D) (attach_shard r cr idx i) (held c D)"
  unfolding attach_shard_def
proof (rule triple_bind [OF findShardPrimary_triple [OF assms(1)]], rule triple_pure)
  fix p :: "string \<times> int"
  assume sp: "shard_primary c i p"
  obtain k ord where p: "p = (k, ord)" by fastforce
  have "c (pod i j) = 0" if "0 \<le> j" "j \<le> nReplicas cr" "j \<noteq> ord" "up (endpoint cr i j)" for j
  proof (rule ccontr)
    assume "c (pod i j) \<noteq> 0"
    with snapshot_nonneg [OF assms(1), of "pod i j"] have pos: "0 < c (pod i j)" by simp
    with sp that have "0 \<le> ord" "ord \<le> nReplicas cr" "0 < c (pod i ord)"
      by (auto simp: p shard_primary_def)
    with pos that assms(2) show False by (auto simp: lone_owner_def)
  qed
  then have "triple (holding c D) (forE [0..nReplicas cr] (attach_pod r cr idx k ord i)) (held c D)"
    by (intro held_forE attach_pod_triple) simp
  then show "triple (holding c D)
      (case p of (k, ord) \<Rightarrow> if k = [] then retE () else forE [0..nReplicas cr] (attach_pod r cr idx k ord i))
      (held c D)"
    by (simp add: p held_retE)
qed

text \<open>
  Attaching replicas from a reading of the current state moves no slot, whichever calls fail.
\<close>

lemma attachReplicas_triple:
  assumes "snapshot c D (byID st)" and "\<And>i. 0 \<le> i \<Longrightarrow> i < nShards cr \<Longrightarrow> lone_owner c i"
  shows "triple (holding c D) (attachReplicas r cr st) (held c D)"
  unfolding attachReplicas_def using assms by (intro held_forE attach_shard_triple) auto

end

end
