(* ===== verification/Scaling.thy ===== *)
theory Scaling
  imports Membership
begin

text \<open>
  \<^verbatim>\<open>internal/controller/scaling.go\<close>: adding shards (join, attach, move slots from the fattest
  primary), removing shards (drain in batches, forget, delete) and the teardown helpers.
\<close>

section \<open>Scale-out\<close>

definition drainBatchSlots :: int where
  "drainBatchSlots = 1024"

text \<open>The loop over the map, its entries in the order given.\<close>

fun fattest :: "string \<Rightarrow> string \<Rightarrow> int \<Rightarrow> (string \<times> NodeInfo) list \<Rightarrow> string \<times> int" where
  "fattest excludeID bestID best [] = (bestID, best)"
| "fattest excludeID bestID best ((i, n) # rest) =
     (if i = excludeID \<or> \<not> IsPrimary n then fattest excludeID bestID best rest
      else let c = SlotCount n in
        if c > best then fattest excludeID i c rest else fattest excludeID bestID best rest)"

definition fattestPrimary :: "(string \<times> NodeInfo) list \<Rightarrow> string \<Rightarrow> string \<times> int" where
  "fattestPrimary idx excludeID = fattest excludeID [] 0 idx"

text \<open>
  The \<^verbatim>\<open>for need > 0\<close> loop. Every round that goes on moves at least one slot, so \<open>need\<close> rounds
  are enough for an admin that reports non-negative counts.
\<close>

fun fill_shard :: "'w Reconciler \<Rightarrow> ValkeyCluster \<Rightarrow> int \<Rightarrow> string \<Rightarrow> nat \<Rightarrow> int \<Rightarrow> (string \<times> NodeInfo) list \<Rightarrow>
    ('w, unit) ioE" where
  "fill_shard r cr i newID fuel need idx =
     (if need \<le> 0 then retE ()
      else
        (case fuel of
           0 \<Rightarrow> failE OutOfFuel
         | Suc fuel' \<Rightarrow>
             State_Monad.bind (map_order r idx) (\<lambda>order.
             case fattestPrimary order newID of (srcID, srcSlots) \<Rightarrow>
               if srcID = [] \<or> srcSlots = 0 then retE ()
               else
                 State_Monad.bind
                   (aMoveSlots (Admin r) (seed cr) srcID newID (if need > srcSlots then srcSlots else need))
                   (\<lambda>(moved, err). case err of
                      Some e \<Rightarrow> failE (Errorf (''fill shard '' @ Itoa i) (Some e))
                    | None \<Rightarrow>
                        if moved = 0 then retE ()
                        else bindE (aState (Admin r) (seed cr)) (\<lambda>st.
                               fill_shard r cr i newID fuel' (need - moved) (byID st))))))"

declare fill_shard.simps [simp del]

definition fill_new :: "'w Reconciler \<Rightarrow> ValkeyCluster \<Rightarrow> int \<Rightarrow> int \<Rightarrow> ('w, unit) ioE" where
  "fill_new r cr perShard i =
     State_Monad.bind (aMyID (Admin r) (endpoint cr i 0)) (\<lambda>res. case res of
       Inl e \<Rightarrow> failE (Errorf (''resolve new primary '' @ Itoa i @ '' id'') (Some e))
     | Inr newID \<Rightarrow>
         if newID = [] then failE (Errorf (''resolve new primary '' @ Itoa i @ '' id'') None)
         else
           bindE (aState (Admin r) (seed cr)) (\<lambda>st.
             let idx = byID st; need = perShard - SlotCount (index_or zero_NodeInfo idx newID)
             in fill_shard r cr i newID (nat need) need idx))"

definition meet_shard :: "'w Reconciler \<Rightarrow> ValkeyCluster \<Rightarrow> int \<Rightarrow> ('w, unit) ioE" where
  "meet_shard r cr i = forE [0..nReplicas cr] (\<lambda>j. aMeet (Admin r) (seed cr) (endpoint cr i j))"

text \<open>Go's division truncates towards zero and panics on zero.\<close>

definition scaleOut :: "'w Reconciler \<Rightarrow> ValkeyCluster \<Rightarrow> int \<Rightarrow> ('w, unit) ioE" where
  "scaleOut r cr oldShards =
     (let desired = nShards cr in
      if desired = 0 then failE (Panic ''integer divide by zero'')
      else
        let perShard = TotalSlots sdiv desired in
        bindE (forE [oldShards..desired - 1] (meet_shard r cr)) (\<lambda>_.
        bindE (aState (Admin r) (seed cr)) (\<lambda>st.
        bindE (attachReplicas r cr st) (\<lambda>_.
        bindE (forE [oldShards..desired - 1] (fill_new r cr perShard)) (\<lambda>_.
        bindE (aState (Admin r) (seed cr)) (\<lambda>st'.
        attachReplicas r cr st'))))))"

section \<open>Teardown\<close>

definition delete_pvcs :: "'w Reconciler \<Rightarrow> PersistentVolumeClaim list \<Rightarrow> ('w, unit) ioE" where
  "delete_pvcs r pvcs = forE pvcs (\<lambda>p. ignoreNotFound (kube r) (DeletePVC (kube r) p))"

definition deleteShardPVCs :: "'w Reconciler \<Rightarrow> ValkeyCluster \<Rightarrow> int \<Rightarrow> ('w, unit) ioE" where
  "deleteShardPVCs r cr shard =
     bindE (ListPVC (kube r) (Namespace cr)
              [(LabelShard, Itoa shard), (''app.kubernetes.io/instance'', Name cr)]) (delete_pvcs r)"

definition deleteShard :: "'w Reconciler \<Rightarrow> ValkeyCluster \<Rightarrow> int \<Rightarrow> ('w, unit) ioE" where
  "deleteShard r cr shard =
     bindE (ignoreNotFound (kube r) (DeleteSTS (kube r) (bare_sts (StatefulSetName cr shard) (Namespace cr)))) (\<lambda>_.
       deleteShardPVCs r cr shard)"

definition deleteOwnedPVCs :: "'w Reconciler \<Rightarrow> ValkeyCluster \<Rightarrow> ('w, unit) ioE" where
  "deleteOwnedPVCs r cr =
     bindE (ListPVC (kube r) (Namespace cr) [(''app.kubernetes.io/instance'', Name cr)]) (delete_pvcs r)"

section \<open>Scale-in\<close>

fun first_survivor :: "'w Reconciler \<Rightarrow> ValkeyCluster \<Rightarrow> (string \<times> NodeInfo) list \<Rightarrow> string \<Rightarrow> int list \<Rightarrow>
    ('w, string) io" where
  "first_survivor r cr idx excludeID [] = ret []"
| "first_survivor r cr idx excludeID (s # ss) =
     State_Monad.bind (findShardPrimary r cr s idx) (\<lambda>(i, _).
       if i \<noteq> [] \<and> i \<noteq> excludeID then ret i else first_survivor r cr idx excludeID ss)"

definition firstSurvivorPrimary :: "'w Reconciler \<Rightarrow> ValkeyCluster \<Rightarrow> (string \<times> NodeInfo) list \<Rightarrow> string \<Rightarrow> int \<Rightarrow>
    ('w, string) io" where
  "firstSurvivorPrimary r cr idx excludeID desired = first_survivor r cr idx excludeID [0..desired - 1]"

text \<open>Draining one batch of shard \<open>i\<close>.\<close>

definition drain_shard :: "'w Reconciler \<Rightarrow> ValkeyCluster \<Rightarrow> int \<Rightarrow> (string \<times> NodeInfo) list \<Rightarrow> string \<Rightarrow> ('w, unit) ioE" where
  "drain_shard r cr i idx departID =
     State_Monad.bind (firstSurvivorPrimary r cr idx departID (nShards cr)) (\<lambda>survID.
       if survID = [] then failE (Errorf (''no surviving primary to drain shard '' @ Itoa i @ '' into'') None)
       else
         let c = SlotCount (index_or zero_NodeInfo idx departID);
             batch = (if c < drainBatchSlots then c else drainBatchSlots)
         in State_Monad.bind (aMoveSlots (Admin r) (seed cr) departID survID batch) (\<lambda>(moved, err). case err of
              Some e \<Rightarrow> failE (Errorf (''drain shard '' @ Itoa i @ '' (moved '' @ Itoa moved @ '' before error)'') (Some e))
            | None \<Rightarrow> retE ()))"

definition forget_shard :: "'w Reconciler \<Rightarrow> ValkeyCluster \<Rightarrow> int \<Rightarrow> ('w, unit) ioE" where
  "forget_shard r cr i =
     forE [0..nReplicas cr] (\<lambda>j.
       State_Monad.bind (aMyID (Admin r) (endpoint cr i j)) (\<lambda>res. case res of
         Inr k \<Rightarrow> if k \<noteq> [] then forgetEverywhere r cr k else retE ()
       | Inl _ \<Rightarrow> retE ()))"

text \<open>The loop over the existing shards. Draining a batch returns from the whole function.\<close>

fun scale_in_shards :: "'w Reconciler \<Rightarrow> ValkeyCluster \<Rightarrow> int list \<Rightarrow> ('w, unit) ioE" where
  "scale_in_shards r cr [] = retE ()"
| "scale_in_shards r cr (i # is) =
     (if i < nShards cr then scale_in_shards r cr is
      else
        bindE (aState (Admin r) (seed cr)) (\<lambda>st.
          let idx = byID st in
          State_Monad.bind (findShardPrimary r cr i idx) (\<lambda>(departID, _).
            if departID \<noteq> [] \<and> SlotCount (index_or zero_NodeInfo idx departID) > 0
            then drain_shard r cr i idx departID
            else
              bindE (forget_shard r cr i) (\<lambda>_.
              bindE (deleteShard r cr i) (\<lambda>_.
              scale_in_shards r cr is)))))"

definition scaleIn :: "'w Reconciler \<Rightarrow> ValkeyCluster \<Rightarrow> ('w, unit) ioE" where
  "scaleIn r cr =
     State_Monad.bind (aState (Admin r) (seed cr)) (\<lambda>res.
     bindE (case res of Inr st \<Rightarrow> forgetStaleNodes r cr st | Inl _ \<Rightarrow> retE ()) (\<lambda>_.
     bindE (existingShardIndexes r cr) (scale_in_shards r cr)))"

definition returns :: "('w, 'a) ioE \<Rightarrow> bool" where
  "returns m \<longleftrightarrow> (\<forall>w. \<exists>x w'. run_state m w = (Inr x, w'))"

lemma returns_retE: "returns (retE x)"
  by (simp add: returns_def)

lemma returns_bindE: "returns m \<Longrightarrow> (\<And>x. returns (f x)) \<Longrightarrow> returns (bindE m f)"
  unfolding returns_def run_bindE by (metis (no_types, lifting) prod.case sum.case(2))

lemma returns_bind: "(\<And>x. returns (f x)) \<Longrightarrow> returns (State_Monad.bind m f)"
  unfolding returns_def by (auto split: prod.splits)

lemma returns_wrapE: "returns m \<Longrightarrow> returns (wrapE h m)"
  unfolding returns_def run_wrapE by (metis (no_types, lifting) prod.case sum.case(2))

lemma returns_forE: "(\<And>x. x \<in> set xs \<Longrightarrow> returns (f x)) \<Longrightarrow> returns (forE xs f)"
  by (induction xs) (auto intro: returns_retE returns_bindE)

end
