(* ===== verification/Scale_Filling.thy ===== *)
theory Scale_Filling
  imports Scaling
begin

text \<open>
  Facts about the loop of \<^verbatim>\<open>scaleOut\<close> that fills the new shards: it ends, it conserves the slots
  whichever calls fail, and with an admin whose calls succeed every new shard gets its share.
\<close>

section \<open>The fattest primary\<close>

lemma fattest_result:
  assumes "fattest ex b0 m0 xs = (b, m)"
  shows "m0 \<le> m \<and> (\<forall>(k, n) \<in> set xs. k \<noteq> ex \<longrightarrow> IsPrimary n \<longrightarrow> SlotCount n \<le> m) \<and>
    (b = b0 \<and> m = m0 \<or> m0 < m \<and> (\<exists>n. (b, n) \<in> set xs \<and> b \<noteq> ex \<and> IsPrimary n \<and> SlotCount n = m))"
  using assms
proof (induction xs arbitrary: b0 m0)
  case (Cons x xs)
  obtain k n where x: "x = (k, n)" by fastforce
  show ?case
  proof (cases "k = ex \<or> \<not> IsPrimary n \<or> SlotCount n \<le> m0")
    case True
    then have "fattest ex b0 m0 xs = (b, m)" using Cons.prems by (auto simp: x Let_def split: if_splits)
    from Cons.IH [OF this] True show ?thesis by (auto simp: x)
  next
    case False
    then have "fattest ex k (SlotCount n) xs = (b, m)" using Cons.prems by (auto simp: x Let_def)
    from Cons.IH [OF this] False show ?thesis by (auto simp: x)
  qed
qed simp

text \<open>The order in which the map is visited does not change what is found, up to ties.\<close>

lemma fattestPrimary_result:
  assumes "fattestPrimary idx ex = (b, m)"
  shows "(\<forall>(k, n) \<in> set idx. k \<noteq> ex \<longrightarrow> IsPrimary n \<longrightarrow> SlotCount n \<le> m) \<and>
    (b = [] \<and> m = 0 \<or> 0 < m \<and> (\<exists>n. (b, n) \<in> set idx \<and> b \<noteq> ex \<and> IsPrimary n \<and> SlotCount n = m))"
  using fattest_result [OF assms [unfolded fattestPrimary_def]] by blast

text \<open>The runtime's choice of an order is a permutation and has no effect.\<close>

definition order_ok :: "'w Reconciler \<Rightarrow> bool" where
  "order_ok r \<longleftrightarrow> (\<forall>idx w. \<exists>p. run_state (map_order r idx) w = (p, w) \<and> set p = set idx \<and> length p = length idx)"

lemma order_okE:
  assumes "order_ok r" and "run_state (map_order r idx) w = (p, w')"
  shows "w' = w \<and> set p = set idx"
proof -
  obtain q where "run_state (map_order r idx) w = (q, w)" "set q = set idx"
    using assms(1) unfolding order_ok_def by blast
  with assms(2) show ?thesis by simp
qed

section \<open>Filling a new shard\<close>

text \<open>
  While one primary is below its share and fewer than \<open>d\<close> others own slots, some other
  primary is above its share.
\<close>

lemma above_share:
  fixes c :: "'k \<Rightarrow> int"
  assumes "finite S" and "int (card S) \<le> d - 1" and "x \<notin> S" and "d * p \<le> c x + sum c S"
    and "0 \<le> c x" and "c x < p"
  shows "\<exists>k \<in> S. p < c k"
proof (rule ccontr)
  assume "\<not> ?thesis"
  then have "sum c S \<le> (\<Sum>k\<in>S. p)" by (intro sum_mono) auto
  also have "\<dots> = int (card S) * p" by simp
  also have "\<dots> \<le> (d - 1) * p" using assms(2,5,6) by (intro mult_right_mono) simp_all
  finally show False using assms(4,6) by (simp add: left_diff_distrib)
qed

context reconciling
begin

text \<open>
  The total is \<open>T\<close>, the nodes of \<open>D\<close> are known, no node but \<open>x\<close> owns more than \<open>c\<close>, and \<open>x\<close> owns
  at most \<open>q\<close>.
\<close>

definition feeding :: "int \<Rightarrow> string set \<Rightarrow> (string \<Rightarrow> int) \<Rightarrow> string \<Rightarrow> int \<Rightarrow> 'w \<Rightarrow> bool" where
  "feeding T D c x q w \<longleftrightarrow> inv w \<and> total_owned (view w) = T \<and> D \<subseteq> dom (view w) \<and>
     (\<forall>k. k \<noteq> x \<longrightarrow> owned (view w) k \<le> c k) \<and> owned (view w) x \<le> q"

lemma feeding_move:
  assumes "feeding T D c x (q - need) w" and "0 < need" and "src \<noteq> x" and "0 \<le> take'" and "take' \<le> need"
    and "run_state (aMoveSlots (Admin r) ep src x take') w = ((m, err), w')"
  shows "0 \<le> m \<and> m \<le> need \<and> feeding T D c x (q - (need - m)) w' \<and> (\<forall>e. err = Some e \<longrightarrow> \<not> is_abort e)"
proof -
  have inv: "inv w" using assms(1) by (simp add: feeding_def)
  note law = MoveSlots [OF inv assms(4,3,6)]
  have "total_owned (view w') = total_owned (view w)"
    using MoveSlots_total [OF inv assms(4,3,6)] .
  moreover have "owned (view w') k \<le> c k" if "k \<noteq> x" for k
    using law assms(1) that by (auto simp: feeding_def)
  moreover have "owned (view w') x \<le> q - (need - m)"
    using law assms(1,3) by (simp add: feeding_def)
  ultimately show ?thesis using law assms(1,5) by (auto simp: feeding_def split: option.splits)
qed

lemma feeding_mono: "feeding T D c x q w \<Longrightarrow> q \<le> q' \<Longrightarrow> feeding T D c x q' w"
  by (auto simp: feeding_def)

text \<open>
  Whatever fails, the loop ends, loses no slot, and takes from others what it gives to the new
  primary, which never gets more than its share \<open>q\<close>.
\<close>

lemma fill_shard_run:
  assumes "order_ok r"
  shows "need \<le> int fuel \<Longrightarrow> 0 \<le> need \<Longrightarrow> feeding T D c x (q - need) w \<Longrightarrow>
    run_state (fill_shard r cr i x fuel need idx) w = (res, w') \<Longrightarrow>
    feeding T D c x q w' \<and> (\<forall>e. res = Inl e \<longrightarrow> \<not> is_abort e)"
proof (induction fuel arbitrary: need idx w)
  case 0
  then show ?case by (subst (asm) fill_shard.simps) (auto simp: feeding_def)
next
  case (Suc fuel)
  show ?case
  proof (cases "need \<le> 0")
    case True
    with Suc.prems show ?thesis by (subst (asm) fill_shard.simps) (auto simp: feeding_def)
  next
    case False
    obtain p where order: "run_state (map_order r idx) w = (p, w)"
      using order_okE [OF assms] by (metis surj_pair)
    obtain src m where src: "fattestPrimary p x = (src, m)" by fastforce
    show ?thesis
    proof (cases "src = [] \<or> m = 0")
      case True
      then show ?thesis
        using Suc.prems False order src feeding_mono [of T D c x "q - need" w q]
        by (subst (asm) fill_shard.simps) auto
    next
      case ok: False
      with fattestPrimary_result [OF src] have ne: "src \<noteq> x" "0 < m" by auto
      let ?take = "if need > m then m else need"
      obtain k err w1 where mv: "run_state (aMoveSlots (Admin r) (seed cr) src x ?take) w = ((k, err), w1)"
        by (metis surj_pair)
      have step: "0 \<le> k \<and> k \<le> need \<and> feeding T D c x (q - (need - k)) w1 \<and> (\<forall>e. err = Some e \<longrightarrow> \<not> is_abort e)"
        using feeding_move [OF Suc.prems(3) _ ne(1) _ _ mv] False ne(2) by simp
      then have fed: "feeding T D c x q w1" using feeding_mono by fastforce
      note run = Suc.prems(4)
      show ?thesis
      proof (cases "err = None \<and> k \<noteq> 0")
        case stop: False
        with run False order src ok mv have "w' = w1 \<and> (\<forall>e. res = Inl e \<longrightarrow> \<not> is_abort e)"
          by (subst (asm) fill_shard.simps) (auto simp: is_abort_def split: option.splits)
        with fed show ?thesis by simp
      next
        case True
        obtain st w2 where rd: "run_state (aState (Admin r) (seed cr)) w1 = (st, w2)" by fastforce
        have law: "inv w2 \<and> view w2 = view w1 \<and> (\<forall>e. st = Inl e \<longrightarrow> \<not> is_abort e)"
          using State [OF _ rd] fed by (auto simp: feeding_def)
        then have fed2: "feeding T D c x (q - (need - k)) w2" using step by (simp add: feeding_def)
        show ?thesis
        proof (cases st)
          case (Inl e)
          with run False order src ok mv True rd have "w' = w2 \<and> res = Inl e"
            by (subst (asm) fill_shard.simps) (auto simp: run_bindE)
          with Inl law fed2 step show ?thesis using feeding_mono by fastforce
        next
          case (Inr s)
          with run False order src ok mv True rd
          have "run_state (fill_shard r cr i x fuel (need - k) (byID s)) w2 = (res, w')"
            by (subst (asm) fill_shard.simps) (auto simp: run_bindE)
          from Suc.IH [OF _ _ fed2 this] step True Suc.prems(1) show ?thesis by simp
        qed
      qed
    qed
  qed
qed

end

text \<open>One new primary \<open>x\<close> brought to its share \<open>p\<close>.\<close>

definition fed :: "int \<Rightarrow> string \<Rightarrow> (string \<Rightarrow> int) \<Rightarrow> (string \<Rightarrow> int) \<Rightarrow> bool" where
  "fed p x c c' \<longleftrightarrow> p \<le> c x \<and> c' = c \<or>
     c x < p \<and> (\<exists>src. src \<noteq> x \<and> p < c src \<and> c' = c(src := c src - (p - c x), x := p))"

text \<open>How far the shares have been handed out, relative to the counts \<open>c0\<close> at the start.\<close>

definition handed_out :: "int \<Rightarrow> (string \<Rightarrow> int) \<Rightarrow> string set \<Rightarrow> (string \<Rightarrow> int) \<Rightarrow> bool" where
  "handed_out p c0 P c \<longleftrightarrow> (\<forall>k. 0 < c0 k \<longrightarrow> 0 < c k) \<and>
     (\<forall>k. c0 k \<le> p \<longrightarrow> c k = (if k \<in> P then p else c0 k)) \<and> {k. 0 < c k} \<subseteq> {k. 0 < c0 k} \<union> P"

lemma fed_handed_out:
  assumes "handed_out p c0 P c" and "x \<notin> P" and "fed p x c c'" and "\<And>k. 0 \<le> c k"
  shows "handed_out p c0 (insert x P) c'"
proof -
  have le: "c k \<le> p" if "c0 k \<le> p" for k
    using assms(1) that by (auto simp: handed_out_def split: if_splits)
  show ?thesis
  proof (cases "p \<le> c x")
    case True
    with assms(3) have c': "c' = c" by (simp add: fed_def)
    have "c x = p" if "c0 x \<le> p" using le [OF that] True by simp
    with assms(1) show ?thesis unfolding c' handed_out_def by auto
  next
    case False
    with assms(3) obtain src where src: "src \<noteq> x" "p < c src" and c': "c' = c(src := c src - (p - c x), x := p)"
      by (auto simp: fed_def)
    have "\<not> c0 src \<le> p" using le [of src] src(2) by auto
    moreover have "0 < c src - (p - c x)" "0 < p" using src(2) False assms(4) [of x] by auto
    ultimately show ?thesis
      using assms(1) src(1) False unfolding c' handed_out_def by auto
  qed
qed

lemma fed_owners:
  assumes "fed p x c c'" and "\<And>k. 0 \<le> c k" and "finite {k. 0 < c k}"
  shows "card {k. 0 < c' k} \<le> card {k. 0 < c k} + 1"
proof -
  have "{k. 0 < c' k} \<subseteq> insert x {k. 0 < c k}"
    using assms(1,2) by (auto simp: fed_def split: if_splits)
  then have "card {k. 0 < c' k} \<le> card (insert x {k. 0 < c k})" using assms(3) by (intro card_mono) simp_all
  also have "\<dots> \<le> card {k. 0 < c k} + 1" using assms(3) by (simp add: card_insert_if)
  finally show ?thesis .
qed

text \<open>An admin whose calls all succeed.\<close>

locale reliable = reconciling +
  assumes all_up: "up ep"
    and State_returns: "returns (aState (Admin r) ep)"
    and Meet_returns: "returns (aMeet (Admin r) a b)"
    and Replicate_returns: "returns (aReplicate (Admin r) ep p)"
    and MoveSlots_returns: "snd (fst (run_state (aMoveSlots (Admin r) ep k x n) w)) = None"
begin

lemma holding_total:
  assumes "holding c D w"
  shows "total_owned (view w) = c x + sum c ({k. 0 < c k} - {x}) \<and> finite {k. 0 < c k} \<and> 0 \<le> c x"
proof -
  have ok: "view_ok (view w)" and c: "owned (view w) = c" using assms inv_view by (auto simp: holding_def)
  have own: "owners (view w) = {k. 0 < c k}" by (simp add: owners_def c)
  have fin: "finite {k. 0 < c k}" using finite_owners [OF ok] own by simp
  have x: "0 \<le> c x" using owned_nonneg [OF ok, of x] c by simp
  have "sum c {k. 0 < c k} = c x + sum c ({k. 0 < c k} - {x})"
  proof (cases "0 < c x")
    case True
    with fin show ?thesis by (simp add: sum.remove)
  next
    case False
    with x show ?thesis by simp
  qed
  with total_owned_owners [OF ok] own c fin x show ?thesis by simp
qed

text \<open>
  With fewer than \<open>d\<close> other owners, one move from the fattest primary fills the new one, and that
  primary keeps some slots.
\<close>

lemma fill_shard_exact:
  assumes order: "order_ok r" and snap: "snapshot c D idx" and h: "holding c D w" and x: "x \<in> D"
    and need: "0 < p - c x" and total: "d * p \<le> total_owned (view w)"
    and few: "int (card ({k. 0 < c k} - {x})) \<le> d - 1" and fuel: "0 < fuel"
  shows "\<exists>src w'. run_state (fill_shard r cr i x fuel (p - c x) idx) w = (Inr (), w') \<and>
    src \<noteq> x \<and> p < c src \<and> holding (c(src := c src - (p - c x), x := p)) D w' \<and>
    total_owned (view w') = total_owned (view w)"
proof -
  note tot = holding_total [OF h, of x]
  obtain k where k: "0 < c k" "k \<noteq> x" "p < c k"
    using above_share [of "{k. 0 < c k} - {x}" d x p c] few total need tot by auto
  obtain ord where ord: "run_state (map_order r idx) w = (ord, w)" "set ord = set idx"
    using order_okE [OF order] by (metis surj_pair)
  obtain src m where src: "fattestPrimary ord x = (src, m)" by fastforce
  obtain nk where nk: "(k, nk) \<in> set idx" "IsPrimary nk" "SlotCount nk = c k"
    using snapshot_owner [OF snap, of k] k(1) snap by (auto simp: snapshot_def)
  then have pm: "p < m" using fattestPrimary_result [OF src] k ord(2) by fastforce
  then obtain n where n: "(src, n) \<in> set idx" "src \<noteq> x" "SlotCount n = m"
    using fattestPrimary_result [OF src] need tot ord(2) by auto
  then have csrc: "c src = m" and known: "map_of idx src = Some n" using snap by (auto simp: snapshot_def)
  with pm need tot have src_D: "src \<noteq> []" "src \<in> dom (view w)"
    using snap h by (auto simp: snapshot_def view_ok_def holding_def intro!: owned_pos_known)
  obtain q err w1 where mv: "run_state (aMoveSlots (Admin r) (seed cr) src x (p - c x)) w = ((q, err), w1)"
    by (metis surj_pair)
  have err: "err = None" using MoveSlots_returns [of "seed cr" src x "p - c x" w] mv by simp
  have inv: "inv w" and cw: "owned (view w) = c" and D: "D \<subseteq> dom (view w)" using h by (auto simp: holding_def)
  note law = MoveSlots [OF inv _ n(2) mv]
  have q: "q = p - c x" using law err src_D(2) x D need cw csrc pm tot by auto
  have h1: "holding (c(src := c src - (p - c x), x := p)) D w1"
    using law q need cw D by (auto simp: holding_def)
  obtain s w2 where rd: "run_state (aState (Admin r) (seed cr)) w1 = (Inr s, w2)"
    using State_returns unfolding returns_def by blast
  have h2: "holding (c(src := c src - (p - c x), x := p)) D w2"
    using State [OF _ rd] h1 by (auto simp: holding_def)
  obtain f where f: "fuel = Suc f" using fuel by (cases fuel) auto
  have "\<not> m < p - c x" using pm tot by auto
  then have "run_state (fill_shard r cr i x fuel (p - c x) idx) w = (Inr (), w2)"
    using need ord(1) src src_D(1) pm mv err q rd tot
    by (simp add: f fill_shard.simps [of r cr i x "Suc f"] fill_shard.simps [of r cr i x f 0] run_bindE)
  moreover have "total_owned (view w2) = total_owned (view w)"
    using MoveSlots_total [OF inv _ n(2) mv] need State [OF _ rd] h1 by (simp add: holding_def)
  ultimately show ?thesis using h2 n(2) csrc pm by blast
qed

lemma fill_new_exact:
  assumes order: "order_ok r" and h: "holding c D w" and x: "pod i 0 \<in> D"
    and total: "d * p \<le> total_owned (view w)"
    and few: "int (card ({k. 0 < c k} - {pod i 0})) \<le> d - 1"
  shows "\<exists>c' w'. run_state (fill_new r cr p i) w = (Inr (), w') \<and> holding c' D w' \<and>
    fed p (pod i 0) c c' \<and> total_owned (view w') = total_owned (view w)"
proof -
  obtain res w1 where my: "run_state (aMyID (Admin r) (endpoint cr i 0)) w = (res, w1)" by fastforce
  have "inv w" using h by (simp add: holding_def)
  note law = MyID [OF this pod_ident my]
  then have res: "res = Inr (pod i 0)" using all_up by (cases res) auto
  have h1: "holding c D w1" using law h holding_grown by blast
  obtain s w2 where rd: "run_state (aState (Admin r) (seed cr)) w1 = (Inr s, w2)"
    using State_returns unfolding returns_def by blast
  have inv1: "inv w1" using h1 by (simp add: holding_def)
  note law2 = State [OF inv1 rd]
  have h2: "holding c D w2" using law2 h1 by (simp add: holding_def)
  have "map_of (byID s) = view w2" using law2 byID_node_map by simp
  then have snap: "snapshot c D (byID s)"
    using h2 inv_view distinct_byID by (simp add: snapshot_def holding_def)
  have cnt: "SlotCount (index_or zero_NodeInfo (byID s) k) = c k" for k
    using snap by (auto simp: snapshot_def owned_def index_or_def split: option.splits)
  have tot: "total_owned (view w2) = total_owned (view w)"
    using law2 h1 h by (metis total_same holding_def)
  have run: "run_state (fill_new r cr p i) w =
      run_state (fill_shard r cr i (pod i 0) (nat (p - c (pod i 0))) (p - c (pod i 0)) (byID s)) w2"
    using my res rd cnt by (simp add: fill_new_def pod_ident run_bindE Let_def)
  show ?thesis
  proof (cases "p \<le> c (pod i 0)")
    case True
    then have "run_state (fill_new r cr p i) w = (Inr (), w2)"
      unfolding run by (simp add: fill_shard.simps)
    with True h2 tot show ?thesis by (auto simp: fed_def)
  next
    case False
    then show ?thesis
      using fill_shard_exact [OF order snap h2 x, of p d "nat (p - c (pod i 0))" i] total few tot
      unfolding run fed_def by fastforce
  qed
qed

text \<open>The loop over the new shards \<open>a .. d - 1\<close>.\<close>

lemma fill_all:
  assumes order: "order_ok r" and share: "d * p \<le> T"
  shows "0 \<le> a \<Longrightarrow> a \<le> d \<Longrightarrow> holding c D w \<Longrightarrow> total_owned (view w) = T \<Longrightarrow> int (card {k. 0 < c k}) \<le> a \<Longrightarrow>
    handed_out p c0 ((\<lambda>i. pod i 0) ` {a0..<a}) c \<Longrightarrow> 0 \<le> a0 \<and> a0 \<le> a \<Longrightarrow> (\<lambda>i. pod i 0) ` {a..<d} \<subseteq> D \<Longrightarrow>
    \<exists>c' w'. run_state (forE [a..d - 1] (fill_new r cr p)) w = (Inr (), w') \<and> holding c' D w' \<and>
      total_owned (view w') = T \<and> int (card {k. 0 < c' k}) \<le> d \<and>
      handed_out p c0 ((\<lambda>i. pod i 0) ` {a0..<d}) c'"
proof (induction "nat (d - a)" arbitrary: a c w)
  case 0
  then show ?case by auto
next
  case (Suc n)
  then have a: "a < d" "0 \<le> a" by simp_all
  have list: "[a..d - 1] = a # [a + 1..d - 1]" using a by (simp add: upto.simps)
  note tot = holding_total [OF Suc.prems(3)]
  have "int (card ({k. 0 < c k} - {pod a 0})) \<le> d - 1"
    using Suc.prems(5) a card_Diff1_le [of "{k. 0 < c k}" "pod a 0"] by linarith
  moreover have "pod a 0 \<in> D" using Suc.prems(8) a by auto
  ultimately obtain c1 w1 where step: "run_state (fill_new r cr p a) w = (Inr (), w1)" "holding c1 D w1"
      "fed p (pod a 0) c c1" "total_owned (view w1) = T"
    using fill_new_exact [OF order Suc.prems(3), of a d p] Suc.prems(4) share by auto
  have new: "pod a 0 \<notin> (\<lambda>i. pod i 0) ` {a0..<a}"
  proof
    assume "pod a 0 \<in> (\<lambda>i. pod i 0) ` {a0..<a}"
    then obtain b where b: "a0 \<le> b" "b < a" "pod a 0 = pod b 0" by auto
    then have "a = b" using pod_inj [of a 0 b 0] a Suc.prems(7) by simp
    with b show False by simp
  qed
  have "{a0..<a + 1} = insert a {a0..<a}" using Suc.prems(7) by auto
  then have out: "handed_out p c0 ((\<lambda>i. pod i 0) ` {a0..<a + 1}) c1"
    using fed_handed_out [OF Suc.prems(6) new step(3)] tot by simp
  have few: "int (card {k. 0 < c1 k}) \<le> a + 1"
  proof -
    have "card {k. 0 < c1 k} \<le> card {k. 0 < c k} + 1" using fed_owners [OF step(3)] tot by blast
    with Suc.prems(5) show ?thesis by linarith
  qed
  have "n = nat (d - (a + 1))" using Suc.hyps(2) by simp
  then have "\<exists>c' w'. run_state (forE [a + 1..d - 1] (fill_new r cr p)) w1 = (Inr (), w') \<and> holding c' D w' \<and>
      total_owned (view w') = T \<and> int (card {k. 0 < c' k}) \<le> d \<and>
      handed_out p c0 ((\<lambda>i. pod i 0) ` {a0..<d}) c'"
    using Suc.prems(7,8) a by (intro Suc.hyps(1) [OF _ _ _ step(2,4) few out]) auto
  then show ?case unfolding list by (simp add: run_bindE step(1))
qed

end

end
