(* ===== verification/Scale_Out.thy ===== *)
theory Scale_Out
  imports Scale_Filling
begin

text \<open>
  \<^verbatim>\<open>scaleOut\<close> as a whole, against an admin that keeps its contract.
\<close>

section \<open>Which pods serve\<close>

text \<open>The node IDs of ordinals \<open>0..R\<close> of the shards of a set.\<close>

definition pods :: "(int \<Rightarrow> int \<Rightarrow> string) \<Rightarrow> int \<Rightarrow> int set \<Rightarrow> string set" where
  "pods pod R I = (\<Union>i \<in> I. pod i ` {0..R})"

text \<open>Shard \<open>i\<close> of the first \<open>n\<close> is served by its ordinal \<open>pr i\<close>, and nothing else owns a slot.\<close>

definition serving :: "(int \<Rightarrow> int \<Rightarrow> string) \<Rightarrow> int \<Rightarrow> int \<Rightarrow> (int \<Rightarrow> int) \<Rightarrow> (string \<Rightarrow> int) \<Rightarrow> bool" where
  "serving pod R n pr c \<longleftrightarrow>
     (\<forall>i \<in> {0..<n}. pr i \<in> {0..R}) \<and> {k. 0 < c k} = (\<lambda>i. pod i (pr i)) ` {0..<n}"

lemma podsI: "i \<in> I \<Longrightarrow> 0 \<le> j \<Longrightarrow> j \<le> R \<Longrightarrow> pod i j \<in> pods pod R I"
  by (fastforce simp: pods_def)

lemma pods_Un: "pods pod R (I \<union> J) = pods pod R I \<union> pods pod R J"
  by (auto simp: pods_def)

lemma serving_ord: "serving pod R n pr c \<Longrightarrow> 0 \<le> i \<Longrightarrow> i < n \<Longrightarrow> 0 \<le> pr i \<and> pr i \<le> R \<and> 0 < c (pod i (pr i))"
  unfolding serving_def by fastforce

context reliable
begin

lemma serving_owner:
  assumes "serving pod (nReplicas cr) n pr c" and "0 \<le> i" and "0 \<le> j"
  shows "0 < c (pod i j) \<longleftrightarrow> i < n \<and> j = pr i"
proof
  assume "0 < c (pod i j)"
  then have "pod i j \<in> (\<lambda>i. pod i (pr i)) ` {0..<n}" using assms(1) by (auto simp: serving_def)
  then obtain b where b: "0 \<le> b" "b < n" "pod i j = pod b (pr b)" by auto
  with serving_ord [OF assms(1) b(1,2)] pod_inj [OF assms(2,3) b(1) _ b(3)] show "i < n \<and> j = pr i" by auto
next
  assume "i < n \<and> j = pr i"
  with serving_ord [OF assms(1,2)] show "0 < c (pod i j)" by simp
qed

lemma serving_lone: "serving pod (nReplicas cr) n pr c \<Longrightarrow> 0 \<le> i \<Longrightarrow> lone_owner c i"
  using serving_owner by (auto simp: lone_owner_def)

lemma serving_inj:
  assumes "serving pod (nReplicas cr) n pr c"
  shows "inj_on (\<lambda>i. pod i (pr i)) {0..<n}"
proof (rule inj_onI)
  fix x y assume "x \<in> {0..<n}" "y \<in> {0..<n}" "pod x (pr x) = pod y (pr y)"
  with pod_inj [of x "pr x" y "pr y"] serving_ord [OF assms, of x] serving_ord [OF assms, of y]
  show "x = y" by auto
qed

lemma serving_card: "serving pod (nReplicas cr) n pr c \<Longrightarrow> 0 \<le> n \<Longrightarrow> int (card {k. 0 < c k}) = n"
  using card_image [OF serving_inj, of n pr c] by (simp add: serving_def)

lemma handed_out_serving:
  assumes "serving pod (nReplicas cr) a pr c" and "handed_out p c ((\<lambda>i. pod i 0) ` {a..<d}) c'"
    and "0 < p" and "0 \<le> a" and "a \<le> d" and "0 \<le> nReplicas cr"
    and "\<And>k. 0 \<le> c k"
  shows "serving pod (nReplicas cr) d (\<lambda>i. if i < a then pr i else 0) c'"
proof -
  have fresh: "c (pod i 0) = 0" if "a \<le> i" for i
    using serving_owner [OF assms(1), of i 0] assms(4) assms(7) [of "pod i 0"] that by force
  have "0 < c' (pod i 0)" if "a \<le> i" "i < d" for i
    using assms(2,3) fresh that by (auto simp: handed_out_def)
  then have "{k. 0 < c' k} = {k. 0 < c k} \<union> (\<lambda>i. pod i 0) ` {a..<d}"
    using assms(2) unfolding handed_out_def by auto
  also have "\<dots> = (\<lambda>i. pod i (pr i)) ` {0..<a} \<union> (\<lambda>i. pod i 0) ` {a..<d}"
    using assms(1) by (simp add: serving_def)
  also have "\<dots> = (\<lambda>i. pod i (if i < a then pr i else 0)) ` ({0..<a} \<union> {a..<d})"
    unfolding image_Un by (intro arg_cong2 [where f = "(\<union>)"] image_cong) auto
  also have "{0..<a} \<union> {a..<d} = {0..<d}" using assms(4,5) by auto
  finally show ?thesis using assms(1,6) by (simp add: serving_def)
qed

lemma Meet_grow:
  assumes "holding c D w"
  shows "\<exists>w'. run_state (aMeet (Admin r) (seed cr) (endpoint cr i j)) w = (Inr (), w') \<and>
    holding c (D \<union> {pod i j}) w'"
proof -
  obtain w' where run: "run_state (aMeet (Admin r) (seed cr) (endpoint cr i j)) w = (Inr (), w')"
    using Meet_returns unfolding returns_def by (metis old.unit.exhaust)
  have "inv w" using assms by (simp add: holding_def)
  from Meet [OF this _ pod_ident run] have "inv w' \<and> grown (view w) (view w') \<and> pod i j \<in> dom (view w')"
    by (simp add: seed_def pod_ident)
  with assms holding_grown [OF assms, of w'] run show ?thesis by (auto simp: holding_def)
qed

lemma forE_grow:
  assumes "\<And>x D w. x \<in> set xs \<Longrightarrow> holding c D w \<Longrightarrow> \<exists>w'. run_state (f x) w = (Inr (), w') \<and> holding c (D \<union> g x) w'"
  shows "holding c D w \<Longrightarrow> \<exists>w'. run_state (forE xs f) w = (Inr (), w') \<and> holding c (D \<union> (\<Union>x \<in> set xs. g x)) w'"
  using assms
proof (induction xs arbitrary: D w)
  case (Cons x xs)
  obtain w1 where w1: "run_state (f x) w = (Inr (), w1)" "holding c (D \<union> g x) w1"
    using Cons.prems by (meson list.set_intros(1))
  have "\<exists>w'. run_state (forE xs f) w1 = (Inr (), w') \<and> holding c ((D \<union> g x) \<union> (\<Union>x \<in> set xs. g x)) w'"
    using Cons.prems(2) by (intro Cons.IH [OF w1(2)]) simp
  with w1(1) show ?case by (simp add: run_bindE Un_assoc)
qed simp

lemma meet_all:
  assumes "holding c D w"
  shows "\<exists>w'. run_state (forE is (meet_shard r cr)) w = (Inr (), w') \<and>
    holding c (D \<union> (\<Union>i \<in> set is. \<Union>j \<in> {0..nReplicas cr}. {pod i j})) w'"
proof -
  have "\<exists>w'. run_state (meet_shard r cr i) w = (Inr (), w') \<and> holding c (D \<union> (\<Union>j \<in> set [0..nReplicas cr]. {pod i j})) w'"
    if "holding c D w" for i D w
    unfolding meet_shard_def using Meet_grow by (intro forE_grow [OF _ that]) blast
  then have "holding c D w \<Longrightarrow> \<exists>w'. run_state (meet_shard r cr i) w = (Inr (), w') \<and>
      holding c (D \<union> (\<Union>j \<in> {0..nReplicas cr}. {pod i j})) w'" for i D w
    by simp
  then show ?thesis by (intro forE_grow [OF _ assms]) blast
qed

lemma returns_attachReplicas: "returns (attachReplicas r cr st)"
proof -
  have "returns (attach_pod r cr idx p ord i j)" for idx p ord i j
    unfolding attach_pod_def Let_def
    by (auto intro!: returns_retE returns_bind returns_wrapE Replicate_returns split: sum.split)
  then have "returns (attach_shard r cr idx i)" for idx i
    unfolding attach_shard_def by (auto intro!: returns_bind returns_retE returns_forE)
  then show ?thesis unfolding attachReplicas_def by (rule returns_forE)
qed

lemma attachReplicas_exact:
  assumes "holding c D w" and "map_of (byID st) = view w"
    and "\<And>i. 0 \<le> i \<Longrightarrow> i < nShards cr \<Longrightarrow> lone_owner c i"
  shows "\<exists>w'. run_state (attachReplicas r cr st) w = (Inr (), w') \<and> holding c D w'"
proof -
  obtain w' where run: "run_state (attachReplicas r cr st) w = (Inr (), w')"
    using returns_attachReplicas unfolding returns_def by (metis old.unit.exhaust)
  have "snapshot c D (byID st)"
    using assms(1,2) inv_view distinct_byID by (simp add: snapshot_def holding_def)
  from attachReplicas_triple [OF this assms(3)] have "triple (holding c D) (attachReplicas r cr st) (held c D)" .
  from tripleD [OF this assms(1) run] run show ?thesis by auto
qed

lemma State_exact:
  assumes "holding c D w"
  shows "\<exists>st w'. run_state (aState (Admin r) ep) w = (Inr st, w') \<and> holding c D w' \<and> view w' = view w \<and>
    map_of (byID st) = view w'"
proof -
  obtain st w' where run: "run_state (aState (Admin r) ep) w = (Inr st, w')"
    using State_returns unfolding returns_def by blast
  have "inv w" using assms by (simp add: holding_def)
  from State [OF this run] assms run show ?thesis using byID_node_map by (auto simp: holding_def)
qed

lemma holding_nonneg: "holding c D w \<Longrightarrow> 0 \<le> c k"
  using inv_view owned_nonneg by (auto simp: holding_def)

text \<open>
  \<^verbatim>\<open>scaleOut\<close> up to its last call of \<^verbatim>\<open>attachReplicas\<close>: the new pods have joined, the state \<open>st\<close> it
  passes on is the current one, and every new shard's ordinal 0 owns the share.
\<close>

lemma scaleOut_filled:
  assumes order: "order_ok r" and h: "holding c D w" and total: "total_owned (view w) = TotalSlots"
    and serv: "serving pod (nReplicas cr) old pr c"
    and old: "0 \<le> old" "old \<le> nShards cr" "0 < nShards cr" and R: "0 \<le> nReplicas cr"
  shows "\<exists>c' st w'. run_state (scaleOut r cr old) w = run_state (attachReplicas r cr st) w' \<and>
    map_of (byID st) = view w' \<and> holding c' (D \<union> pods pod (nReplicas cr) {old..<nShards cr}) w' \<and>
    total_owned (view w') = TotalSlots \<and>
    handed_out (TotalSlots div nShards cr) c ((\<lambda>i. pod i 0) ` {old..<nShards cr}) c'"
proof -
  let ?d = "nShards cr" and ?p = "TotalSlots div nShards cr"
  let ?D = "D \<union> pods pod (nReplicas cr) {old..<?d}"
  have "set [old..?d - 1] = {old..<?d}" by auto
  then have D: "D \<union> (\<Union>i \<in> set [old..?d - 1]. \<Union>j \<in> {0..nReplicas cr}. {pod i j}) = ?D"
    by (auto simp: pods_def)
  obtain w1 where w1: "run_state (forE [old..?d - 1] (meet_shard r cr)) w = (Inr (), w1)" "holding c ?D w1"
    using meet_all [OF h, of "[old..?d - 1]"] unfolding D by blast
  obtain st w2 where w2: "run_state (aState (Admin r) (seed cr)) w1 = (Inr st, w2)" "holding c ?D w2"
      "map_of (byID st) = view w2" using State_exact [OF w1(2)] by blast
  obtain w3 where w3: "run_state (attachReplicas r cr st) w2 = (Inr (), w3)" "holding c ?D w3"
    using attachReplicas_exact [OF w2(2,3) serving_lone [OF serv]] by blast
  have tot3: "total_owned (view w3) = TotalSlots" using total_same [of w w3] total h w3(2) by (simp add: holding_def)
  have share: "?d * ?p \<le> TotalSlots"
    using old(3) pos_mod_sign [of ?d TotalSlots] mult_div_mod_eq [of ?d TotalSlots] by linarith
  have start: "handed_out ?p c ((\<lambda>i. pod i 0) ` {old..<old}) c" by (simp add: handed_out_def)
  have few: "int (card {k. 0 < c k}) \<le> old" using serving_card [OF serv old(1)] by simp
  have "(\<lambda>i. pod i 0) ` {old..<?d} \<subseteq> ?D" using R by (auto intro!: podsI)
  then obtain c' w4 where w4: "run_state (forE [old..?d - 1] (fill_new r cr ?p)) w3 = (Inr (), w4)"
      "holding c' ?D w4" "total_owned (view w4) = TotalSlots"
      "handed_out ?p c ((\<lambda>i. pod i 0) ` {old..<?d}) c'"
    using fill_all [OF order share old(1,2) w3(2) tot3 few start] old(1) by blast
  obtain st' w5 where w5: "run_state (aState (Admin r) (seed cr)) w4 = (Inr st', w5)" "holding c' ?D w5"
      "view w5 = view w4" "map_of (byID st') = view w5" using State_exact [OF w4(2)] by blast
  have "TotalSlots sdiv ?d = ?p" using old(3) by (simp add: sdiv_nonneg TotalSlots_def)
  then have "run_state (scaleOut r cr old) w = run_state (attachReplicas r cr st') w5"
    using old(3) w1(1) w2(1) w3(1) w4(1) w5(1) by (simp add: scaleOut_def Let_def run_bindE)
  then show ?thesis using w4(3,4) w5(2-4) by metis
qed

end

end
