(* ===== verification/Reconcile.thy ===== *)
theory Reconcile
  imports Scaling
begin

text \<open>
  \<^verbatim>\<open>internal/controller/reconcile.go\<close> and \<^verbatim>\<open>valkeycluster_controller.go\<close>: one pass of observe,
  decide, act and publish, and the reconcile entry point around it.
\<close>

section \<open>Observe, decide, act\<close>

text \<open>\<^verbatim>\<open>dist[i]\<close>, which panics out of range.\<close>

definition index_ranges :: "SlotRange list \<Rightarrow> int \<Rightarrow> error + SlotRange" where
  "index_ranges rs i =
     (if 0 \<le> i \<and> i < int (length rs) then Inr (rs ! nat i) else Inl (Panic ''index out of range''))"

text \<open>The bodies of the two loops of \<^verbatim>\<open>formCluster\<close>.\<close>

definition form_meet :: "'w Reconciler \<Rightarrow> ValkeyCluster \<Rightarrow> Endpoint \<Rightarrow> ('w, unit) ioE" where
  "form_meet r cr ep =
     (if epHost ep = epHost (seed cr) then retE ()
      else wrapE (\<lambda>e. Errorf (''meet '' @ epHost ep) (Some e)) (aMeet (Admin r) (seed cr) ep))"

definition form_addslots :: "'w Reconciler \<Rightarrow> ValkeyCluster \<Rightarrow> SlotRange list \<Rightarrow> int \<Rightarrow> ('w, unit) ioE" where
  "form_addslots r cr dist i =
     (case index_ranges dist i of
        Inl e \<Rightarrow> failE e
      | Inr rng \<Rightarrow>
          wrapE (\<lambda>e. Errorf (''addslots shard '' @ Itoa i) (Some e)) (aAddSlots (Admin r) (endpoint cr i 0) [rng]))"

definition formCluster :: "'w Reconciler \<Rightarrow> ValkeyCluster \<Rightarrow> ('w, unit) ioE" where
  "formCluster r cr =
     bindE (forE (allEndpoints cr) (form_meet r cr)) (\<lambda>_.
     let dist = Distribute (nShards cr) in
     bindE (forE [0..nShards cr - 1] (form_addslots r cr dist)) (\<lambda>_.
     bindE (aState (Admin r) (seed cr)) (\<lambda>st.
     attachReplicas r cr st)))"

definition decide :: "ValkeyCluster \<Rightarrow> ClusterState \<Rightarrow> Plan" where
  "decide cr st = Decide \<lparr>dShards = nShards cr, dReplicasPerShard = nReplicas cr\<rparr> (summarize st)"

text \<open>The plan after the check for departing StatefulSets.\<close>

definition final_plan :: "'w Reconciler \<Rightarrow> ValkeyCluster \<Rightarrow> Plan \<Rightarrow> ('w, Plan) ioE" where
  "final_plan r cr plan =
     (if Kind plan \<noteq> ActionForm \<and> Kind plan \<noteq> ActionScaleOutShards
      then bindE (hasExcessShardStatefulSets r cr) (\<lambda>excess.
             retE (if excess then plan_of ActionScaleInShards else plan))
      else retE plan)"

definition in_flight :: "ActionKind \<Rightarrow> bool" where
  "in_flight k \<longleftrightarrow> k = ActionForm \<or> k = ActionRepair \<or> k = ActionScaleOutShards \<or> k = ActionScaleInShards"

definition act :: "'w Reconciler \<Rightarrow> ValkeyCluster \<Rightarrow> ClusterState \<Rightarrow> ActionKind \<Rightarrow> ('w, unit) ioE" where
  "act r cr st k =
     (case k of
        ActionForm \<Rightarrow>
          bindE (ignoreE (setPhase r cr PhaseForming ''Forming'' ''bootstrapping cluster'')) (\<lambda>_. formCluster r cr)
      | ActionRepair \<Rightarrow>
          bindE (ignoreE (setPhase r cr PhaseResharding ''Repairing'' ''fixing open slots'')) (\<lambda>_.
          State_Monad.bind (aRepairSlots (Admin r) (seed cr)) (\<lambda>_. retE ()))
      | ActionScaleOutShards \<Rightarrow>
          bindE (ignoreE (setPhase r cr PhaseResharding ''Resharding'' ''adding shards'')) (\<lambda>_.
          scaleOut r cr (oPrimaryCount (summarize st)))
      | ActionScaleInShards \<Rightarrow>
          bindE (ignoreE (setPhase r cr PhaseResharding ''Resharding'' ''removing shards'')) (\<lambda>_. scaleIn r cr)
      | ActionScaleReplicas \<Rightarrow>
          bindE (ignoreE (setPhase r cr PhaseScalingReplicas ''ScalingReplicas'' ''adjusting replicas'')) (\<lambda>_.
          reconcileMembership r cr st)
      | ActionNone \<Rightarrow> reconcileMembership r cr st)"

text \<open>The result is \<^verbatim>\<open>progressing\<close> together with the error of the last call, as in the source.\<close>

definition reconcileCluster :: "'w Reconciler \<Rightarrow> ValkeyCluster \<Rightarrow> ('w, bool) ioE" where
  "reconcileCluster r cr =
     bindE (wrapE (\<lambda>e. Errorf ''observe cluster'' (Some e)) (aState (Admin r) (seed cr))) (\<lambda>st.
     bindE (final_plan r cr (decide cr st)) (\<lambda>plan.
     bindE (act r cr st (Kind plan)) (\<lambda>_.
     bindE (wrapE (\<lambda>e. Errorf ''observe cluster (post-action)'' (Some e)) (aState (Admin r) (seed cr))) (\<lambda>st'.
     bindE (updateStatus r cr st') (\<lambda>_.
     retE (in_flight (Kind plan)))))))"

section \<open>The entry point\<close>

definition finalizer :: string where
  "finalizer = ''cache.razkevich.dev/finalizer''"

text \<open>Durations in nanoseconds.\<close>

definition requeueAfter :: int where
  "requeueAfter = 15 * 1000000000"

definition reshardRequeue :: int where
  "reshardRequeue = 1 * 1000000000"

text \<open>\<^verbatim>\<open>ctrl.Result\<close> (the requeue delay, zero for none) and the returned error.\<close>

type_synonym outcome = "int \<times> error option"

definition reconcileDelete :: "'w Reconciler \<Rightarrow> ValkeyCluster \<Rightarrow> ('w, outcome) io" where
  "reconcileDelete r cr =
     (if ContainsFinalizer (kube r) cr finalizer then
        State_Monad.bind (deleteOwnedPVCs r cr) (\<lambda>res. case res of
          Inl e \<Rightarrow> ret (0, Some e)
        | Inr _ \<Rightarrow>
            State_Monad.bind (UpdateVC (kube r) (RemoveFinalizer (kube r) cr finalizer)) (\<lambda>res. case res of
              Inl e \<Rightarrow> ret (0, Some e)
            | Inr _ \<Rightarrow> ret (0, None)))
      else ret (0, None))"

text \<open>A panic is not an error value: it leaves the function instead of being logged.\<close>

definition run_cluster :: "'w Reconciler \<Rightarrow> ValkeyCluster \<Rightarrow> ('w, outcome) io" where
  "run_cluster r cr =
     State_Monad.bind (reconcileCluster r cr) (\<lambda>res. case res of
       Inl e \<Rightarrow> ret (if is_abort e then (0, Some e) else (requeueAfter, None))
     | Inr progressing \<Rightarrow> ret (if progressing then reshardRequeue else requeueAfter, None))"

definition reconcile_live :: "'w Reconciler \<Rightarrow> ValkeyCluster \<Rightarrow> ('w, outcome) io" where
  "reconcile_live r cr =
     State_Monad.bind
       (bindE (ensureConfigMap r cr) (\<lambda>_.
        bindE (ensureHeadlessService r cr) (\<lambda>_.
        bindE (ensureStatefulSets r cr) (\<lambda>_.
        shardsReady r cr)))) (\<lambda>res. case res of
       Inl e \<Rightarrow> ret (0, Some e)
     | Inr False \<Rightarrow>
         State_Monad.bind (setPhase r cr PhaseProvisioning ''Provisioning'' ''waiting for shard pods'') (\<lambda>_.
         ret (requeueAfter, None))
     | Inr True \<Rightarrow> run_cluster r cr)"

definition Reconcile :: "'w Reconciler \<Rightarrow> NamespacedName \<Rightarrow> ('w, outcome) io" where
  "Reconcile r req =
     State_Monad.bind (GetVC (kube r) req) (\<lambda>res. case res of
       Inl e \<Rightarrow> ret (0, IgnoreNotFound (kube r) e)
     | Inr cr \<Rightarrow>
         if \<not> Time_IsZero (mDeletionTimestamp (Meta cr)) then reconcileDelete r cr
         else if \<not> ContainsFinalizer (kube r) cr finalizer then
           State_Monad.bind (UpdateVC (kube r) (AddFinalizer (kube r) cr finalizer)) (\<lambda>res. case res of
             Inl e \<Rightarrow> ret (0, Some e)
           | Inr cr' \<Rightarrow> reconcile_live r cr')
         else reconcile_live r cr)"

end
