(* ===== verification/Attachment.thy ===== *)
theory Attachment
  imports Scale_Out Reconcile
begin

text \<open>
  What the controller reaches on a cluster whose reported state follows each command at once:
  after forming or scaling out every shard has one serving primary, every other pod replicates
  its shard's primary, and the planner has nothing left to do.
\<close>

section \<open>Arranged clusters\<close>

definition arranged :: "(int \<Rightarrow> int \<Rightarrow> string) \<Rightarrow> int \<Rightarrow> int \<Rightarrow> (int \<Rightarrow> int) \<Rightarrow> node_view \<Rightarrow> bool" where
  "arranged pod R n pr v \<longleftrightarrow>
     serving pod R n pr (owned v) \<and> dom v = pods pod R {0..<n} \<and>
     (\<forall>i \<in> {0..<n}. \<forall>j \<in> {0..R}. j \<noteq> pr i \<longrightarrow>
        (\<exists>nd. v (pod i j) = Some nd \<and> MasterID nd = pod i (pr i)))"

section \<open>Counting the nodes of a state\<close>

lemma length_filter_view:
  assumes "distinct (map ID (Nodes st))"
  shows "length (filter P (Nodes st)) = card {k. \<exists>n. node_map st k = Some n \<and> P n}"
proof -
  have "{k. \<exists>n. node_map st k = Some n \<and> P n} = set (map ID (filter P (Nodes st)))"
    using assms unfolding node_map_def
    by (auto simp: map_of_eq_Some_iff comp_def image_iff)
  moreover have "distinct (map ID (filter P (Nodes st)))"
    using assms by (rule distinct_map_filter)
  ultimately show ?thesis by (metis distinct_card length_map)
qed

lemma count_replica_fold:
  "index_or 0 (fold count_replica ns m) k =
     index_or 0 m k + int (length (filter (\<lambda>n. \<not> IsPrimary n \<and> MasterID n \<noteq> [] \<and> MasterID n = k) ns))"
  by (induction ns arbitrary: m) (auto simp: count_replica_def index_or_def)

lemma replica_count:
  assumes "k \<noteq> []"
  shows "index_or 0 (fold count_replica ns []) k = int (length (filter (\<lambda>n. \<not> IsPrimary n \<and> MasterID n = k) ns))"
proof -
  have "filter (\<lambda>n. \<not> IsPrimary n \<and> MasterID n \<noteq> [] \<and> MasterID n = k) ns = filter (\<lambda>n. \<not> IsPrimary n \<and> MasterID n = k) ns"
    using assms by (intro filter_cong) auto
  then show ?thesis by (simp add: count_replica_fold)
qed

section \<open>Direct clusters\<close>

locale direct = reliable r inv view ident up cr
  for r :: "'w Reconciler" and inv view ident up cr +
  assumes replica_role: "inv w \<Longrightarrow> view w k = Some n \<Longrightarrow> MasterID n \<noteq> [] \<Longrightarrow> \<not> IsPrimary n"
    and MyID_quiet: "inv w \<Longrightarrow> ident ep \<in> dom (view w) \<Longrightarrow> run_state (aMyID (Admin r) ep) w = (i, w') \<Longrightarrow>
      view w' = view w"
    and Replicate_sets: "inv w \<Longrightarrow> ident ep \<noteq> [] \<Longrightarrow> run_state (aReplicate (Admin r) ep p) w = (m, w') \<Longrightarrow>
      (\<forall>x. x \<noteq> ident ep \<longrightarrow> view w' x = view w x) \<and> (\<exists>n. view w' (ident ep) = Some n \<and> MasterID n = p)"
    and AddSlots: "inv w \<Longrightarrow> ident ep \<noteq> [] \<Longrightarrow> (\<forall>g \<in> set gs. 0 \<le> range_count g) \<Longrightarrow>
      run_state (aAddSlots (Admin r) ep gs) w = (m, w') \<Longrightarrow>
      m = Inr () \<and> inv w' \<and> dom (view w') = insert (ident ep) (dom (view w)) \<and>
      owned (view w') = (owned (view w))(ident ep := owned (view w) (ident ep) + sum_list (map range_count gs))"
    and reported: "inv w \<Longrightarrow> run_state (aState (Admin r) ep) w = (Inr st, w') \<Longrightarrow>
      (Formed st \<longleftrightarrow> 0 < total_owned (view w)) \<and> (SlotsCovered st \<longleftrightarrow> total_owned (view w) = TotalSlots) \<and>
      \<not> OpenSlots st"
    and dom_State: "run_state (aState (Admin r) ep) w = (s, w') \<Longrightarrow> view w' = view w"
    and dom_MyID: "run_state (aMyID (Admin r) ep) w = (i, w') \<Longrightarrow> dom (view w') \<subseteq> insert (ident ep) (dom (view w))"
    and dom_AddSlots: "run_state (aAddSlots (Admin r) ep gs) w = (m, w') \<Longrightarrow>
      dom (view w') \<subseteq> insert (ident ep) (dom (view w))"
    and dom_Meet: "run_state (aMeet (Admin r) a b) w = (m, w') \<Longrightarrow>
      dom (view w') \<subseteq> insert (ident a) (insert (ident b) (dom (view w)))"
    and dom_Replicate: "run_state (aReplicate (Admin r) ep p) w = (m, w') \<Longrightarrow>
      dom (view w') \<subseteq> insert (ident ep) (dom (view w))"
    and dom_MoveSlots: "run_state (aMoveSlots (Admin r) ep k x num) w = (m', w') \<Longrightarrow> dom (view w') = dom (view w)"
begin

lemma MyID_run:
  assumes "inv w" and "pod i j \<in> dom (view w)"
  shows "\<exists>w'. run_state (aMyID (Admin r) (endpoint cr i j)) w = (Inr (pod i j), w') \<and> inv w' \<and> view w' = view w"
proof -
  obtain res w' where run: "run_state (aMyID (Admin r) (endpoint cr i j)) w = (res, w')" by fastforce
  from MyID [OF assms(1) pod_ident run] MyID_quiet [OF assms run] run all_up show ?thesis
    by (cases res) auto
qed

text \<open>A loop whose rounds touch disjoint parts of the view.\<close>

lemma forE_local:
  assumes "\<And>x w. x \<in> set xs \<Longrightarrow> holding c D w \<Longrightarrow> (\<forall>k \<in> G x. view w k = v k) \<Longrightarrow>
      \<exists>w'. run_state (f x) w = (Inr (), w') \<and> holding c D w' \<and>
        (\<forall>k. k \<notin> G x \<longrightarrow> view w' k = view w k) \<and> P x (view w')"
    and "\<And>x u u'. P x u \<Longrightarrow> (\<forall>k \<in> G x. u' k = u k) \<Longrightarrow> P x u'"
    and "distinct xs" and "\<And>x y. x \<in> set xs \<Longrightarrow> y \<in> set xs \<Longrightarrow> x \<noteq> y \<Longrightarrow> G x \<inter> G y = {}"
    and "holding c D w" and "\<And>x k. x \<in> set xs \<Longrightarrow> k \<in> G x \<Longrightarrow> view w k = v k"
  shows "\<exists>w'. run_state (forE xs f) w = (Inr (), w') \<and> holding c D w' \<and>
    (\<forall>k. k \<notin> (\<Union>x \<in> set xs. G x) \<longrightarrow> view w' k = view w k) \<and> (\<forall>x \<in> set xs. P x (view w'))"
  using assms
proof (induction xs arbitrary: w)
  case (Cons x xs)
  obtain w1 where w1: "run_state (f x) w = (Inr (), w1)" "holding c D w1"
      "\<And>k. k \<notin> G x \<Longrightarrow> view w1 k = view w k" "P x (view w1)"
    using Cons.prems(1) [of x w] Cons.prems(5,6) by (metis list.set_intros(1))
  have disj: "G x \<inter> G y = {}" if "y \<in> set xs" for y
    using Cons.prems(3) Cons.prems(4) [of x y] that by auto
  have "\<exists>w'. run_state (forE xs f) w1 = (Inr (), w') \<and> holding c D w' \<and>
    (\<forall>k. k \<notin> (\<Union>x \<in> set xs. G x) \<longrightarrow> view w' k = view w1 k) \<and> (\<forall>x \<in> set xs. P x (view w'))"
  proof (rule Cons.IH)
    show "view w1 k = v k" if "y \<in> set xs" "k \<in> G y" for y k
      using w1(3) [of k] disj [OF that(1)] Cons.prems(6) [of y k] that by auto
  qed (use Cons.prems w1 in auto)
  then obtain w' where w': "run_state (forE xs f) w1 = (Inr (), w')" "holding c D w'"
      "\<And>k. k \<notin> (\<Union>x \<in> set xs. G x) \<Longrightarrow> view w' k = view w1 k" "\<And>x. x \<in> set xs \<Longrightarrow> P x (view w')"
    by blast
  have "P x (view w')" using Cons.prems(2) [OF w1(4)] w'(3) disj by blast
  with w1 w' show ?case by (auto simp: run_bindE)
qed simp

section \<open>Attaching replicas\<close>

text \<open>Pod \<open>j\<close> of shard \<open>i\<close> replicates ordinal \<open>ord\<close> of the shard, unless it is that ordinal.\<close>

definition attached :: "int \<Rightarrow> int \<Rightarrow> int \<Rightarrow> node_view \<Rightarrow> bool" where
  "attached i ord j v \<longleftrightarrow> j = ord \<or> (\<exists>n. v (pod i j) = Some n \<and> MasterID n = pod i ord)"

lemma attach_pod_direct:
  assumes h: "holding c D w" and D: "pod i j \<in> D" and idx: "map_of idx (pod i j) = view w (pod i j)"
    and c: "j \<noteq> ord \<Longrightarrow> c (pod i j) = 0"
  shows "\<exists>w'. run_state (attach_pod r cr idx (pod i ord) ord i j) w = (Inr (), w') \<and> holding c D w' \<and>
    (\<forall>k. k \<notin> {pod i j} \<longrightarrow> view w' k = view w k) \<and> attached i ord j (view w')"
proof (cases "j = ord")
  case True
  with h show ?thesis by (simp add: attach_pod_def attached_def)
next
  case False
  have "inv w" "pod i j \<in> dom (view w)" using h D by (auto simp: holding_def)
  then obtain w1 where w1: "run_state (aMyID (Admin r) (endpoint cr i j)) w = (Inr (pod i j), w1)"
      "inv w1" "view w1 = view w" using MyID_run by blast
  have h1: "holding c D w1" using h w1 by (simp add: holding_def)
  show ?thesis
  proof (cases "\<exists>n. view w (pod i j) = Some n \<and> MasterID n = pod i ord")
    case True
    with False w1 h1 show ?thesis by (auto simp: attach_pod_def Let_def idx attached_def)
  next
    case no: False
    obtain u w2 where rep: "run_state (aReplicate (Admin r) (endpoint cr i j) (pod i ord)) w1 = (Inr u, w2)"
      using Replicate_returns unfolding returns_def by blast
    have "triple (holding c D) (aReplicate (Admin r) (endpoint cr i j) (pod i ord)) (held c D)"
      using held_Replicate c False by blast
    from tripleD [OF this h1 rep] Replicate_sets [OF w1(2) pod_ident rep]
    have "holding c D w2 \<and> (\<forall>k. k \<noteq> pod i j \<longrightarrow> view w2 k = view w k) \<and> attached i ord j (view w2)"
      by (auto simp: w1(3) attached_def)
    moreover have "run_state (attach_pod r cr idx (pod i ord) ord i j) w = (Inr (), w2)"
      using False no w1(1) rep
      by (auto simp: attach_pod_def Let_def idx run_wrapE split: option.split)
    ultimately show ?thesis by simp
  qed
qed

lemma find_owner_direct:
  assumes snap: "snapshot c D idx" and "i < n" and "0 \<le> i" and serv: "serving pod (nReplicas cr) n pr c"
  shows "inv w \<Longrightarrow> (\<And>j. j \<in> set js \<Longrightarrow> 0 \<le> j \<and> pod i j \<in> dom (view w)) \<Longrightarrow> pr i \<in> set js \<Longrightarrow>
    \<exists>w'. run_state (find_owner r cr i idx js) w = (Some (pod i (pr i), pr i), w') \<and> inv w' \<and> view w' = view w"
proof (induction js arbitrary: w)
  case (Cons j js)
  have j: "0 \<le> j" "pod i j \<in> dom (view w)" using Cons.prems(2) by simp_all
  then obtain w1 where w1: "run_state (aMyID (Admin r) (endpoint cr i j)) w = (Inr (pod i j), w1)"
      "inv w1" "view w1 = view w" using MyID_run [OF Cons.prems(1)] by blast
  have own: "(\<exists>nd. map_of idx (pod i j) = Some nd \<and> IsPrimary nd \<and> 0 < SlotCount nd) \<longleftrightarrow> j = pr i"
    using snapshot_owner [OF snap, of "pod i j"] serving_owner [OF serv assms(3) j(1)] assms(2) by simp
  show ?case
  proof (cases "j = pr i")
    case True
    with own obtain nd where "map_of idx (pod i j) = Some nd" "IsPrimary nd" "0 < SlotCount nd" by blast
    with True w1 show ?thesis by simp
  next
    case False
    have "\<exists>w'. run_state (find_owner r cr i idx js) w1 = (Some (pod i (pr i), pr i), w') \<and> inv w' \<and> view w' = view w1"
      using Cons.prems False w1 by (intro Cons.IH) auto
    moreover have "run_state (find_owner r cr i idx (j # js)) w = run_state (find_owner r cr i idx js) w1"
      using own False w1(1) by (auto split: option.split)
    ultimately show ?thesis using w1(3) by simp
  qed
qed simp

text \<open>The pods of shard \<open>i\<close>.\<close>

definition shard_pods :: "int \<Rightarrow> string set" where
  "shard_pods i = pod i ` {0..nReplicas cr}"

lemma shard_podsI: "0 \<le> j \<Longrightarrow> j \<le> nReplicas cr \<Longrightarrow> pod i j \<in> shard_pods i"
  by (simp add: shard_pods_def)

lemma shard_pods_disjoint: "0 \<le> i \<Longrightarrow> 0 \<le> b \<Longrightarrow> i \<noteq> b \<Longrightarrow> shard_pods i \<inter> shard_pods b = {}"
  using pod_inj by (fastforce simp: shard_pods_def)

lemma pods_shard_pods: "pods pod (nReplicas cr) I = (\<Union>i \<in> I. shard_pods i)"
  by (simp add: pods_def shard_pods_def)

definition shard_attached :: "(int \<Rightarrow> int) \<Rightarrow> int \<Rightarrow> node_view \<Rightarrow> bool" where
  "shard_attached pr i v \<longleftrightarrow> (\<forall>j \<in> {0..nReplicas cr}. attached i (pr i) j v)"

lemma shard_attached_cong:
  "shard_attached pr i u \<Longrightarrow> (\<forall>k \<in> shard_pods i. u' k = u k) \<Longrightarrow> shard_attached pr i u'"
  by (fastforce simp: shard_attached_def attached_def shard_pods_def)

lemma attach_shard_direct:
  assumes snap: "snapshot c D idx" and i: "0 \<le> i" "i < n" and serv: "serving pod (nReplicas cr) n pr c"
    and h: "holding c D w" and D: "shard_pods i \<subseteq> D" and idx: "\<forall>k \<in> shard_pods i. view w k = map_of idx k"
  shows "\<exists>w'. run_state (attach_shard r cr idx i) w = (Inr (), w') \<and> holding c D w' \<and>
    (\<forall>k. k \<notin> shard_pods i \<longrightarrow> view w' k = view w k) \<and> shard_attached pr i (view w')"
proof -
  let ?js = "[0..nReplicas cr]"
  have inv: "inv w" and dom: "D \<subseteq> dom (view w)" using h by (auto simp: holding_def)
  have "pod i j \<in> dom (view w)" if "j \<in> set ?js" for j
    using that D dom shard_podsI [of j i] by auto
  moreover have pr: "pr i \<in> set ?js" using serving_ord [OF serv i] by simp
  ultimately obtain w1 where w1: "run_state (find_owner r cr i idx ?js) w = (Some (pod i (pr i), pr i), w1)"
      "inv w1" "view w1 = view w"
    using find_owner_direct [OF snap i(2,1) serv inv, of ?js] by auto
  have h1: "holding c D w1" using h w1 by (simp add: holding_def)
  have zero: "c (pod i j) = 0" if "0 \<le> j" "j \<noteq> pr i" for j
    using serving_owner [OF serv i(1) that(1)] that(2) snapshot_nonneg [OF snap, of "pod i j"] by simp
  have "\<exists>w'. run_state (forE ?js (attach_pod r cr idx (pod i (pr i)) (pr i) i)) w1 = (Inr (), w') \<and> holding c D w' \<and>
    (\<forall>k. k \<notin> (\<Union>j \<in> set ?js. {pod i j}) \<longrightarrow> view w' k = view w1 k) \<and> (\<forall>j \<in> set ?js. attached i (pr i) j (view w'))"
  proof (rule forE_local [where v = "map_of idx"])
    fix j w2
    assume j: "j \<in> set ?js" and h2: "holding c D w2" and v: "\<forall>k \<in> {pod i j}. view w2 k = map_of idx k"
    show "\<exists>w'. run_state (attach_pod r cr idx (pod i (pr i)) (pr i) i j) w2 = (Inr (), w') \<and> holding c D w' \<and>
        (\<forall>k. k \<notin> {pod i j} \<longrightarrow> view w' k = view w2 k) \<and> attached i (pr i) j (view w')"
      using j D v zero shard_podsI [of j i] by (intro attach_pod_direct [OF h2]) auto
  next
    fix j b assume "j \<in> set ?js" "b \<in> set ?js" "j \<noteq> b"
    then show "{pod i j} \<inter> {pod i b} = {}" using pod_inj [OF i(1) _ i(1), of j b] by auto
  next
    fix j k assume "j \<in> set ?js" "k \<in> {pod i j}"
    then show "view w1 k = map_of idx k" using idx shard_podsI [of j i] by (simp add: w1(3))
  next
    fix j u u' assume "attached i (pr i) j u" "\<forall>k \<in> {pod i j}. u' k = u k"
    then show "attached i (pr i) j u'" by (simp add: attached_def)
  qed (simp_all add: h1)
  moreover have "run_state (attach_shard r cr idx i) w = run_state (forE ?js (attach_pod r cr idx (pod i (pr i)) (pr i) i)) w1"
    using w1(1) pod_ident by (simp add: attach_shard_def findShardPrimary_def)
  moreover have "(\<Union>j \<in> set ?js. {pod i j}) = shard_pods i" by (auto simp: shard_pods_def)
  ultimately show ?thesis unfolding w1(3) shard_attached_def set_upto by metis
qed

lemma attachReplicas_direct:
  assumes h: "holding c D w" and serv: "serving pod (nReplicas cr) (nShards cr) pr c"
    and D: "pods pod (nReplicas cr) {0..<nShards cr} \<subseteq> D" and st: "map_of (byID st) = view w"
  shows "\<exists>w'. run_state (attachReplicas r cr st) w = (Inr (), w') \<and> holding c D w' \<and>
    (\<forall>k. k \<notin> pods pod (nReplicas cr) {0..<nShards cr} \<longrightarrow> view w' k = view w k) \<and>
    (\<forall>i \<in> {0..<nShards cr}. shard_attached pr i (view w'))"
proof -
  have range: "set [0..nShards cr - 1] = {0..<nShards cr}" by auto
  have snap: "snapshot c D (byID st)"
    using h st inv_view distinct_byID by (simp add: snapshot_def holding_def)
  have "\<exists>w'. run_state (forE [0..nShards cr - 1] (attach_shard r cr (byID st))) w = (Inr (), w') \<and> holding c D w' \<and>
    (\<forall>k. k \<notin> (\<Union>i \<in> set [0..nShards cr - 1]. shard_pods i) \<longrightarrow> view w' k = view w k) \<and>
    (\<forall>i \<in> set [0..nShards cr - 1]. shard_attached pr i (view w'))"
  proof (rule forE_local [where v = "map_of (byID st)"])
    fix i w1
    assume i: "i \<in> set [0..nShards cr - 1]" and h1: "holding c D w1"
      and v: "\<forall>k \<in> shard_pods i. view w1 k = map_of (byID st) k"
    have "shard_pods i \<subseteq> D" using D i unfolding pods_shard_pods by fastforce
    then show "\<exists>w'. run_state (attach_shard r cr (byID st) i) w1 = (Inr (), w') \<and> holding c D w' \<and>
        (\<forall>k. k \<notin> shard_pods i \<longrightarrow> view w' k = view w1 k) \<and> shard_attached pr i (view w')"
      using attach_shard_direct [OF snap _ _ serv h1 _ v] i by simp
  next
    fix i b assume "i \<in> set [0..nShards cr - 1]" "b \<in> set [0..nShards cr - 1]" "i \<noteq> b"
    then show "shard_pods i \<inter> shard_pods b = {}" using shard_pods_disjoint by simp
  qed (simp_all add: h st shard_attached_cong)
  then show ?thesis unfolding attachReplicas_def range pods_shard_pods .
qed

lemma attachReplicas_arranged:
  assumes h: "holding c D w" and serv: "serving pod (nReplicas cr) (nShards cr) pr c"
    and D: "pods pod (nReplicas cr) {0..<nShards cr} \<subseteq> D"
    and dom: "dom (view w) = pods pod (nReplicas cr) {0..<nShards cr}" and st: "map_of (byID st) = view w"
  shows "\<exists>w'. run_state (attachReplicas r cr st) w = (Inr (), w') \<and> holding c D w' \<and>
    arranged pod (nReplicas cr) (nShards cr) pr (view w')"
proof -
  let ?P = "pods pod (nReplicas cr) {0..<nShards cr}"
  obtain w' where w': "run_state (attachReplicas r cr st) w = (Inr (), w')" "holding c D w'"
      "\<And>k. k \<notin> ?P \<Longrightarrow> view w' k = view w k" "\<And>i. i \<in> {0..<nShards cr} \<Longrightarrow> shard_attached pr i (view w')"
    using attachReplicas_direct [OF h serv D st] by blast
  have "view w' k = None" if "k \<notin> ?P" for k 
    using w'(3) [OF that] that unfolding dom [symmetric] by (simp add: domIff)
  moreover have "?P \<subseteq> dom (view w')" using w'(2) D by (auto simp: holding_def)
  ultimately have "dom (view w') = ?P" using domIff by fastforce
  moreover have "owned (view w') = c" using w'(2) by (simp add: holding_def)
  ultimately have "arranged pod (nReplicas cr) (nShards cr) pr (view w')"
    using w'(4) serv unfolding arranged_def shard_attached_def attached_def by blast
  with w'(1,2) show ?thesis by blast
qed

section \<open>No other node is added\<close>

abbreviation within :: "string set \<Rightarrow> 'w \<Rightarrow> bool" where
  "within S w \<equiv> dom (view w) \<subseteq> S"

lemma within_State: "keeps (within S) (aState (Admin r) ep)"
  by (rule tripleI, drule dom_State) simp

lemma within_MyID: "ident ep \<in> S \<Longrightarrow> keeps (within S) (aMyID (Admin r) ep)"
  by (rule tripleI, drule dom_MyID) blast

lemma within_Meet: "ident a \<in> S \<Longrightarrow> ident b \<in> S \<Longrightarrow> keeps (within S) (aMeet (Admin r) a b)"
  by (rule tripleI, drule dom_Meet) blast

lemma within_Replicate: "ident ep \<in> S \<Longrightarrow> keeps (within S) (aReplicate (Admin r) ep p)"
  by (rule tripleI, drule dom_Replicate) blast

lemma within_AddSlots: "ident ep \<in> S \<Longrightarrow> keeps (within S) (aAddSlots (Admin r) ep gs)"
  by (rule tripleI, drule dom_AddSlots) blast

lemma within_MoveSlots: "keeps (within S) (aMoveSlots (Admin r) ep k x num)"
  by (rule tripleI, drule dom_MoveSlots) simp

lemmas within_admin = within_State within_MyID within_Meet within_Replicate within_AddSlots within_MoveSlots

lemma within_find:
  assumes "shard_pods i \<subseteq> S" and "0 \<le> nReplicas cr"
  shows "keeps (within S) (findShardPrimary r cr i idx)"
proof -
  have "pod i j \<in> S" if "0 \<le> j" "j \<le> nReplicas cr" for j using assms(1) shard_podsI that by blast
  moreover from this have "set js \<subseteq> {0..nReplicas cr} \<Longrightarrow> keeps (within S) (find_owner r cr i idx js)" for js
    by (induction js) (auto intro!: keeps_rules within_admin split: sum.split option.split)
  ultimately show ?thesis
    unfolding findShardPrimary_def using assms(2)
    by (auto intro!: keeps_rules within_admin split: sum.split option.split)
qed

lemma within_attach:
  assumes "pods pod (nReplicas cr) {0..<nShards cr} \<subseteq> S" and "0 \<le> nReplicas cr"
  shows "keeps (within S) (attachReplicas r cr st)"
proof -
  have "keeps (within S) (attach_shard r cr idx i)" if "0 \<le> i" "i < nShards cr" for i idx
  proof -
    have S: "shard_pods i \<subseteq> S" using assms(1) that unfolding pods_shard_pods by fastforce
    have "keeps (within S) (attach_pod r cr idx p ord i j)" if "j \<in> set [0..nReplicas cr]" for p ord j
      using S shard_podsI [of j i] that unfolding attach_pod_def Let_def
      by (auto intro!: keeps_rules within_admin split: sum.split)
    then show ?thesis
      unfolding attach_shard_def using within_find [OF S assms(2)] by (auto intro!: keeps_rules)
  qed
  then show ?thesis unfolding attachReplicas_def by (auto intro!: keeps_rules)
qed

lemma within_fill:
  assumes "order_ok r" and "pod i 0 \<in> S"
  shows "keeps (within S) (fill_new r cr p i)"
proof -
  have order: "keeps (within S) (map_order r m)" for m
    by (rule tripleI, drule order_okE [OF assms(1)]) simp
  have "keeps (within S) (fill_shard r cr i x fuel need idx)" for x fuel need idx
  proof (induction fuel arbitrary: need idx)
    case 0
    show ?case by (subst fill_shard.simps) (auto intro!: keeps_rules)
  next
    case (Suc fuel)
    then show ?case
      by (subst fill_shard.simps) (auto intro!: keeps_rules order within_admin simp: Let_def split: option.split prod.split)
  qed
  then show ?thesis
    unfolding fill_new_def Let_def using within_State within_MyID [OF assms(2)]
    by (intro keeps_bind) (auto intro!: keeps_rules split: sum.split)
qed

end

end
