(* ===== verification/Convergence.thy ===== *)
theory Convergence
  imports Attachment
begin

text \<open>
  Forming and scaling out end in an arranged cluster, and for an arranged cluster that owns
  every slot the planner has nothing left to do and the status is ready.
\<close>

section \<open>Scale-out\<close>

context direct
begin

lemma within_scaleOut:
  assumes "order_ok r" and "pods pod (nReplicas cr) {0..<nShards cr} \<subseteq> S" and "0 \<le> old"
    and "0 < nShards cr" and "0 \<le> nReplicas cr"
  shows "keeps (within S) (scaleOut r cr old)"
proof -
  have S: "pod i j \<in> S" if "0 \<le> i" "i < nShards cr" "0 \<le> j" "j \<le> nReplicas cr" for i j
    using assms(2) that podsI [of i "{0..<nShards cr}" j "nReplicas cr" pod] by auto
  have "keeps (within S) (meet_shard r cr i)" if "i \<in> set [old..nShards cr - 1]" for i
    unfolding meet_shard_def using S that assms(3-5)
    by (intro triple_forE within_Meet) (auto simp: seed_def)
  moreover have "keeps (within S) (fill_new r cr p i)" if "i \<in> set [old..nShards cr - 1]" for i p
    using S that assms(3,5) by (intro within_fill [OF assms(1)]) auto
  ultimately show ?thesis
    unfolding scaleOut_def Let_def
    using within_attach [OF assms(2,5)] within_State
    by (auto intro!: keeps_failE keeps_bindE triple_forE)
qed

lemma arrangedI:
  assumes "holding c (pods pod (nReplicas cr) {0..<nShards cr}) w" and "serving pod (nReplicas cr) (nShards cr) pr c"
    and "within (pods pod (nReplicas cr) {0..<nShards cr}) w"
    and "\<forall>i \<in> {0..<nShards cr}. shard_attached pr i (view w)"
  shows "arranged pod (nReplicas cr) (nShards cr) pr (view w)"
  unfolding arranged_def
proof (intro conjI)
  show "dom (view w) = pods pod (nReplicas cr) {0..<nShards cr}"
    using assms(1,3) by (auto simp: holding_def)
  show "serving pod (nReplicas cr) (nShards cr) pr (owned (view w))"
    using assms(1,2) by (simp add: holding_def)
  show "\<forall>i \<in> {0..<nShards cr}. \<forall>j \<in> {0..nReplicas cr}. j \<noteq> pr i \<longrightarrow>
      (\<exists>nd. view w (pod i j) = Some nd \<and> MasterID nd = pod i (pr i))"
    using assms(4) unfolding shard_attached_def attached_def by blast
qed

lemma total_holding: "holding c D w \<Longrightarrow> holding c D' w' \<Longrightarrow> total_owned (view w') = total_owned (view w)"
  using total_same by (simp add: holding_def)

lemma scaleOut_direct:
  assumes order: "order_ok r" and inv: "inv w" and total: "total_owned (view w) = TotalSlots"
    and serv: "serving pod (nReplicas cr) old pr (owned (view w))"
    and dom: "pods pod (nReplicas cr) {0..<old} \<subseteq> dom (view w)" "within (pods pod (nReplicas cr) {0..<nShards cr}) w"
    and old: "0 \<le> old" "old \<le> nShards cr" "0 < nShards cr" "nShards cr \<le> TotalSlots" and R: "0 \<le> nReplicas cr"
  shows "\<exists>w'. run_state (scaleOut r cr old) w = (Inr (), w') \<and> inv w' \<and> total_owned (view w') = TotalSlots \<and>
    arranged pod (nReplicas cr) (nShards cr) (\<lambda>i. if i < old then pr i else 0) (view w') \<and>
    handed_out (TotalSlots div nShards cr) (owned (view w)) ((\<lambda>i. pod i 0) ` {old..<nShards cr}) (owned (view w'))"
proof -
  let ?R = "nReplicas cr" and ?d = "nShards cr" and ?c = "owned (view w)"
  let ?pr = "\<lambda>i. if i < old then pr i else 0"
  have h: "holding ?c (pods pod ?R {0..<old}) w" using inv dom(1) by (simp add: holding_def)
  have "{0..<old} \<union> {old..<?d} = {0..<?d}" using old by auto
  then have D: "pods pod ?R {0..<old} \<union> pods pod ?R {old..<?d} = pods pod ?R {0..<?d}"
    by (metis pods_Un)
  from scaleOut_filled [OF order h total serv old(1-3) R] obtain c' st w1
    where w1: "run_state (scaleOut r cr old) w = run_state (attachReplicas r cr st) w1"
      "map_of (byID st) = view w1" "holding c' (pods pod ?R {0..<?d}) w1" "total_owned (view w1) = TotalSlots"
      "handed_out (TotalSlots div ?d) ?c ((\<lambda>i. pod i 0) ` {old..<?d}) c'"
    unfolding D by blast
  have share: "0 < TotalSlots div ?d" using old(3,4) by (simp add: pos_imp_zdiv_pos_iff)
  have serv': "serving pod ?R ?d ?pr c'"
    using holding_nonneg [OF h] by (intro handed_out_serving [OF serv w1(5) share old(1,2) R])
  from attachReplicas_direct [OF w1(3) serv' subset_refl w1(2)] obtain w'
    where w': "run_state (attachReplicas r cr st) w1 = (Inr (), w')" "holding c' (pods pod ?R {0..<?d}) w'"
      "\<forall>i \<in> {0..<?d}. shard_attached ?pr i (view w')" by blast
  have run: "run_state (scaleOut r cr old) w = (Inr (), w')" using w1(1) w'(1) by simp
  have "within (pods pod ?R {0..<?d}) w'"
    by (rule tripleD [OF within_scaleOut [OF order subset_refl old(1,3) R] dom(2) run])
  with w'(2,3) serv' have "arranged pod ?R ?d ?pr (view w')" by (intro arrangedI)
  moreover have "total_owned (view w') = TotalSlots" using total_holding [OF w1(3) w'(2)] w1(4) by simp
  ultimately show ?thesis using run w'(2) w1(5) by (auto simp: holding_def)
qed

section \<open>Forming\<close>

lemma all_pods: "ident ` set (allEndpoints cr) = pods pod (nReplicas cr) {0..<nShards cr}"
  by (force simp: allEndpoints_def pods_def)

lemma form_meets:
  assumes "holding c D w"
  shows "\<exists>w'. run_state (forE (allEndpoints cr) (form_meet r cr)) w = (Inr (), w') \<and>
    holding c (D \<union> (pods pod (nReplicas cr) {0..<nShards cr} - {pod 0 0})) w'"
proof -
  let ?g = "\<lambda>ep. if epHost ep = epHost (seed cr) then {} else {ident ep}"
  have "\<exists>w'. run_state (forE (allEndpoints cr) (form_meet r cr)) w = (Inr (), w') \<and>
    holding c (D \<union> (\<Union>ep \<in> set (allEndpoints cr). ?g ep)) w'"
  proof (rule forE_grow [OF _ assms])
    fix ep D w assume ep: "ep \<in> set (allEndpoints cr)" and h: "holding c D w"
    obtain i j where "ep = endpoint cr i j" using ep by (auto simp: allEndpoints_def)
    with Meet_grow [OF h, of i j] h
    show "\<exists>w'. run_state (form_meet r cr ep) w = (Inr (), w') \<and> holding c (D \<union> ?g ep) w'"
      by (auto simp: form_meet_def run_wrapE)
  qed
  moreover have "pods pod (nReplicas cr) {0..<nShards cr} - {pod 0 0} \<subseteq> (\<Union>ep \<in> set (allEndpoints cr). ?g ep)"
  proof
    fix k assume k: "k \<in> pods pod (nReplicas cr) {0..<nShards cr} - {pod 0 0}"
    then obtain i j where ij: "0 \<le> i" "0 \<le> j" "k = pod i j" "endpoint cr i j \<in> set (allEndpoints cr)"
      by (fastforce simp: pods_def allEndpoints_def)
    have "PodFQDN cr i j \<noteq> PodFQDN cr 0 0"
      using PodFQDN_inj_cluster [OF ij(1) _ ij(2), of 0 0 cr] k ij(3) by auto
    with ij show "k \<in> (\<Union>ep \<in> set (allEndpoints cr). ?g ep)"
      by (auto simp: endpoint_def seed_def intro!: bexI [of _ "endpoint cr i j"])
  qed
  ultimately show ?thesis by (auto simp: holding_def)
qed

lemma form_adds:
  assumes "0 < d" and "d \<le> TotalSlots"
  shows "set is \<subseteq> {0..<d} \<Longrightarrow> distinct is \<Longrightarrow> holding c D w \<Longrightarrow>
    \<exists>c' w'. run_state (forE is (form_addslots r cr (Distribute d))) w = (Inr (), w') \<and>
    holding c' (D \<union> (\<lambda>i. pod i 0) ` set is) w' \<and>
    (\<forall>i \<in> set is. c' (pod i 0) = c (pod i 0) + range_count (Distribute d ! nat i)) \<and>
    (\<forall>k. k \<notin> (\<lambda>i. pod i 0) ` set is \<longrightarrow> c' k = c k)"
proof (induction "is" arbitrary: c D w)
  case (Cons i "is")
  let ?rng = "Distribute d ! nat i" and ?add = "form_addslots r cr (Distribute d)"
  have i: "0 \<le> i" "i < d" using Cons.prems(1) by simp_all
  then have rng: "index_ranges (Distribute d) i = Inr ?rng" and pos: "0 < range_count ?rng"
    using assms Distribute_count_pos by (simp_all add: index_ranges_def)
  obtain m w1 where add: "run_state (aAddSlots (Admin r) (endpoint cr i 0) [?rng]) w = (m, w1)" by fastforce
  have "inv w" using Cons.prems(3) by (simp add: holding_def)
  note law = AddSlots [OF this pod_ident _ add]
  let ?c = "c(pod i 0 := c (pod i 0) + range_count ?rng)"
  have h1: "holding ?c (insert (pod i 0) D) w1" and m: "m = Inr ()"
    using law pos Cons.prems(3) by (auto simp: holding_def)
  obtain c' w' where IH: "run_state (forE is ?add) w1 = (Inr (), w')"
      "holding c' (insert (pod i 0) D \<union> (\<lambda>i. pod i 0) ` set is) w'"
      "\<And>b. b \<in> set is \<Longrightarrow> c' (pod b 0) = ?c (pod b 0) + range_count (Distribute d ! nat b)"
      "\<And>k. k \<notin> (\<lambda>i. pod i 0) ` set is \<Longrightarrow> c' k = ?c k"
    using Cons.IH [OF _ _ h1] Cons.prems(1,2) by auto
  have ne: "pod b 0 \<noteq> pod i 0" if "b \<in> set is" for b
    using pod_inj [of b 0 i 0] Cons.prems(1,2) that i by auto
  have "pod i 0 \<notin> (\<lambda>i. pod i 0) ` set is"
  proof
    assume "pod i 0 \<in> (\<lambda>i. pod i 0) ` set is"
    then obtain b where "b \<in> set is" "pod i 0 = pod b 0" by (rule imageE)
    with ne [of b] show False by simp
  qed
  then have ci: "c' (pod i 0) = c (pod i 0) + range_count ?rng" using IH(4) by simp
  have "run_state (forE (i # is) ?add) w = (Inr (), w')"
    using IH(1) by (simp add: run_bindE run_wrapE form_addslots_def [of r cr "Distribute d" i] rng add m)
  moreover have "holding c' (D \<union> (\<lambda>i. pod i 0) ` set (i # is)) w'" using IH(2) by simp
  moreover have "\<forall>b \<in> set (i # is). c' (pod b 0) = c (pod b 0) + range_count (Distribute d ! nat b)"
    using ci IH(3) ne by simp
  moreover have "\<forall>k. k \<notin> (\<lambda>i. pod i 0) ` set (i # is) \<longrightarrow> c' k = c k" using IH(4) by simp
  ultimately show ?case by blast
qed auto

lemma within_form:
  assumes "pods pod (nReplicas cr) {0..<nShards cr} \<subseteq> S" and "0 < nShards cr" and "0 \<le> nReplicas cr"
  shows "keeps (within S) (formCluster r cr)"
proof -
  have S: "pod i j \<in> S" if "0 \<le> i" "i < nShards cr" "0 \<le> j" "j \<le> nReplicas cr" for i j
    using assms(1) that podsI [of i "{0..<nShards cr}" j "nReplicas cr" pod] by auto
  have "ident ep \<in> S" if "ep \<in> set (allEndpoints cr)" for ep using assms(1) that all_pods by auto
  then have "keeps (within S) (form_meet r cr ep)" if "ep \<in> set (allEndpoints cr)" for ep
    using S assms(2,3) that unfolding form_meet_def
    by (auto intro!: keeps_retE keeps_wrapE within_Meet simp: seed_def)
  moreover have "keeps (within S) (form_addslots r cr dist i)" if "i \<in> set [0..nShards cr - 1]" for i dist
    using S that assms(3) unfolding form_addslots_def
    by (auto intro!: keeps_failE keeps_wrapE within_AddSlots split: sum.split)
  ultimately show ?thesis
    unfolding formCluster_def Let_def using within_attach [OF assms(1,3)] within_State
    by (intro keeps_bindE triple_forE)
qed

text \<open>The slots of the distribution, counted at the shards' first pods.\<close>

lemma form_total:
  assumes h: "holding c D w" and d: "0 < d"
    and sizes: "\<And>i. 0 \<le> i \<Longrightarrow> i < d \<Longrightarrow> c (pod i 0) = range_count (Distribute d ! nat i)"
    and own: "{k. 0 < c k} = (\<lambda>i. pod i 0) ` {0..<d}"
  shows "total_owned (view w) = TotalSlots"
proof -
  have ok: "view_ok (view w)" and c: "owned (view w) = c" using h inv_view by (auto simp: holding_def)
  have "inj_on (\<lambda>i. pod i 0) {0..<d}" 
  proof (rule inj_onI)
    fix x y assume "x \<in> {0..<d}" "y \<in> {0..<d}" "pod x 0 = pod y 0"
    with pod_inj [of x 0 y 0] show "x = y" by simp
  qed
  then have "total_owned (view w) = (\<Sum>i \<in> {0..<d}. c (pod i 0))"
    using total_owned_owners [OF ok] by (simp add: owners_def c own sum.reindex)
  also have "\<dots> = (\<Sum>i \<in> set [0..d - 1]. range_count (Distribute d ! nat i))"
    using sizes by (intro sum.cong) auto
  also have "\<dots> = sum_list (map (\<lambda>i. range_count (Distribute d ! nat i)) [0..d - 1])"
    by (simp add: sum_list_distinct_conv_sum_set)
  also have "\<dots> = sum_list (map range_count (Distribute d))"
    using d by (intro arg_cong [where f = sum_list]) (auto simp: Distribute_eq nth_Distribute)
  finally show ?thesis using d by (simp add: sum_Distribute)
qed

lemma formCluster_direct:
  assumes inv: "inv w" and empty: "owned (view w) = (\<lambda>_. 0)" and dom: "within (pods pod (nReplicas cr) {0..<nShards cr}) w"
    and d: "0 < nShards cr" "nShards cr \<le> TotalSlots" and R: "0 \<le> nReplicas cr"
  shows "\<exists>w'. run_state (formCluster r cr) w = (Inr (), w') \<and> inv w' \<and> total_owned (view w') = TotalSlots \<and>
    arranged pod (nReplicas cr) (nShards cr) (\<lambda>_. 0) (view w') \<and>
    (\<forall>i \<in> {0..<nShards cr}. owned (view w') (pod i 0) = range_count (Distribute (nShards cr) ! nat i))"
proof -
  let ?R = "nReplicas cr" and ?d = "nShards cr" and ?P = "pods pod (nReplicas cr) {0..<nShards cr}"
  have "holding (\<lambda>_. 0) {} w" using inv empty by (simp add: holding_def)
  then obtain w1 where w1: "run_state (forE (allEndpoints cr) (form_meet r cr)) w = (Inr (), w1)"
      "holding (\<lambda>_. 0) (?P - {pod 0 0}) w1" using form_meets by fastforce
  have range: "set [0..?d - 1] = {0..<?d}" by auto
  obtain c w2 where w2: "run_state (forE [0..?d - 1] (form_addslots r cr (Distribute ?d))) w1 = (Inr (), w2)"
      "holding c (?P - {pod 0 0} \<union> (\<lambda>i. pod i 0) ` {0..<?d}) w2"
      "\<And>i. 0 \<le> i \<Longrightarrow> i < ?d \<Longrightarrow> c (pod i 0) = range_count (Distribute ?d ! nat i)"
      "\<And>k. k \<notin> (\<lambda>i. pod i 0) ` {0..<?d} \<Longrightarrow> c k = 0"
    using form_adds [OF d _ distinct_upto w1(2), of 0 "?d - 1"] unfolding range by auto
  have "0 < c (pod i 0)" if "0 \<le> i" "i < ?d" for i
    using w2(3) [OF that] Distribute_count_pos [OF that d(2)] by simp
  then have own: "{k. 0 < c k} = (\<lambda>i. pod i 0) ` {0..<?d}"
    using w2(4) by (auto simp: image_iff) (metis less_irrefl)
  have "pod 0 0 \<in> (\<lambda>i. pod i 0) ` {0..<?d}" using d(1) by auto
  then have "?P \<subseteq> ?P - {pod 0 0} \<union> (\<lambda>i. pod i 0) ` {0..<?d}" by blast
  then have h2: "holding c ?P w2" using w2(2) unfolding holding_def by blast
  have serv: "serving pod ?R ?d (\<lambda>_. 0) c" using own R by (simp add: serving_def)
  obtain st w3 where w3: "run_state (aState (Admin r) (seed cr)) w2 = (Inr st, w3)" "holding c ?P w3"
      "map_of (byID st) = view w3" using State_exact [OF h2] by blast
  from attachReplicas_direct [OF w3(2) serv subset_refl w3(3)] obtain w'
    where w': "run_state (attachReplicas r cr st) w3 = (Inr (), w')" "holding c ?P w'"
      "\<forall>i \<in> {0..<?d}. shard_attached (\<lambda>_. 0) i (view w')" by blast
  have run: "run_state (formCluster r cr) w = (Inr (), w')"
    using w1(1) w2(1) w3(1) w'(1) by (simp add: formCluster_def Let_def run_bindE)
  have "within ?P w'" by (rule tripleD [OF within_form [OF subset_refl d(1) R] dom run])
  with w'(2,3) serv have "arranged pod ?R ?d (\<lambda>_. 0) (view w')" by (intro arrangedI)
  moreover have "total_owned (view w') = TotalSlots" using form_total [OF w'(2) d(1) w2(3) own] .
  ultimately show ?thesis using run w'(2) w2(3) by (auto simp: holding_def)
qed

end

end
