(* ===== verification/Settled.thy ===== *)
theory Settled
  imports Convergence
begin

text \<open>
  What the planner and the status see of an arranged cluster that owns every slot.
\<close>

lemma scan_pods_found:
  "snd (scan_pods byHost cr i js ids prim) \<noteq> None \<longleftrightarrow>
     prim \<noteq> None \<or> (\<exists>j \<in> set js. \<exists>n. map_of byHost (PodFQDN cr i j) = Some n \<and> slot_owner n)"
  by (induction byHost cr i js ids prim rule: scan_pods.induct) (auto simp: slot_owner_def split: option.split)

lemma shard_status_ready:
  "snd (shard_status cr st i) \<longleftrightarrow>
     (\<exists>j \<in> {0..nReplicas cr}. \<exists>n. map_of (hostIndex st) (PodFQDN cr i j) = Some n \<and> slot_owner n)"
  using scan_pods_found [of "hostIndex st" cr i "[0..nReplicas cr]" "[]" None]
  by (auto simp: shard_status_def Let_def split: prod.split option.split)

lemma hostIndex_distinct:
  assumes "distinct (map Host (Nodes st))"
  shows "map_of (hostIndex st) h = Some n \<longleftrightarrow> n \<in> set (Nodes st) \<and> Host n = h"
proof -
  have d: "distinct (map fst (map (\<lambda>n. (Host n, n)) (Nodes st)))" using assms by (simp add: comp_def)
  have "map_of (hostIndex st) = map_of (map (\<lambda>n. (Host n, n)) (Nodes st))"
    unfolding hostIndex_def map_of_fold_update using map_of_rev_distinct [OF d] by simp
  then show ?thesis using map_of_eq_Some_iff [OF d] by auto
qed

lemma actual_shards_owners: "actual_shards st = int (length (filter slot_owner (Nodes st)))"
  unfolding actual_shards_def slot_owner_def ..

lemma node_map_iff:
  assumes "distinct (map ID (Nodes st))"
  shows "node_map st k = Some n \<longleftrightarrow> n \<in> set (Nodes st) \<and> ID n = k"
  using assms unfolding node_map_def by (auto simp: map_of_eq_Some_iff comp_def)

context direct
begin

text \<open>A state that reports an arranged cluster.\<close>

definition reports :: "(int \<Rightarrow> int) \<Rightarrow> ClusterState \<Rightarrow> 'w \<Rightarrow> bool" where
  "reports pr st w \<longleftrightarrow> inv w \<and> distinct (map ID (Nodes st)) \<and> node_map st = view w \<and>
     arranged pod (nReplicas cr) (nShards cr) pr (view w) \<and> 0 < nShards cr \<and> 0 \<le> nReplicas cr"

lemma reports_owner:
  assumes "reports pr st w"
  shows "(\<exists>n. view w k = Some n \<and> slot_owner n) \<longleftrightarrow> k \<in> (\<lambda>i. pod i (pr i)) ` {0..<nShards cr}"
proof -
  have "view_ok (view w)" and own: "{k. 0 < owned (view w) k} = (\<lambda>i. pod i (pr i)) ` {0..<nShards cr}"
    using assms inv_view by (auto simp: reports_def arranged_def serving_def)
  then have "(\<exists>n. view w k = Some n \<and> slot_owner n) \<longleftrightarrow> 0 < owned (view w) k"
    by (cases "view w k") (auto simp: slot_owner_def view_ok_def)
  with own show ?thesis by blast
qed

lemma reports_primaries:
  assumes "reports pr st w"
  shows "int (length (filter slot_owner (Nodes st))) = nShards cr"
proof -
  have serv: "serving pod (nReplicas cr) (nShards cr) pr (owned (view w))"
    and st: "distinct (map ID (Nodes st))" "node_map st = view w" "0 \<le> nShards cr"
    using assms by (simp_all add: reports_def arranged_def)
  have "length (filter slot_owner (Nodes st)) = card ((\<lambda>i. pod i (pr i)) ` {0..<nShards cr})"
    unfolding length_filter_view [OF st(1)] st(2) reports_owner [OF assms] by simp
  then show ?thesis using card_image [OF serving_inj [OF serv]] st(3) by simp
qed

lemma reports_replicas:
  assumes rep: "reports pr st w" and i: "0 \<le> i" "i < nShards cr"
  shows "int (length (filter (\<lambda>n. \<not> IsPrimary n \<and> MasterID n = pod i (pr i)) (Nodes st))) = nReplicas cr"
proof -
  let ?R = "nReplicas cr"
  have serv: "serving pod ?R (nShards cr) pr (owned (view w))" and dom: "dom (view w) = pods pod ?R {0..<nShards cr}"
    and att: "\<And>b j. 0 \<le> b \<Longrightarrow> b < nShards cr \<Longrightarrow> 0 \<le> j \<Longrightarrow> j \<le> ?R \<Longrightarrow> j \<noteq> pr b \<Longrightarrow>
      \<exists>nd. view w (pod b j) = Some nd \<and> MasterID nd = pod b (pr b)"
    and inv: "inv w" and st: "distinct (map ID (Nodes st))" "node_map st = view w"
    using rep by (simp_all add: reports_def arranged_def)
  have pr: "0 \<le> pr i" "pr i \<le> ?R" using serving_ord [OF serv i] by simp_all
  have "{k. \<exists>n. view w k = Some n \<and> \<not> IsPrimary n \<and> MasterID n = pod i (pr i)} = pod i ` ({0..?R} - {pr i})"
  proof (intro set_eqI iffI)
    fix k assume "k \<in> {k. \<exists>n. view w k = Some n \<and> \<not> IsPrimary n \<and> MasterID n = pod i (pr i)}"
    then obtain n where n: "view w k = Some n" "\<not> IsPrimary n" "MasterID n = pod i (pr i)" by blast
    then have "k \<in> pods pod ?R {0..<nShards cr}" using dom by blast
    then obtain b j where bj: "0 \<le> b" "b < nShards cr" "0 \<le> j" "j \<le> ?R" "k = pod b j" by (auto simp: pods_def)
    have "\<not> slot_owner n" using n(2) by (simp add: slot_owner_def)
    then have ne: "j \<noteq> pr b" using reports_owner [OF rep, of k] n(1) bj by auto
    with att [OF bj(1-4)] n(1,3) bj(5) have "pod b (pr b) = pod i (pr i)" by simp
    then have "b = i" using pod_inj [OF bj(1) _ i(1)] serving_ord [OF serv bj(1,2)] pr by blast
    with bj ne show "k \<in> pod i ` ({0..?R} - {pr i})" by simp
  next
    fix k assume "k \<in> pod i ` ({0..?R} - {pr i})"
    then obtain j where j: "k = pod i j" "0 \<le> j" "j \<le> ?R" "j \<noteq> pr i" by fastforce
    with att [OF i j(2-4)] obtain n where "view w k = Some n" "MasterID n = pod i (pr i)" by blast
    then show "k \<in> {k. \<exists>n. view w k = Some n \<and> \<not> IsPrimary n \<and> MasterID n = pod i (pr i)}"
      using replica_role [OF inv] pod_ident by auto
  qed
  moreover have "card (pod i ` ({0..?R} - {pr i})) = card ({0..?R} - {pr i})"
    using pod_inj [OF i(1) _ i(1)] by (intro card_image inj_onI) auto
  ultimately show ?thesis
    unfolding length_filter_view [OF st(1)] st(2) using pr by simp
qed

lemma reports_hosts:
  assumes rep: "reports pr st w" and ij: "0 \<le> i" "i < nShards cr" "0 \<le> j" "j \<le> nReplicas cr"
  shows "map_of (hostIndex st) (PodFQDN cr i j) = view w (pod i j)"
proof -
  have st: "distinct (map ID (Nodes st))" "node_map st = view w" and inv: "inv w"
    and dom: "dom (view w) = pods pod (nReplicas cr) {0..<nShards cr}"
    using rep by (simp_all add: reports_def arranged_def)
  have node: "n \<in> set (Nodes st) \<longleftrightarrow> view w (ID n) = Some n" for n
    using node_map_iff [OF st(1), of "ID n" n] st(2) by simp
  have host: "Host n = PodFQDN cr b k" if "view w (pod b k) = Some n" for b k n
    using host [OF inv that] by (simp add: endpoint_def)
  have pod: "\<exists>b k. 0 \<le> b \<and> 0 \<le> k \<and> ID n = pod b k" if "n \<in> set (Nodes st)" for n
  proof -
    have "ID n \<in> pods pod (nReplicas cr) {0..<nShards cr}" using node that dom by blast
    then show ?thesis by (fastforce simp: pods_def)
  qed
  have same: "ID n = pod b k"
    if n: "n \<in> set (Nodes st)" "Host n = PodFQDN cr b k" "0 \<le> b" "0 \<le> k" for n b k
  proof -
    obtain b' k' where p: "0 \<le> b'" "0 \<le> k'" "ID n = pod b' k'" using pod [OF n(1)] by blast
    then have "PodFQDN cr b' k' = PodFQDN cr b k" using host [of b' k' n] node n(1,2) by simp
    from PodFQDN_inj_cluster [OF p(1) n(3) p(2) n(4) this] p(3) show ?thesis by simp
  qed
  have "distinct (map Host (Nodes st))"
  proof -
    have "inj_on Host (set (Nodes st))"
    proof (rule inj_onI)
      fix n m assume nm: "n \<in> set (Nodes st)" "m \<in> set (Nodes st)" "Host n = Host m"
      obtain b k where p: "0 \<le> b" "0 \<le> k" "ID m = pod b k" using pod [OF nm(2)] by blast
      then have "Host m = PodFQDN cr b k" using host node nm(2) by simp
      then have "ID n = ID m" using same [OF nm(1) _ p(1,2)] nm(3) p(3) by simp
      then show "n = m" using node nm(1,2) by simp
    qed
    then show ?thesis using st(1) by (simp add: distinct_map)
  qed
  note index = hostIndex_distinct [OF this]
  have "map_of (hostIndex st) (PodFQDN cr i j) = Some n \<longleftrightarrow> view w (pod i j) = Some n" for n
    unfolding index
  proof
    assume "n \<in> set (Nodes st) \<and> Host n = PodFQDN cr i j"
    then show "view w (pod i j) = Some n" using same [of n i j] ij node by simp
  next
    assume v: "view w (pod i j) = Some n"
    then have "ID n = pod i j" using inv_view [OF inv] unfolding view_ok_def by blast
    then show "n \<in> set (Nodes st) \<and> Host n = PodFQDN cr i j" using v host node by simp
  qed
  then show ?thesis by (metis not_Some_eq)
qed

lemma settled:
  assumes rep: "reports pr st w" and total: "total_owned (view w) = TotalSlots"
    and run: "run_state (aState (Admin r) ep) w = (Inr st, w')"
  shows "Kind (decide cr st) = ActionNone \<and> all_ready cr st"
proof -
  have inv: "inv w" and d: "0 < nShards cr" using rep by (simp_all add: reports_def)
  have flags: "Formed st" "SlotsCovered st" "\<not> OpenSlots st"
    using reported [OF inv run] total by (simp_all add: TotalSlots_def)
  have counts: "index_or 0 (fold count_replica (Nodes st) []) (ID n) = nReplicas cr"
    if n: "n \<in> set (Nodes st)" "slot_owner n" for n
  proof -
    have "view w (ID n) = Some n" using node_map_iff [of st "ID n" n] rep n(1) by (simp add: reports_def)
    with reports_owner [OF rep, of "ID n"] n(2) obtain i where i: "0 \<le> i" "i < nShards cr" "ID n = pod i (pr i)"
      by auto
    show ?thesis
      unfolding i(3) replica_count [OF pod_ident] using reports_replicas [OF rep i(1,2)] .
  qed
  have prim: "int (length (filter slot_owner (Nodes st))) = nShards cr" by (rule reports_primaries [OF rep])
  have ready: "snd (shard_status cr st i)" if i: "0 \<le> i" "i < nShards cr" for i
  proof -
    have "serving pod (nReplicas cr) (nShards cr) pr (owned (view w))" using rep by (simp add: reports_def arranged_def)
    from serving_ord [OF this i] have pr: "0 \<le> pr i" "pr i \<le> nReplicas cr" by simp_all
    from reports_owner [OF rep, of "pod i (pr i)"] i obtain n where "view w (pod i (pr i)) = Some n" "slot_owner n"
      by auto
    with reports_hosts [OF rep i pr] pr show ?thesis unfolding shard_status_ready by auto
  qed
  have "filter snd (shard_statuses cr st) = shard_statuses cr st"
    using ready by (auto simp: shard_statuses_def filter_id_conv)
  then have "ready_shards cr st = nShards cr" using d by (simp add: ready_shards_def shard_statuses_def)
  moreover have "Kind (decide cr st) = ActionNone"
    unfolding decide_def Decide_Kind_iffs using flags prim counts by (auto simp: summarize_def Let_def)
  ultimately show ?thesis
    using flags prim by (simp add: all_ready_def actual_shards_owners)
qed

end

end
