(* ===== verification/Scale_In.thy ===== *)
theory Scale_In
  imports Settled
begin

text \<open>
  \<^verbatim>\<open>scaleIn\<close> against an admin that keeps its contract, whichever calls fail: no slot is lost, and
  one call moves at most one batch, from a departing shard to a surviving one.
\<close>

context reconciling
begin

text \<open>At most one batch moved off a departing shard.\<close>

definition drained :: "(string \<Rightarrow> int) \<Rightarrow> (string \<Rightarrow> int) \<Rightarrow> bool" where
  "drained c c' \<longleftrightarrow> c' = c \<or>
     (\<exists>i j b k m. nShards cr \<le> i \<and> 0 \<le> b \<and> b < nShards cr \<and> pod i j \<noteq> pod b k \<and>
        0 \<le> m \<and> m \<le> drainBatchSlots \<and> m \<le> c (pod i j) \<and>
        c' = c(pod i j := c (pod i j) - m, pod b k := c (pod b k) + m))"

definition conserved :: "int \<Rightarrow> (string \<Rightarrow> int) \<Rightarrow> error + 'b \<Rightarrow> 'w \<Rightarrow> bool" where
  "conserved T c res w \<longleftrightarrow> inv w \<and> total_owned (view w) = T \<and> drained c (owned (view w)) \<and>
     (\<forall>e. res = Inl e \<longrightarrow> \<not> is_abort e)"

text \<open>An API call: it leaves the cluster as it is and fails with an error value.\<close>

definition api :: "('w, 'b) ioE \<Rightarrow> bool" where
  "api m \<longleftrightarrow> (\<forall>w res w'. inv w \<longrightarrow> run_state m w = (res, w') \<longrightarrow>
     inv w' \<and> view w' = view w \<and> (\<forall>e. res = Inl e \<longrightarrow> \<not> is_abort e))"

lemma held_api: "api m \<Longrightarrow> triple (holding c D) m (held c D)"
  by (rule tripleI) (auto simp: api_def held_def holding_def)

lemma held_conserved:
  assumes "holding c D w0" and "triple (holding c {}) m (held c {})"
  shows "triple (holding c {}) m (conserved (total_owned (view w0)) c)"
proof (rule triple_conseq [OF assms(2)])
  fix res w assume "held c {} res w"
  then show "conserved (total_owned (view w0)) c res w"
    using total_same [of w0 w] assms(1) by (auto simp: held_def conserved_def holding_def drained_def)
qed simp

section \<open>Forgetting\<close>

lemma held_forget: "c k = 0 \<Longrightarrow> triple (holding c {}) (forgetEverywhere r cr k) (held c {})"
  unfolding forgetEverywhere_def
proof (rule held_forE)
  fix ep assume k: "c k = 0"
  show "triple (holding c {}) (ignoreE (aForget (Admin r) ep k)) (held c {})"
  proof (rule triple_ignoreE, rule tripleI)
    fix w res w' assume h: "holding c {} w" and run: "run_state (aForget (Admin r) ep k) w = (res, w')"
    then show "holding c {} w'" using Forget [OF _ _ run] k by (auto simp: holding_def)
  qed simp
qed

lemma held_forget_shard:
  assumes "\<And>j. 0 \<le> j \<Longrightarrow> j \<le> nReplicas cr \<Longrightarrow> up (endpoint cr i j) \<Longrightarrow> c (pod i j) = 0"
  shows "triple (holding c {}) (forget_shard r cr i) (held c {})"
  unfolding forget_shard_def
proof (rule held_forE, rule bind_MyID)
  fix j assume j: "j \<in> set [0..nReplicas cr]" and u: "up (endpoint cr i j)"
  then have "triple (holding c {}) (forgetEverywhere r cr (pod i j)) (held c {})"
    using assms [of j] by (intro held_forget) simp
  then show "triple (holding c {})
      (case Inr (pod i j) of Inl _ \<Rightarrow> retE () | Inr k \<Rightarrow> if k \<noteq> [] then forgetEverywhere r cr k else retE ()) (held c {})"
    using pod_ident by simp
qed (simp add: held_retE)

section \<open>Draining\<close>

lemma first_survivor_triple:
  assumes "snapshot c D idx"
  shows "set ss \<subseteq> {0..<nShards cr} \<Longrightarrow> triple (holding c D) (first_survivor r cr idx k ss)
    (\<lambda>s w. holding c D w \<and> (s = [] \<or> s \<noteq> k \<and> (\<exists>b j. 0 \<le> b \<and> b < nShards cr \<and> s = pod b j)))"
proof (induction ss)
  case (Cons b ss)
  have "triple (\<lambda>w. holding c D w \<and> shard_primary c b p)
      (case p of (s, _) \<Rightarrow> if s \<noteq> [] \<and> s \<noteq> k then ret s else first_survivor r cr idx k ss)
      (\<lambda>s w. holding c D w \<and> (s = [] \<or> s \<noteq> k \<and> (\<exists>b j. 0 \<le> b \<and> b < nShards cr \<and> s = pod b j)))" for p
  proof (rule triple_pure)
    assume sp: "shard_primary c b p"
    obtain s j where p: "p = (s, j)" by fastforce
    from sp have "s = [] \<or> s = pod b j" by (auto simp: p shard_primary_def split: if_splits)
    then show "triple (holding c D) (case p of (s, _) \<Rightarrow> if s \<noteq> [] \<and> s \<noteq> k then ret s else first_survivor r cr idx k ss)
        (\<lambda>s w. holding c D w \<and> (s = [] \<or> s \<noteq> k \<and> (\<exists>b j. 0 \<le> b \<and> b < nShards cr \<and> s = pod b j)))"
      using Cons by (auto simp: p intro!: triple_return)
  qed
  then show ?case
    unfolding first_survivor.simps by (rule triple_bind [OF findShardPrimary_triple [OF assms]])
qed (simp add: triple_return)

lemma drain_batch:
  assumes h0: "holding c {} w0" and i: "nShards cr \<le> i" and q: "0 \<le> q" "q \<le> drainBatchSlots"
    and s: "s \<noteq> pod i j" "0 \<le> b" "b < nShards cr" "s = pod b k"
  shows "triple (holding c {}) (State_Monad.bind (aMoveSlots (Admin r) (seed cr) (pod i j) s q)
      (\<lambda>(moved, err). case err of
         Some e \<Rightarrow> failE (Errorf (''drain shard '' @ Itoa i @ '' (moved '' @ Itoa moved @ '' before error)'') (Some e))
       | None \<Rightarrow> retE ())) (conserved (total_owned (view w0)) c)"
proof (rule tripleI)
  fix w res w'
  assume h: "holding c {} w"
    and run: "run_state (State_Monad.bind (aMoveSlots (Admin r) (seed cr) (pod i j) s q)
      (\<lambda>(moved, err). case err of
         Some e \<Rightarrow> failE (Errorf (''drain shard '' @ Itoa i @ '' (moved '' @ Itoa moved @ '' before error)'') (Some e))
       | None \<Rightarrow> retE ())) w = (res, w')"
  obtain m err w1 where mv: "run_state (aMoveSlots (Admin r) (seed cr) (pod i j) s q) w = ((m, err), w1)"
    by (metis surj_pair)
  have w': "w' = w1" and res: "\<forall>e. res = Inl e \<longrightarrow> \<not> is_abort e"
    using run mv by (auto simp: is_abort_def split: option.splits)
  have inv: "inv w" and c: "owned (view w) = c" using h by (auto simp: holding_def)
  have inv1: "inv w1" and m: "0 \<le> m" "m \<le> q" "m \<le> c (pod i j)"
    and own: "owned (view w1) = c(pod i j := c (pod i j) - m, s := c s + m)"
    using MoveSlots [OF inv q(1) s(1) [symmetric] mv, unfolded c] by blast+
  have "total_owned (view w1) = total_owned (view w0)"
    using MoveSlots_total [OF inv q(1) s(1) [symmetric] mv] total_same [of w0 w] h h0
    by (simp add: holding_def)
  moreover have "m \<le> drainBatchSlots" using m(2) q(2) by simp
  then have "drained c (owned (view w1))"
    unfolding drained_def own using i s m
    by (intro disjI2 exI [of _ i] exI [of _ j] exI [of _ b] exI [of _ k] exI [of _ m]) simp
  ultimately show "conserved (total_owned (view w0)) c res w'" using inv1 w' res by (simp add: conserved_def)
qed

lemma conserved_failE:
  assumes "holding c {} w0" and "\<not> is_abort e"
  shows "triple (holding c {}) (failE e) (conserved (total_owned (view w0)) c)"
proof (rule triple_failE)
  fix w assume "holding c {} w"
  then show "conserved (total_owned (view w0)) c (Inl e) w"
    using assms total_same [of w0 w] by (simp add: conserved_def holding_def drained_def)
qed

lemma drain_shard_triple:
  assumes snap: "snapshot c {} idx" and i: "nShards cr \<le> i" and h0: "holding c {} w0"
  shows "triple (holding c {}) (drain_shard r cr i idx (pod i j)) (conserved (total_owned (view w0)) c)"
proof -
  let ?n = "SlotCount (index_or zero_NodeInfo idx (pod i j))"
  let ?batch = "if ?n < drainBatchSlots then ?n else drainBatchSlots"
  have "?n = c (pod i j)"
    using snap by (cases "map_of idx (pod i j)") (auto simp: snapshot_def)
  then have batch: "0 \<le> ?batch" "?batch \<le> drainBatchSlots"
    using snapshot_nonneg [OF snap, of "pod i j"] by (simp_all add: drainBatchSlots_def)
  have "set [0..nShards cr - 1] \<subseteq> {0..<nShards cr}" by auto
  note surv = first_survivor_triple [OF snap this, of "pod i j"]
  show ?thesis
    unfolding drain_shard_def firstSurvivorPrimary_def Let_def
  proof (rule triple_bind [OF surv], rule triple_pure)
    fix s assume s: "s = [] \<or> s \<noteq> pod i j \<and> (\<exists>b k. 0 \<le> b \<and> b < nShards cr \<and> s = pod b k)"
    show "triple (holding c {})
        (if s = [] then failE (Errorf (''no surviving primary to drain shard '' @ Itoa i @ '' into'') None)
         else State_Monad.bind (aMoveSlots (Admin r) (seed cr) (pod i j) s ?batch)
          (\<lambda>(moved, err). case err of
             Some e \<Rightarrow> failE (Errorf (''drain shard '' @ Itoa i @ '' (moved '' @ Itoa moved @ '' before error)'') (Some e))
           | None \<Rightarrow> retE ())) (conserved (total_owned (view w0)) c)"
    proof (cases "s = []")
      case True
      have "\<not> is_abort (Errorf msg None)" for msg by (simp add: is_abort_def)
      from conserved_failE [OF h0 this] True show ?thesis by (simp only: if_True simp_thms)
    next
      case False
      with s obtain b k where "s \<noteq> pod i j" "0 \<le> b" "b < nShards cr" "s = pod b k" by blast
      from drain_batch [OF h0 i batch this] show ?thesis using False by (simp only: if_False)
    qed
  qed
qed

section \<open>The pass\<close>

lemma conserved_bindE:
  assumes h0: "holding c {} w0" and m: "triple P m (held c {})"
    and f: "\<And>x. triple (holding c {}) (f x) (conserved (total_owned (view w0)) c)"
  shows "triple P (bindE m f) (conserved (total_owned (view w0)) c)"
proof (rule triple_bindE [OF m])
  fix e w assume "held c {} (Inl e) w"
  then show "conserved (total_owned (view w0)) c (Inl e) w"
    using h0 total_same [of w0 w] by (simp add: held_def conserved_def holding_def drained_def)
next
  fix x show "triple (held c {} (Inr x)) (f x) (conserved (total_owned (view w0)) c)"
    unfolding held_Inr by (rule f)
qed

lemma scale_in_shards_triple:
  assumes h0: "holding c {} w0" and del: "\<And>i. api (deleteShard r cr i)"
  shows "triple (holding c {}) (scale_in_shards r cr is) (conserved (total_owned (view w0)) c)"
proof (induction "is")
  case Nil
  show ?case using held_conserved [OF h0 held_retE] by simp
next
  case (Cons i "is")
  have rest: "triple (holding c {}) (bindE (forget_shard r cr i) (\<lambda>_. bindE (deleteShard r cr i) (\<lambda>_. scale_in_shards r cr is)))
      (conserved (total_owned (view w0)) c)"
    if "\<And>j. 0 \<le> j \<Longrightarrow> j \<le> nReplicas cr \<Longrightarrow> up (endpoint cr i j) \<Longrightarrow> c (pod i j) = 0"
    by (intro conserved_bindE [OF h0] held_forget_shard held_api del Cons.IH that)
  show ?case
  proof (cases "i < nShards cr")
    case False
    then have i: "nShards cr \<le> i" by simp
    have "triple (holding c {}) (bindE (aState (Admin r) (seed cr)) (\<lambda>st. let idx = byID st in
          State_Monad.bind (findShardPrimary r cr i idx) (\<lambda>(departID, _).
            if departID \<noteq> [] \<and> SlotCount (index_or zero_NodeInfo idx departID) > 0
            then drain_shard r cr i idx departID
            else bindE (forget_shard r cr i) (\<lambda>_. bindE (deleteShard r cr i) (\<lambda>_. scale_in_shards r cr is)))))
        (conserved (total_owned (view w0)) c)"
      unfolding Let_def
    proof (rule bindE_State)
      fix st assume snap: "snapshot c {} (byID st)"
      let ?idx = "byID st"
      have count: "SlotCount (index_or zero_NodeInfo ?idx k) = c k" for k
        using snap by (cases "map_of ?idx k") (auto simp: snapshot_def)
      show "triple (holding c {}) (State_Monad.bind (findShardPrimary r cr i ?idx) (\<lambda>(departID, _).
            if departID \<noteq> [] \<and> SlotCount (index_or zero_NodeInfo ?idx departID) > 0
            then drain_shard r cr i ?idx departID
            else bindE (forget_shard r cr i) (\<lambda>_. bindE (deleteShard r cr i) (\<lambda>_. scale_in_shards r cr is))))
          (conserved (total_owned (view w0)) c)"
      proof (rule triple_bind [OF findShardPrimary_triple [OF snap]], rule triple_pure)
        fix p assume sp: "shard_primary c i p"
        obtain k j where p: "p = (k, j)" by fastforce
        show "triple (holding c {}) (case p of (departID, _) \<Rightarrow>
            if departID \<noteq> [] \<and> SlotCount (index_or zero_NodeInfo ?idx departID) > 0
            then drain_shard r cr i ?idx departID
            else bindE (forget_shard r cr i) (\<lambda>_. bindE (deleteShard r cr i) (\<lambda>_. scale_in_shards r cr is)))
          (conserved (total_owned (view w0)) c)"
        proof (cases "k \<noteq> [] \<and> 0 < c k")
          case True
          then have "k = pod i j" using sp by (auto simp: p shard_primary_def split: if_splits)
          then show ?thesis using True drain_shard_triple [OF snap i h0] by (simp add: p count)
        next
          case False
          have "c (pod i x) = 0" if "0 \<le> x" "x \<le> nReplicas cr" "up (endpoint cr i x)" for x
            using sp False that pod_ident by (auto simp: p shard_primary_def)
          with False rest show ?thesis by (simp only: p prod.case count if_False)
        qed
      qed
    next
      fix e w assume "\<not> is_abort e" "holding c {} w"
      then show "conserved (total_owned (view w0)) c (Inl e) w"
        using h0 total_same [of w0 w] by (simp add: conserved_def holding_def drained_def)
    qed
    then show ?thesis using False by (simp only: scale_in_shards.simps if_False)
  qed (simp add: Cons.IH)
qed

abbreviation listing :: "('w, StatefulSet list) ioE" where
  "listing \<equiv> ListSTS (kube r) (Namespace cr) [(''app.kubernetes.io/instance'', Name cr)]"

text \<open>The StatefulSets of the shards of \<open>I\<close> exist.\<close>

definition lists :: "int set \<Rightarrow> 'w \<Rightarrow> bool" where
  "lists I w \<longleftrightarrow> (\<forall>items w'. run_state listing w = (Inr items, w') \<longrightarrow> I \<subseteq> set (List.map_filter shard_index items))"

lemma indexes_triple:
  assumes "api listing"
  shows "triple (\<lambda>w. holding c D w \<and> lists I w) (existingShardIndexes r cr)
    (\<lambda>res w. held c D res w \<and> (\<forall>is. res = Inr is \<longrightarrow> I \<subseteq> set is))"
proof (rule tripleI)
  fix w res w' assume h: "holding c D w \<and> lists I w" and run: "run_state (existingShardIndexes r cr) w = (res, w')"
  obtain l w1 where l: "run_state listing w = (l, w1)" by fastforce
  have "held c D l w1" using tripleD [OF held_api [OF assms, of c D] _ l] h by simp
  moreover have "I \<subseteq> set (List.map_filter shard_index items)" if "l = Inr items" for items
    using h l that unfolding lists_def by blast
  ultimately show "held c D res w' \<and> (\<forall>is. res = Inr is \<longrightarrow> I \<subseteq> set is)"
    using run l by (cases l) (auto simp: existingShardIndexes_def run_bindE held_def)
qed

text \<open>Nodes of owners are not stale: their hosts belong to existing shards.\<close>

lemma forget_stale_triple:
  assumes list: "api listing" and owners: "\<And>k. 0 < c k \<Longrightarrow> k \<in> pods pod (nReplicas cr) I"
    and h0: "holding c {} w0" and st: "distinct (map ID (Nodes st))" "node_map st = view w0"
  shows "triple (\<lambda>w. holding c {} w \<and> lists I w) (forgetStaleNodes r cr st) (held c {})"
proof -
  have c0: "0 \<le> c k" for k using h0 inv_view owned_nonneg by (auto simp: holding_def)
  have inv0: "inv w0" using h0 by (simp add: holding_def)
  have hosts: "triple (\<lambda>w. holding c {} w \<and> lists I w) (existingPodHosts r cr)
      (\<lambda>res w. holding c {} w \<and> (\<forall>want. res = Inr want \<longrightarrow> (\<forall>i \<in> I. PodFQDN cr i ` {0..nReplicas cr} \<subseteq> set want)))"
    unfolding existingPodHosts_def
    by (rule triple_bindE [OF indexes_triple [OF list]]) (fastforce intro!: triple_retE simp: held_def)+
  have forget: "triple (holding c {})
      (if Host n \<noteq> [] \<and> Host n \<notin> set want then forgetEverywhere r cr (ID n) else retE ()) (held c {})"
    if n: "n \<in> set (Nodes st)" and want: "\<forall>i \<in> I. PodFQDN cr i ` {0..nReplicas cr} \<subseteq> set want" for n want
  proof (cases "0 < c (ID n)")
    case True
    then obtain i j where ij: "i \<in> I" "0 \<le> j" "j \<le> nReplicas cr" "ID n = pod i j"
      using owners by (fastforce simp: pods_def)
    have "view w0 (ID n) = Some n" using n node_map_iff [OF st(1), of "ID n" n] st(2) by simp
    then have "Host n = PodFQDN cr i j" using host [OF inv0, of "endpoint cr i j" n] ij(4) by (simp add: endpoint_def)
    then have "Host n \<in> set want" using want ij(1-3) by fastforce
    then show ?thesis by (simp add: held_retE)
  next
    case False
    with c0 [of "ID n"] have "c (ID n) = 0" by simp
    then show ?thesis by (simp add: held_forget held_retE)
  qed
  show ?thesis
    unfolding forgetStaleNodes_def
  proof (rule triple_bind [OF hosts], rule triple_pure)
    fix res :: "error + string list"
    assume want: "\<forall>want. res = Inr want \<longrightarrow> (\<forall>i \<in> I. PodFQDN cr i ` {0..nReplicas cr} \<subseteq> set want)"
    show "triple (holding c {}) (case res of Inl _ \<Rightarrow> retE ()
        | Inr want \<Rightarrow> forE (Nodes st) (\<lambda>n. if Host n \<noteq> [] \<and> Host n \<notin> set want then forgetEverywhere r cr (ID n) else retE ()))
        (held c {})"
    proof (cases res)
      case (Inl e)
      then show ?thesis by (simp add: held_retE)
    next
      case (Inr hs)
      then have "triple (holding c {}) (forE (Nodes st)
          (\<lambda>n. if Host n \<noteq> [] \<and> Host n \<notin> set hs then forgetEverywhere r cr (ID n) else retE ())) (held c {})"
        using want by (intro held_forE forget) simp_all
      then show ?thesis using Inr by simp
    qed
  qed
qed

lemma scaleIn_run:
  assumes h: "holding c {} w" and list: "api listing"
    and lists: "\<And>s w1. run_state (aState (Admin r) (seed cr)) w = (s, w1) \<Longrightarrow> lists I w1"
    and owners: "\<And>k. 0 < c k \<Longrightarrow> k \<in> pods pod (nReplicas cr) I"
    and del: "\<And>i. api (deleteShard r cr i)" and run: "run_state (scaleIn r cr) w = (res, w')"
  shows "conserved (total_owned (view w)) c res w'"
proof -
  let ?Q = "conserved (total_owned (view w)) c :: error + unit \<Rightarrow> 'w \<Rightarrow> bool"
  have "triple (holding c {}) (existingShardIndexes r cr) (held c {})"
    by (rule triple_conseq [OF indexes_triple [OF list, of c "{}" "{}"]]) (auto simp: lists_def)
  then have shards: "triple (holding c {}) (bindE (existingShardIndexes r cr) (scale_in_shards r cr)) ?Q"
    by (rule conserved_bindE [OF h _ scale_in_shards_triple [OF h del]])
  obtain s w1 where s: "run_state (aState (Admin r) (seed cr)) w = (s, w1)" by fastforce
  have inv: "inv w" using h by (simp add: holding_def)
  note law = State [OF inv s]
  have h1: "holding c {} w1 \<and> lists I w1" using h law lists [OF s] by (simp add: holding_def)
  let ?forget = "case s of Inr st \<Rightarrow> forgetStaleNodes r cr st | Inl _ \<Rightarrow> retE ()"
  have "triple (\<lambda>w. holding c {} w \<and> lists I w) ?forget (held c {})"
  proof (cases s)
    case (Inr st)
    then show ?thesis using law forget_stale_triple [OF list owners h, of st] by simp
  next
    case (Inl e)
    then show ?thesis by (auto intro!: triple_retE)
  qed
  from conserved_bindE [OF h this shards]
  have t: "triple (\<lambda>w. holding c {} w \<and> lists I w)
    (bindE ?forget (\<lambda>_. bindE (existingShardIndexes r cr) (scale_in_shards r cr))) ?Q" .
  have "run_state (bindE ?forget (\<lambda>_. bindE (existingShardIndexes r cr) (scale_in_shards r cr))) w1 = (res, w')"
    using run s by (simp add: scaleIn_def)
  then show ?thesis by (rule tripleD [OF t h1])
qed

end

end
