(* ===== verification/Drain_Progress.thy ===== *)
theory Drain_Progress
  imports Scale_In
begin

text \<open>On a direct cluster a pass moves one full batch off the first departing shard.\<close>

lemma scale_in_skip:
  "scale_in_shards r cr is = scale_in_shards r cr (dropWhile (\<lambda>i. i < nShards cr) is)"
  by (induction "is") simp_all

lemma dropWhile_first:
  fixes d n :: int
  assumes "sorted is" and "set is = {0..<n}" and "0 \<le> d" and "d < n"
  shows "\<exists>rest. dropWhile (\<lambda>i. i < d) is = d # rest"
proof -
  let ?l = "dropWhile (\<lambda>i. i < d) is"
  have "d \<in> set is" using assms by simp
  then have mem: "d \<in> set ?l" using set_takeWhileD [of d "\<lambda>i. i < d" "is"] takeWhile_dropWhile_id [of "\<lambda>i. i < d" "is"]
    by (metis Un_iff less_irrefl set_append)
  then obtain x rest where l: "?l = x # rest" by (cases ?l) auto
  then have "d \<le> x" using hd_dropWhile [of "\<lambda>i. i < d" "is"] by fastforce
  moreover have "sorted ?l" using assms(1) by (rule sorted_dropWhile)
  then have "x \<le> d" using mem l by auto
  ultimately show ?thesis using l by auto
qed

context direct
begin

lemma findShardPrimary_direct:
  assumes h: "holding c D w" and serv: "serving pod (nReplicas cr) n pr c" and i: "0 \<le> i" "i < n"
    and D: "shard_pods i \<subseteq> D" and idx: "map_of idx = view w"  "distinct (map fst idx)"
  shows "\<exists>w'. run_state (findShardPrimary r cr i idx) w = ((pod i (pr i), pr i), w') \<and> holding c D w' \<and> view w' = view w"
proof -
  have inv: "inv w" and dom: "D \<subseteq> dom (view w)" using h by (auto simp: holding_def)
  have snap: "snapshot c D idx" using h idx inv_view by (simp add: snapshot_def holding_def)
  have "0 \<le> j \<and> pod i j \<in> dom (view w)" if "j \<in> set [0..nReplicas cr]" for j
    using that D dom shard_podsI [of j i] by auto
  moreover have "pr i \<in> set [0..nReplicas cr]" using serving_ord [OF serv i] by simp
  ultimately obtain w' where "run_state (find_owner r cr i idx [0..nReplicas cr]) w = (Some (pod i (pr i), pr i), w')"
      "inv w'" "view w' = view w" using find_owner_direct [OF snap i(2,1) serv inv] by blast
  then show ?thesis using h by (auto simp: findShardPrimary_def holding_def)
qed

lemma drain_direct:
  assumes h: "holding c D w" and serv: "serving pod (nReplicas cr) n pr c"
    and d: "0 < nShards cr" "nShards cr < n" and D: "pods pod (nReplicas cr) {0..<n} \<subseteq> D"
    and first: "dropWhile (\<lambda>i. i < nShards cr) is = nShards cr # rest"
  shows "\<exists>w'. run_state (scale_in_shards r cr is) w = (Inr (), w') \<and>
    (let a = pod (nShards cr) (pr (nShards cr)); b = pod 0 (pr 0); m = min (c a) drainBatchSlots
     in holding (c(a := c a - m, b := c b + m)) D w')"
proof -
  let ?i = "nShards cr"
  let ?a = "pod ?i (pr ?i)" and ?b = "pod 0 (pr 0)"
  let ?m = "min (c ?a) drainBatchSlots"
  have sub: "shard_pods i \<subseteq> D" if "0 \<le> i" "i < n" for i
    using D that unfolding pods_shard_pods by fastforce
  obtain st w1 where w1: "run_state (aState (Admin r) (seed cr)) w = (Inr st, w1)" "holding c D w1"
      "map_of (byID st) = view w1" using State_exact [OF h] by blast
  obtain w2 where w2: "run_state (findShardPrimary r cr ?i (byID st)) w1 = ((?a, pr ?i), w2)" "holding c D w2"
      "view w2 = view w1"
    using findShardPrimary_direct [OF w1(2) serv _ d(2) sub w1(3) distinct_byID] d by auto
  obtain w3 where w3: "run_state (findShardPrimary r cr 0 (byID st)) w2 = ((?b, pr 0), w3)" "holding c D w3"
      "view w3 = view w1"
    using findShardPrimary_direct [OF w2(2) serv _ _ sub _ distinct_byID, of 0 st] d w1(3) w2(3) by auto
  have pos: "0 < c ?a" "0 < c ?b" using serving_ord [OF serv] d by auto
  have ne: "?a \<noteq> ?b"
    using pod_inj [of ?i "pr ?i" 0 "pr 0"] serving_ord [OF serv, of ?i] serving_ord [OF serv, of 0] d by auto
  have count: "SlotCount (index_or zero_NodeInfo (byID st) ?a) = c ?a"
    using w1(2,3) by (cases "view w1 ?a") (auto simp: holding_def)
  have batch: "(if c ?a < drainBatchSlots then c ?a else drainBatchSlots) = ?m" by simp
  have m0: "0 \<le> ?m" using pos by (simp add: drainBatchSlots_def)
  obtain k err w4 where mv: "run_state (aMoveSlots (Admin r) (seed cr) ?a ?b ?m) w3 = ((k, err), w4)" by (metis surj_pair)
  have err: "err = None" using MoveSlots_returns [of "seed cr" ?a ?b ?m w3] mv by simp
  have inv3: "inv w3" and c3: "owned (view w3) = c" and D3: "D \<subseteq> dom (view w3)" using w3(2) by (auto simp: holding_def)
  have "?a \<in> dom (view w3)" "?b \<in> dom (view w3)"
    using pos owned_pos_known c3 by metis+
  with MoveSlots [OF inv3 m0 ne mv, unfolded c3 err]
  have "holding (c(?a := c ?a - ?m, ?b := c ?b + ?m)) D w4" using D3 by (auto simp: holding_def)
  moreover have "[0..?i - 1] = 0 # [1..?i - 1]" using d by (simp add: upto.simps)
  then have surv: "run_state (firstSurvivorPrimary r cr (byID st) ?a ?i) w2 = (?b, w3)"
    using w3(1) ne pod_ident by (simp add: firstSurvivorPrimary_def)
  have "run_state (scale_in_shards r cr is) w = (Inr (), w4)"
    unfolding scale_in_skip [of r cr "is"] first
    using w1(1) w2(1) surv mv err count pos pod_ident batch
    by (simp add: run_bindE Let_def drain_shard_def)
  ultimately show ?thesis by (auto simp: Let_def)
qed

end

end
