(* ===== verification/Fake_Controller.thy ===== *)
theory Fake_Controller
  imports Fake_Contract Drain_Progress
begin

text \<open>
  The controller running against the in-memory cluster, as the repository's own controller
  tests wire it: the contracts of the library interpreted there, and what a reconcile pass does
  to the cluster.
\<close>

definition fake_reconciler :: "'a Fake_scheme Client \<Rightarrow>
    ((string \<times> NodeInfo) list \<Rightarrow> ('a Fake_scheme, (string \<times> NodeInfo) list) io) \<Rightarrow> 'a Fake_scheme Reconciler" where
  "fake_reconciler c mo = \<lparr>kube = c, Admin = Fake_admin, map_order = mo\<rparr>"

lemma fake_reconciler_simps [simp]:
  "kube (fake_reconciler c mo) = c" "Admin (fake_reconciler c mo) = Fake_admin"
  "map_order (fake_reconciler c mo) = mo"
  by (simp_all add: fake_reconciler_def)

lemma PodFQDN_nonempty: "PodFQDN cr i j \<noteq> []"
  by (simp add: PodFQDN_def)

lemma endpoint_host [simp]: "epHost (endpoint cr i j) = PodFQDN cr i j"
  by (simp add: endpoint_def)

interpretation rec: reconciling "fake_reconciler c mo" Fake_inv Fake_view epHost "\<lambda>_. True" cr for c mo cr
proof (intro reconciling.intro reconciling_axioms.intro)
  show "cluster_admin (Admin (fake_reconciler c mo)) Fake_inv Fake_view epHost (\<lambda>_. True)"
    using fake.cluster_admin_axioms by simp
qed (use PodFQDN_nonempty PodFQDN_inj_cluster in auto)

interpretation rel: reliable "fake_reconciler c mo" Fake_inv Fake_view epHost "\<lambda>_. True" cr for c mo cr
  by unfold_locales (auto simp: returns_def Fake_MoveSlots_def Let_def)

section \<open>The in-memory cluster reports each command at once\<close>

lemma Fake_AddSlots_view:
  assumes "Fake_inv f" and "epHost ep \<noteq> []" and "\<forall>g \<in> set gs. 0 \<le> range_count g"
  shows "Fake_inv (Fake_AddSlots ep gs f) \<and>
    dom (Fake_view (Fake_AddSlots ep gs f)) = insert (epHost ep) (dom (Fake_view f)) \<and>
    owned (Fake_view (Fake_AddSlots ep gs f)) =
      (owned (Fake_view f))(epHost ep := owned (Fake_view f) (epHost ep) + sum_list (map range_count gs))"
proof -
  let ?k = "epHost ep" and ?f = "ensure ep f"
  have own: "owned (Fake_view ?f) = owned (Fake_view f)" using grown_owned [OF grown_ensure] .
  obtain n where n: "Fake_view ?f ?k = Some n" by fastforce
  have view: "Fake_view (Fake_AddSlots ep gs f) =
      (Fake_view ?f)(?k \<mapsto> n\<lparr>MasterID := [], Flags := [''master''], Slots := Slots n @ gs\<rparr>)"
    unfolding Fake_AddSlots_def using n by (simp add: mutate_def)
  have "Fake_inv (Fake_AddSlots ep gs f)"
    using assms Fake_inv_ensure [OF assms(1,2)] Fake_wf_AddSlots [of f gs ep]
    by (auto simp: Fake_inv_def view)
  moreover have "dom (Fake_view (Fake_AddSlots ep gs f)) = insert ?k (dom (Fake_view f))"
    unfolding view by auto
  moreover have "owned (Fake_view f) ?k = SlotCount n" using own n by (metis owned_Some)
  then have "owned (Fake_view (Fake_AddSlots ep gs f)) =
      (owned (Fake_view f))(?k := owned (Fake_view f) ?k + sum_list (map range_count gs))"
    unfolding view by (simp add: own SlotCount_eq)
  ultimately show ?thesis by blast
qed

lemma Fake_replica_role:
  "Fake_inv f \<Longrightarrow> Fake_view f k = Some n \<Longrightarrow> MasterID n \<noteq> [] \<Longrightarrow> \<not> IsPrimary n"
  using Fake_wf_node [of f k n] by (auto simp: Fake_inv_def node_ok_def IsPrimary_iff)

lemma Fake_reported:
  assumes "Fake_inv f"
  shows "(Formed (Fake_State f) \<longleftrightarrow> 0 < total_owned (Fake_view f)) \<and>
    (SlotsCovered (Fake_State f) \<longleftrightarrow> total_owned (Fake_view f) = TotalSlots) \<and> \<not> OpenSlots (Fake_State f)"
proof -
  have "total_owned (Fake_view f) = assignedSlots f" using assms total_Fake [of f] by (simp add: Fake_inv_def)
  then show ?thesis by (auto simp: Fake_State_def Let_def assignedSlots_def)
qed

lemma Fake_MoveSlots_dom: "dom (Fake_view (snd (Fake_MoveSlots a b n f))) = dom (Fake_view f)"
  by (auto simp: Fake_MoveSlots_def Let_def mutate_def split: option.splits)

interpretation dir: direct "fake_reconciler c mo" Fake_inv Fake_view epHost "\<lambda>_. True" cr for c mo cr
proof (unfold_locales, goal_cases)
  case (1 w k n)
  then show ?case by (rule Fake_replica_role)
next
  case (2 w ep i w')
  then have "ensure ep w = w" by (intro ensure_known) auto
  with 2 show ?case by (auto split: prod.splits simp: Fake_MyID_def Let_def)
next
  case (3 w ep p m w')
  then show ?case by (auto simp: Fake_Replicate_def mutate_def split: option.splits if_splits)
next
  case (4 w ep gs m w')
  then show ?case using Fake_AddSlots_view [of w ep gs] by simp
next
  case (5 w ep st w')
  then show ?case using Fake_reported [of w] by auto
next
  case (6 ep w s w')
  then show ?case by simp
next
  case (7 ep w i w')
  then show ?case by (auto split: prod.splits simp: Fake_MyID_def Let_def)
next
  case (8 ep gs w m w')
  then show ?case by (auto simp: Fake_AddSlots_def mutate_def split: option.splits if_splits)
next
  case (9 a b w m w')
  then show ?case by (auto simp: Fake_Meet_def split: if_splits)
next
  case (10 ep p w m w')
  then show ?case by (auto simp: Fake_Replicate_def mutate_def split: option.splits if_splits)
next
  case (11 ep k x num w m' w')
  then show ?case using Fake_MoveSlots_dom [of k x num w] by simp
qed

end
