(* ===== verification/Store_Client.thy ===== *)
theory Store_Client
  imports Fake_Controller
begin

text \<open>
  A small API server for concrete runs: one custom resource, its StatefulSets and volume claims
  kept beside the in-memory cluster, and a clock. It is an instance of the client the controller
  takes as a parameter, used where a property's hypotheses about the client are shown to hold.
\<close>

record Store = Fake +
  stored_vc :: "ValkeyCluster option"
  stored_sts :: "StatefulSet list"
  stored_pvc :: "PersistentVolumeClaim list"
  clock :: Time

definition NotFound :: error where
  "NotFound = Extern ''not found''"

definition sts_at :: "NamespacedName \<Rightarrow> StatefulSet \<Rightarrow> bool" where
  "sts_at k s \<longleftrightarrow> (mNamespace (stsMeta s), mName (stsMeta s)) = k"

definition store_sts :: "StatefulSet \<Rightarrow> (StatefulSet \<Rightarrow> error + StatefulSet) \<Rightarrow> Store \<Rightarrow> (error + unit) \<times> Store" where
  "store_sts obj f w =
     (let k = (mNamespace (stsMeta obj), mName (stsMeta obj));
          others = filter (\<lambda>s. \<not> sts_at k s) (stored_sts w);
          old = (case find (sts_at k) (stored_sts w) of Some s \<Rightarrow> s | None \<Rightarrow> obj)
      in case f old of
           Inl e \<Rightarrow> (Inl e, w)
         | Inr s \<Rightarrow> (Inr (), w\<lparr>stored_sts := others @ [s]\<rparr>))"

definition store_client :: "Store Client" where
  "store_client =
     \<lparr>GetVC = (\<lambda>_. State (\<lambda>w. (case stored_vc w of None \<Rightarrow> Inl NotFound | Some v \<Rightarrow> Inr v, w))),
      UpdateVC = (\<lambda>v. State (\<lambda>w. (Inr v, w\<lparr>stored_vc := Some v\<rparr>))),
      StatusUpdate = (\<lambda>v. State (\<lambda>w. (Inr (), w\<lparr>stored_vc := Some v\<rparr>))),
      GetSTS = (\<lambda>k. State (\<lambda>w. (case find (sts_at k) (stored_sts w) of None \<Rightarrow> Inl NotFound | Some s \<Rightarrow> Inr s, w))),
      ListSTS = (\<lambda>ns ls. State (\<lambda>w.
        (Inr (filter (\<lambda>s. mNamespace (stsMeta s) = ns \<and> labels_match ls (mLabels (stsMeta s))) (stored_sts w)), w))),
      DeleteSTS = (\<lambda>s. State (\<lambda>w.
        (Inr (), w\<lparr>stored_sts := filter (\<lambda>t. \<not> sts_at (mNamespace (stsMeta s), mName (stsMeta s)) t) (stored_sts w)\<rparr>))),
      ListPVC = (\<lambda>ns ls. State (\<lambda>w.
        (Inr (filter (\<lambda>p. mNamespace (pvcMeta p) = ns \<and> labels_match ls (mLabels (pvcMeta p))) (stored_pvc w)), w))),
      DeletePVC = (\<lambda>p. State (\<lambda>w. (Inr (), w\<lparr>stored_pvc := removeAll p (stored_pvc w)\<rparr>))),
      CreateOrUpdateCM = (\<lambda>o' f. State (\<lambda>w. (map_sum id (\<lambda>_. ()) (f o'), w))),
      CreateOrUpdateSvc = (\<lambda>o' f. State (\<lambda>w. (map_sum id (\<lambda>_. ()) (f o'), w))),
      CreateOrUpdateSTS = (\<lambda>o' f. State (store_sts o' f)),
      SetControllerReference = (\<lambda>_ m. Inr m),
      RetryOnConflict = (\<lambda>m. m),
      IsNotFound = (\<lambda>e. e = NotFound),
      IgnoreNotFound = (\<lambda>e. if e = NotFound then None else Some e),
      ContainsFinalizer = (\<lambda>v f. f \<in> set (mFinalizers (Meta v))),
      AddFinalizer = (\<lambda>v f. v\<lparr>Meta := (Meta v)\<lparr>mFinalizers := mFinalizers (Meta v) @ [f]\<rparr>\<rparr>),
      RemoveFinalizer = (\<lambda>v f. v\<lparr>Meta := (Meta v)\<lparr>mFinalizers := filter (\<lambda>g. g \<noteq> f) (mFinalizers (Meta v))\<rparr>\<rparr>),
      Now = State (\<lambda>w. (clock w, w))\<rparr>"

text \<open>No Valkey node is known yet.\<close>

definition empty_store :: "ValkeyCluster \<Rightarrow> Store" where
  "empty_store cr = \<lparr>nodes = [], stored_vc = Some cr, stored_sts = [], stored_pvc = [], clock = 0\<rparr>"

text \<open>Go maps iterated in the order of the list.\<close>

definition list_order :: "(string \<times> NodeInfo) list \<Rightarrow> ('w, (string \<times> NodeInfo) list) io" where
  "list_order idx = ret idx"

abbreviation store_reconciler :: "Store Reconciler" where
  "store_reconciler \<equiv> fake_reconciler store_client list_order"

lemma store_order_ok: "order_ok store_reconciler"
  by (simp add: order_ok_def list_order_def)

lemma empty_store_inv: "Fake_inv (empty_store cr)"
  by (simp add: Fake_inv_def Fake_wf_def empty_store_def)

end
