(* ===== verification/Passes.thy ===== *)
theory Passes
  imports Store_Client
begin

text \<open>
  Whole reconcile passes over the in-memory cluster: forming, scaling out, and the passes over
  a cluster that needs nothing.
\<close>

section \<open>The API client\<close>

text \<open>
  A call that does not reach into the Valkey cluster, and whose failure is an error value.
\<close>

definition call_ok :: "('a Fake_scheme, 'b) ioE \<Rightarrow> bool" where
  "call_ok m \<longleftrightarrow>
     (\<forall>w res w'. run_state m w = (res, w') \<longrightarrow> nodes w' = nodes w \<and> (\<forall>e. res = Inl e \<longrightarrow> \<not> is_abort e))"

definition read_ok :: "('a Fake_scheme, 'b) io \<Rightarrow> bool" where
  "read_ok m \<longleftrightarrow> (\<forall>w res w'. run_state m w = (res, w') \<longrightarrow> nodes w' = nodes w)"

text \<open>The API server does not reach into the Valkey cluster, and its errors are error values.\<close>

definition client_frame :: "'a Fake_scheme Client \<Rightarrow> bool" where
  "client_frame c \<longleftrightarrow>
     (\<forall>k. call_ok (GetVC c k)) \<and> (\<forall>v. call_ok (UpdateVC c v)) \<and> (\<forall>v. call_ok (StatusUpdate c v)) \<and>
     (\<forall>k. call_ok (GetSTS c k)) \<and> (\<forall>n ls. call_ok (ListSTS c n ls)) \<and> (\<forall>s. call_ok (DeleteSTS c s)) \<and>
     (\<forall>n ls. call_ok (ListPVC c n ls)) \<and> (\<forall>p. call_ok (DeletePVC c p)) \<and> read_ok (Now c) \<and>
     (\<forall>ob f. (\<forall>x e. f x = Inl e \<longrightarrow> \<not> is_abort e) \<longrightarrow> call_ok (CreateOrUpdateCM c ob f)) \<and>
     (\<forall>ob f. (\<forall>x e. f x = Inl e \<longrightarrow> \<not> is_abort e) \<longrightarrow> call_ok (CreateOrUpdateSvc c ob f)) \<and>
     (\<forall>ob f. (\<forall>x e. f x = Inl e \<longrightarrow> \<not> is_abort e) \<longrightarrow> call_ok (CreateOrUpdateSTS c ob f)) \<and>
     (\<forall>cr m e. SetControllerReference c cr m = Inl e \<longrightarrow> \<not> is_abort e) \<and>
     (\<forall>e e'. IgnoreNotFound c e = Some e' \<longrightarrow> is_abort e' \<longrightarrow> is_abort e) \<and>
     (\<forall>m. call_ok m \<longrightarrow> call_ok (RetryOnConflict c m))"

lemma frame_calls:
  assumes "client_frame c"
  shows "call_ok (GetVC c k)" "call_ok (UpdateVC c v)" "call_ok (StatusUpdate c v)" "call_ok (GetSTS c k)"
    "call_ok (ListSTS c n ls)" "call_ok (DeleteSTS c s)" "call_ok (ListPVC c n ls)" "call_ok (DeletePVC c p)"
    "read_ok (Now c)" "call_ok m \<Longrightarrow> call_ok (RetryOnConflict c m)"
  using assms unfolding client_frame_def by (simp_all del: split_paired_All)

lemma call_ok_retE: "call_ok (retE x)"
  by (simp add: call_ok_def)

lemma call_ok_failE: "\<not> is_abort e \<Longrightarrow> call_ok (failE e)"
  by (simp add: call_ok_def)

lemma call_ok_bind: "read_ok m \<Longrightarrow> (\<And>x. call_ok (f x)) \<Longrightarrow> call_ok (State_Monad.bind m f)"
  unfolding call_ok_def read_ok_def by (fastforce split: prod.splits)

lemma call_ok_bindE:
  assumes "call_ok m" and "\<And>x. call_ok (f x)"
  shows "call_ok (bindE m f)"
  unfolding call_ok_def
proof (intro allI impI)
  fix w res w' assume run: "run_state (bindE m f) w = (res, w')"
  obtain r1 w1 where m: "run_state m w = (r1, w1)" by fastforce
  with assms(1) have m': "nodes w1 = nodes w" "\<And>e. r1 = Inl e \<Longrightarrow> \<not> is_abort e" unfolding call_ok_def by blast+
  show "nodes w' = nodes w \<and> (\<forall>e. res = Inl e \<longrightarrow> \<not> is_abort e)"
  proof (cases r1)
    case (Inr x)
    with m run have "run_state (f x) w1 = (res, w')" by (simp add: run_bindE)
    with assms(2) [of x] m'(1) show ?thesis unfolding call_ok_def by metis
  qed (use m run m' in \<open>auto simp: run_bindE\<close>)
qed

lemma call_ok_forE: "(\<And>x. x \<in> set xs \<Longrightarrow> call_ok (f x)) \<Longrightarrow> call_ok (forE xs f)"
  by (induction xs) (auto intro: call_ok_retE call_ok_bindE)

lemma read_ok_ret: "read_ok (ret x)"
  by (simp add: read_ok_def)

lemma read_ok_bind: "read_ok m \<Longrightarrow> (\<And>x. read_ok (f x)) \<Longrightarrow> read_ok (State_Monad.bind m f)"
  unfolding read_ok_def by (fastforce split: prod.splits)

lemma call_read: "call_ok m \<Longrightarrow> read_ok m"
  unfolding call_ok_def read_ok_def by blast

lemma frame_setCond: "client_frame c \<Longrightarrow> read_ok (setCond c typ status reason msg cr)"
  unfolding setCond_def by (intro read_ok_bind read_ok_ret frame_calls)

lemma frame_set_conds: "client_frame c \<Longrightarrow> read_ok (set_conds c cs cr)"
  by (induction c cs cr rule: set_conds.induct) (auto intro!: read_ok_bind read_ok_ret frame_setCond)

lemma frame_setPhase: "client_frame (kube r) \<Longrightarrow> call_ok (setPhase r cr phase reason msg)"
  unfolding setPhase_def by (intro frame_calls call_ok_bindE call_ok_bind frame_setCond)

lemma frame_updateStatus: "client_frame (kube r) \<Longrightarrow> call_ok (updateStatus r cr st)"
  unfolding updateStatus_def Let_def case_prod_beta
  by (intro frame_calls call_ok_bindE call_ok_bind frame_set_conds)

lemma frame_indexes: "client_frame (kube r) \<Longrightarrow> call_ok (existingShardIndexes r cr)"
  unfolding existingShardIndexes_def by (intro call_ok_bindE call_ok_retE frame_calls)

lemma frame_excess: "client_frame (kube r) \<Longrightarrow> call_ok (hasExcessShardStatefulSets r cr)"
  unfolding hasExcessShardStatefulSets_def by (intro call_ok_bindE call_ok_retE frame_indexes)

lemma call_nodes: "call_ok m \<Longrightarrow> run_state m w = (res, w') \<Longrightarrow> nodes w' = nodes w"
  unfolding call_ok_def by blast

lemma Fake_State_cong: "nodes w' = nodes w \<Longrightarrow> Fake_State w' = Fake_State w"
  by (simp add: Fake_State_def assignedSlots_def)

lemma Fake_inv_cong: "nodes w' = nodes w \<Longrightarrow> Fake_inv w' = Fake_inv w"
  by (simp add: Fake_inv_def Fake_wf_def)

section \<open>A pass around its action\<close>

lemma pass_around:
  fixes w :: "'a Fake_scheme"
  assumes frame: "client_frame c" and w: "run_state (final_plan (fake_reconciler c mo) cr (decide cr (Fake_State w))) w = (Inr plan, w1)"
    and act: "run_state (act (fake_reconciler c mo) cr (Fake_State w) (Kind plan)) w1 = (Inr (), w2)"
  shows "\<exists>res w'. run_state (reconcileCluster (fake_reconciler c mo) cr) w = (res, w') \<and> nodes w' = nodes w2 \<and>
    (\<forall>b. res = Inr b \<longrightarrow> b = in_flight (Kind plan))"
proof -
  let ?r = "fake_reconciler c mo"
  obtain s w3 where s: "run_state (updateStatus ?r cr (Fake_State w2)) w2 = (s, w3)" by fastforce
  have "nodes w3 = nodes w2"
    by (rule call_nodes [OF _ s]) (intro frame_updateStatus, simp add: frame)
  moreover have "run_state (reconcileCluster ?r cr) w =
      (case s of Inl e \<Rightarrow> Inl e | Inr _ \<Rightarrow> Inr (in_flight (Kind plan)), w3)"
    unfolding reconcileCluster_def using w act s by (simp add: run_bindE run_wrapE split: sum.split)
  ultimately show ?thesis by (cases s) auto
qed

lemma phase_then:
  fixes w :: "'a Fake_scheme"
  assumes "client_frame (kube r)"
  shows "\<exists>w1. nodes w1 = nodes w \<and>
    run_state (bindE (ignoreE (setPhase r cr phase reason msg)) (\<lambda>_. m)) w = run_state m w1"
proof -
  obtain s w1 where s: "run_state (setPhase r cr phase reason msg) w = (s, w1)" by fastforce
  have "nodes w1 = nodes w" by (rule call_nodes [OF frame_setPhase [OF assms] s])
  with s show ?thesis by (auto simp: run_bindE run_ignoreE)
qed

section \<open>Forming\<close>

lemma pods_eq: "pods (\<lambda>i j. epHost (endpoint cr i j)) = pods (PodFQDN cr)"
  by simp

lemma unformed_empty:
  assumes "Fake_inv w" and "\<not> Formed (Fake_State w)"
  shows "owned (Fake_view w) = (\<lambda>_. 0)"
proof
  fix k
  have ok: "view_ok (Fake_view w)" by (rule Fake_inv_view [OF assms(1)])
  have "total_owned (Fake_view w) \<le> 0" using Fake_reported [OF assms(1)] assms(2) by simp
  then have "sum (owned (Fake_view w)) (dom (Fake_view w)) = 0"
    using sum_nonneg [of "dom (Fake_view w)" "owned (Fake_view w)"] owned_nonneg [OF ok] by (simp add: total_owned_def)
  then have "\<forall>k \<in> dom (Fake_view w). owned (Fake_view w) k = 0"
    using owned_nonneg [OF ok] by (subst (asm) sum_nonneg_eq_0_iff) (auto simp: finite_dom_map_of)
  then show "owned (Fake_view w) k = 0" by (metis domIff owned_None)
qed

lemma Fake_settled:
  fixes w :: "'a Fake_scheme"
  assumes "Fake_inv w" and "arranged (PodFQDN cr) (nReplicas cr) (nShards cr) pr (Fake_view w)"
    and "assignedSlots w = TotalSlots" and "0 < nShards cr" and "0 \<le> nReplicas cr"
  shows "Kind (decide cr (Fake_State w)) = ActionNone \<and> all_ready cr (Fake_State w)"
proof (rule dir.settled)
  have wf: "Fake_wf w" using assms(1) by (simp add: Fake_inv_def)
  show "dir.reports cr pr (Fake_State w) w"
    using assms distinct_ID_State [OF wf] Fake_State_view [OF wf] by (simp add: dir.reports_def)
  show "total_owned (Fake_view w) = TotalSlots" using total_Fake [OF wf] assms(3) by simp
  show "run_state (aState (Admin (fake_reconciler undefined undefined)) undefined) w = (Inr (Fake_State w), w)" by simp
qed

text \<open>A pass whose action arranges the cluster.\<close>

lemma pass_settles:
  fixes w :: "'a Fake_scheme"
  assumes frame: "client_frame c" and w: "run_state (final_plan (fake_reconciler c mo) cr (decide cr (Fake_State w))) w = (Inr plan, w1)"
    and act: "run_state (act (fake_reconciler c mo) cr (Fake_State w) (Kind plan)) w1 = (Inr (), w2)"
    and w2: "Fake_inv w2" "total_owned (Fake_view w2) = TotalSlots"
      "arranged (PodFQDN cr) (nReplicas cr) (nShards cr) pr (Fake_view w2)"
    and cr: "0 < nShards cr" "0 \<le> nReplicas cr"
  shows "\<exists>res w'. run_state (reconcileCluster (fake_reconciler c mo) cr) w = (res, w') \<and> nodes w' = nodes w2 \<and>
    (\<forall>b. res = Inr b \<longrightarrow> b = in_flight (Kind plan)) \<and> assignedSlots w' = TotalSlots \<and>
    arranged (PodFQDN cr) (nReplicas cr) (nShards cr) pr (Fake_view w') \<and>
    Kind (decide cr (Fake_State w')) = ActionNone \<and> all_ready cr (Fake_State w')"
proof -
  from pass_around [OF frame w act] obtain res w'
    where w': "run_state (reconcileCluster (fake_reconciler c mo) cr) w = (res, w')" "nodes w' = nodes w2"
      "\<forall>b. res = Inr b \<longrightarrow> b = in_flight (Kind plan)" by blast
  have inv': "Fake_inv w'" using w2(1) Fake_inv_cong [OF w'(2)] by simp
  then have total: "assignedSlots w' = TotalSlots"
    using w2(2) total_Fake [of w'] w'(2) by (simp add: Fake_inv_def)
  have arr: "arranged (PodFQDN cr) (nReplicas cr) (nShards cr) pr (Fake_view w')" using w2(3) w'(2) by simp
  from w' total arr Fake_settled [OF inv' arr total cr] show ?thesis by blast
qed


lemma NotFound_error: "\<not> is_abort NotFound"
  by (simp add: NotFound_def is_abort_def)

lemma store_sts_ok:
  "(\<forall>x e. f x = Inl e \<longrightarrow> \<not> is_abort e) \<Longrightarrow> call_ok (State (store_sts ob f))"
  by (auto simp: call_ok_def store_sts_def Let_def split: sum.splits)

lemma map_sum_Inl: "map_sum id g x = Inl e \<longleftrightarrow> x = Inl e"
  by (cases x) auto

lemma store_frame: "client_frame store_client"
  unfolding client_frame_def store_client_def Client.simps
  by (intro conjI allI impI store_sts_ok)
    (auto simp: call_ok_def read_ok_def NotFound_error map_sum_Inl split: option.splits if_splits)


end
