(* ===== verification/Pass_Scale_Out.thy ===== *)
theory Pass_Scale_Out
  imports Passes
begin

text \<open>Whole reconcile passes that add shards.\<close>

lemma Fake_primaries:
  fixes w :: "'a Fake_scheme"
  assumes "Fake_inv w"
  shows "oPrimaryCount (summarize (Fake_State w)) = int (card {k. 0 < owned (Fake_view w) k})"
proof -
  have wf: "Fake_wf w" using assms by (simp add: Fake_inv_def)
  have "(\<exists>n. Fake_view w k = Some n \<and> slot_owner n) \<longleftrightarrow> 0 < owned (Fake_view w) k" for k
    using Fake_inv_view [OF assms] by (cases "Fake_view w k") (auto simp: slot_owner_def view_ok_def)
  then show ?thesis
    unfolding summarize_def Let_def
    by (simp add: length_filter_view [OF distinct_ID_State [OF wf]] Fake_State_view [OF wf])
qed

text \<open>
  Claim C2. Scaling out converges. For an admitted cluster whose first \<open>old\<close> shards serve all
  slots between them, one primary each, and whose known nodes are its pods, a pass that plans
  ``scale out'' returns, whatever order Go's maps are iterated in. Afterwards every declared
  shard has one serving primary and all its other pods as replicas, every new shard owns exactly
  \<open>16384 div shards\<close> slots, no primary has been emptied, primaries at or below that share have
  given nothing away, all slots are still assigned, and the planner has nothing left to do.
\<close>

theorem reconcile_scales_out:
  fixes w :: "'a Fake_scheme"
  assumes adm: "spec_admitted (Spec cr)" and inv: "Fake_inv w" and order: "order_ok (fake_reconciler c mo)"
    and serv: "serving (PodFQDN cr) (nReplicas cr) old pr (\<lambda>k. count_at k w)" and old: "0 \<le> old"
    and known: "pods (PodFQDN cr) (nReplicas cr) {0..<old} \<subseteq> dom (Fake_view w)"
      "dom (Fake_view w) \<subseteq> pods (PodFQDN cr) (nReplicas cr) {0..<nShards cr}"
    and plan: "Kind (decide cr (Fake_State w)) = ActionScaleOutShards" and frame: "client_frame c"
  shows "\<exists>res w'. run_state (reconcileCluster (fake_reconciler c mo) cr) w = (res, w') \<and>
    (\<forall>progressing. res = Inr progressing \<longrightarrow> progressing) \<and>
    arranged (PodFQDN cr) (nReplicas cr) (nShards cr) (\<lambda>i. if i < old then pr i else 0) (Fake_view w') \<and>
    (\<forall>i \<in> {old..<nShards cr}. count_at (PodFQDN cr i 0) w' = TotalSlots div nShards cr) \<and>
    (\<forall>k. 0 < count_at k w \<longrightarrow> 0 < count_at k w') \<and>
    (\<forall>k. k \<notin> (\<lambda>i. PodFQDN cr i 0) ` {old..<nShards cr} \<longrightarrow> count_at k w \<le> TotalSlots div nShards cr \<longrightarrow>
       count_at k w' = count_at k w) \<and>
    assignedSlots w' = TotalSlots \<and>
    Kind (decide cr (Fake_State w')) = ActionNone \<and> all_ready cr (Fake_State w')"
proof -
  let ?r = "fake_reconciler c mo" and ?R = "nReplicas cr" and ?d = "nShards cr"
  let ?new = "(\<lambda>i. PodFQDN cr i 0) ` {old..<?d}" and ?pr = "\<lambda>i. if i < old then pr i else 0"
  let ?share = "TotalSlots div ?d"
  have d: "0 < ?d" "?d \<le> TotalSlots" and R: "0 \<le> ?R"
    using admitted_shards [OF adm] admitted_replicas [OF adm] by (simp_all add: TotalSlots_def)
  have wf: "Fake_wf w" using inv by (simp add: Fake_inv_def)
  have own: "serving (PodFQDN cr) ?R old pr (owned (Fake_view w))" using serv by (simp add: owned_Fake [abs_def])
  have count: "oPrimaryCount (summarize (Fake_State w)) = old"
    using rel.serving_card [of cr old pr "owned (Fake_view w)"] own old Fake_primaries [OF inv] by simp
  have cov: "assignedSlots w = TotalSlots" and less: "old < ?d"
    using plan count by (simp_all add: decide_def Decide_Kind_iffs) (simp add: summarize_def Let_def Fake_State_def)
  have final: "run_state (final_plan ?r cr (decide cr (Fake_State w))) w = (Inr (decide cr (Fake_State w)), w)"
    using plan by (simp add: final_plan_def)
  obtain w1 where w1: "nodes w1 = nodes w"
      "run_state (act ?r cr (Fake_State w) ActionScaleOutShards) w = run_state (scaleOut ?r cr old) w1"
    using phase_then [of ?r w cr PhaseResharding "''Resharding''" "''adding shards''" "scaleOut ?r cr old"] frame
    by (auto simp: act_def count)
  have pre: "Fake_inv w1" "total_owned (Fake_view w1) = TotalSlots"
    using inv total_Fake [OF wf] cov by (simp_all add: w1(1) Fake_inv_cong [OF w1(1)])
  from dir.scaleOut_direct [OF order pre, of cr old pr] own known old less d R obtain w2
    where w2: "run_state (scaleOut ?r cr old) w1 = (Inr (), w2)" "Fake_inv w2" "total_owned (Fake_view w2) = TotalSlots"
      "arranged (PodFQDN cr) ?R ?d ?pr (Fake_view w2)"
      "handed_out ?share (owned (Fake_view w)) ?new (owned (Fake_view w2))"
    by (auto simp: w1(1))
  have fresh: "owned (Fake_view w) (PodFQDN cr i 0) = 0" if "old \<le> i" for i
    using rel.serving_owner [of cr old pr "owned (Fake_view w)" i 0] own old that
      owned_nonneg [OF Fake_inv_view [OF inv], of "PodFQDN cr i 0"] by simp
  have "0 \<le> ?share" using d(1) by (simp add: TotalSlots_def pos_imp_zdiv_nonneg_iff)
  then have "(\<forall>i \<in> {old..<?d}. owned (Fake_view w2) (PodFQDN cr i 0) = ?share) \<and>
    (\<forall>k. 0 < owned (Fake_view w) k \<longrightarrow> 0 < owned (Fake_view w2) k) \<and>
    (\<forall>k. k \<notin> ?new \<longrightarrow> owned (Fake_view w) k \<le> ?share \<longrightarrow> owned (Fake_view w2) k = owned (Fake_view w) k)"
    using w2(5) fresh unfolding handed_out_def by simp
  moreover have "run_state (act ?r cr (Fake_State w) (Kind (decide cr (Fake_State w)))) w = (Inr (), w2)"
    using w1(2) w2(1) plan by simp
  ultimately show ?thesis
    using pass_settles [OF frame final _ w2(2-4) d(1) R] plan unfolding owned_Fake [symmetric]
    by (fastforce simp: in_flight_def)
qed

text \<open>One shard without replicas that owns every slot.\<close>

definition one_shard :: "ValkeyCluster \<Rightarrow> Store" where
  "one_shard cr = (empty_store cr)\<lparr>nodes :=
     [(PodFQDN cr 0 0, (new_node (endpoint cr 0 0))\<lparr>Slots := [\<lparr>Start = 0, End = 16383\<rparr>]\<rparr>)]\<rparr>"

lemma one_shard_inv: "Fake_inv (one_shard cr)"
  using PodFQDN_nonempty [of cr 0 0]
  by (auto simp: one_shard_def Fake_inv_def Fake_wf_def node_ok_def new_node_def zero_NodeInfo_def range_count_def)

lemma one_shard_count: "count_at k (one_shard cr) = (if k = PodFQDN cr 0 0 then 16384 else 0)"
  by (simp add: count_at_def one_shard_def index_or_def SlotCount_eq range_count_def zero_NodeInfo_def)

theorem reconcile_scales_out_witness:
  "\<exists>res w'. run_state (reconcileCluster store_reconciler (demo_cluster 3 0)) (one_shard (demo_cluster 3 0)) = (res, w') \<and>
    count_at (PodFQDN (demo_cluster 3 0) 1 0) w' = 5461 \<and> count_at (PodFQDN (demo_cluster 3 0) 2 0) w' = 5461 \<and>
    assignedSlots w' = 16384 \<and> Kind (decide (demo_cluster 3 0) (Fake_State w')) = ActionNone"
proof -
  let ?cr = "demo_cluster 3 0"
  let ?w = "one_shard ?cr"
  have adm: "spec_admitted (Spec ?cr)" by (rule demo_admitted) simp_all
  have one: "{0..<1::int} = {0}" by auto
  have serv: "serving (PodFQDN ?cr) (nReplicas ?cr) 1 (\<lambda>_. 0) (\<lambda>k. count_at k ?w)"
    by (auto simp: serving_def one_shard_count one)
  have known: "pods (PodFQDN ?cr) (nReplicas ?cr) {0..<1} \<subseteq> dom (Fake_view ?w)"
    "dom (Fake_view ?w) \<subseteq> pods (PodFQDN ?cr) (nReplicas ?cr) {0..<nShards ?cr}"
    by (auto simp: pods_def one_shard_def one)
  have "oPrimaryCount (summarize (Fake_State ?w)) = 1"
    unfolding Fake_primaries [OF one_shard_inv] by (simp add: owned_Fake one_shard_count)
  moreover have "assignedSlots ?w = 16384" by (simp add: assignedSlots_def one_shard_def SlotCount_eq range_count_def)
  ultimately have plan: "Kind (decide ?cr (Fake_State ?w)) = ActionScaleOutShards"
    unfolding decide_def Decide_Kind_iffs
    by (simp add: summarize_def Let_def Fake_State_def TotalSlots_def) (simp add: one_shard_def)
  show ?thesis
    using reconcile_scales_out [OF adm one_shard_inv store_order_ok serv _ known plan store_frame]
    by (auto simp: TotalSlots_def)
qed

end
