(* ===== verification/Pass_Steady.thy ===== *)
theory Pass_Steady
  imports Pass_Scale_Out
begin

text \<open>Reconcile passes over a cluster that is as declared.\<close>

lemma forE_same: "(\<And>x. x \<in> set xs \<Longrightarrow> run_state (f x) w = (Inr (), w)) \<Longrightarrow> run_state (forE xs f) w = (Inr (), w)"
  by (induction xs) (simp_all add: run_bindE)

lemma Fake_MyID_known:
  assumes "Fake_inv w" and "epHost ep \<in> dom (Fake_view w)"
  shows "run_state (aMyID Fake_admin ep) w = (Inr (epHost ep), w)"
proof -
  have "ensure ep w = w" using assms(2) by (intro ensure_known) auto
  moreover from assms obtain n where "Fake_view w (epHost ep) = Some n" by blast
  moreover from this have "ID n = epHost ep" using assms(1) Fake_wf_node [of w] by (simp add: Fake_inv_def node_ok_def)
  ultimately show ?thesis by (simp add: Fake_MyID_def Let_def)
qed

text \<open>The cluster is as declared.\<close>

definition converged :: "ValkeyCluster \<Rightarrow> 'a Fake_scheme \<Rightarrow> bool" where
  "converged cr w \<longleftrightarrow> Fake_inv w \<and> assignedSlots w = TotalSlots \<and> 0 < nShards cr \<and> 0 \<le> nReplicas cr \<and>
     (\<exists>pr. arranged (PodFQDN cr) (nReplicas cr) (nShards cr) pr (Fake_view w))"

lemma converged_pod:
  assumes "converged cr w" and "0 \<le> i" "i < nShards cr" "0 \<le> j" "j \<le> nReplicas cr"
  shows "PodFQDN cr i j \<in> dom (Fake_view w)"
proof -
  have "dom (Fake_view w) = pods (PodFQDN cr) (nReplicas cr) {0..<nShards cr}"
    using assms(1) by (auto simp: converged_def arranged_def)
  with assms podsI [of i "{0..<nShards cr}" j "nReplicas cr" "PodFQDN cr"] show ?thesis by simp
qed

text \<open>No node is stale when the known nodes are the pods of the existing shards.\<close>

lemma stale_quiet:
  fixes w :: "'a Fake_scheme"
  assumes inv: "Fake_inv w" and dom: "dom (Fake_view w) = pods (PodFQDN cr) (nReplicas cr) I"
    and list: "run_state (ListSTS c (Namespace cr) [(''app.kubernetes.io/instance'', Name cr)]) w = (Inr items, w)"
    and shards: "set (List.map_filter shard_index items) = I"
  shows "run_state (forgetStaleNodes (fake_reconciler c mo) cr (Fake_State w)) w = (Inr (), w)"
proof -
  let ?want = "concat (map (\<lambda>i. map (\<lambda>j. PodFQDN cr i j) [0..nReplicas cr]) (sort (List.map_filter shard_index items)))"
  have wf: "Fake_wf w" using inv by (simp add: Fake_inv_def)
  have want: "run_state (existingPodHosts (fake_reconciler c mo) cr) w = (Inr ?want, w)"
    by (simp only: existingPodHosts_def existingShardIndexes_def run_bindE fake_reconciler_simps list
        prod.case sum.case run_retE)
  have all: "set ?want = pods (PodFQDN cr) (nReplicas cr) I" using shards by (auto simp: pods_def)
  have "Host n \<in> set ?want" if n: "n \<in> set (Nodes (Fake_State w))" for n
  proof -
    have v: "Fake_view w (ID n) = Some n"
      using node_map_iff [OF distinct_ID_State [OF wf], of "ID n" n] Fake_State_view [OF wf] n by simp
    then have "ID n \<in> set ?want" unfolding all dom [symmetric] by blast
    moreover have "Host n = ID n" using Fake_wf_node [OF wf v] by (simp add: node_ok_def)
    ultimately show ?thesis by (simp only:)
  qed
  then show ?thesis
    unfolding forgetStaleNodes_def run_state_bind want prod.case sum.case by (intro forE_same) simp
qed

lemma converged_reports:
  fixes w :: "'a Fake_scheme"
  assumes "converged cr w"
  shows "\<exists>pr. dir.reports cr pr (Fake_State w) w"
proof -
  have wf: "Fake_wf w" using assms by (simp add: converged_def Fake_inv_def)
  show ?thesis
    using assms distinct_ID_State [OF wf] Fake_State_view [OF wf] by (auto simp: converged_def dir.reports_def)
qed

lemma attach_quiet:
  fixes w :: "'a Fake_scheme"
  assumes conv: "converged cr w"
  shows "run_state (attachReplicas (fake_reconciler c mo) cr (Fake_State w)) w = (Inr (), w)"
proof -
  let ?r = "fake_reconciler c mo" and ?idx = "byID (Fake_State w)"
  have wf: "Fake_wf w" and inv: "Fake_inv w" using conv by (auto simp: converged_def Fake_inv_def)
  obtain pr where arr: "arranged (PodFQDN cr) (nReplicas cr) (nShards cr) pr (Fake_view w)"
    using conv by (auto simp: converged_def)
  have idx: "map_of ?idx = Fake_view w"
    using byID_node_map [OF distinct_ID_State [OF wf]] Fake_State_view [OF wf] by simp
  have snap: "rec.snapshot (owned (Fake_view w)) {} ?idx"
    using idx distinct_byID Fake_inv_view [OF inv] by (simp add: rec.snapshot_def)
  have serv: "serving (PodFQDN cr) (nReplicas cr) (nShards cr) pr (owned (Fake_view w))"
    and att: "\<And>i j. i \<in> {0..<nShards cr} \<Longrightarrow> j \<in> {0..nReplicas cr} \<Longrightarrow> j \<noteq> pr i \<Longrightarrow>
      \<exists>nd. Fake_view w (PodFQDN cr i j) = Some nd \<and> MasterID nd = PodFQDN cr i (pr i)"
    using arr by (simp_all add: arranged_def)
  have "run_state (attach_shard ?r cr ?idx i) w = (Inr (), w)" if i: "0 \<le> i" "i < nShards cr" for i
  proof -
    have my: "run_state (aMyID Fake_admin (endpoint cr i j)) w = (Inr (PodFQDN cr i j), w)"
      if "0 \<le> j" "j \<le> nReplicas cr" for j
      using Fake_MyID_known [OF inv, of "endpoint cr i j"] converged_pod [OF conv i that] by simp
    have pr: "0 \<le> pr i" "pr i \<le> nReplicas cr" using serving_ord [OF serv i] by simp_all
    have "keeps (\<lambda>x. x = w) (aMyID Fake_admin (endpoint cr i j))" if "0 \<le> j" "j \<le> nReplicas cr" for j
      using my [OF that] by (auto intro!: tripleI)
    then have quiet: "set js \<subseteq> {0..nReplicas cr} \<Longrightarrow> keeps (\<lambda>x. x = w) (find_owner ?r cr i ?idx js)" for js
      by (induction js) (auto intro!: keeps_rules split: sum.split option.split)
    have "\<exists>w'. run_state (find_owner ?r cr i ?idx [0..nReplicas cr]) w =
        (Some (epHost (endpoint cr i (pr i)), pr i), w') \<and> Fake_inv w' \<and> Fake_view w' = Fake_view w"
      by (rule dir.find_owner_direct [OF snap i(2,1)])
        (use serv inv pr converged_pod [OF conv i] in \<open>simp_all add: domIff\<close>)
    then obtain w1 where w1: "run_state (find_owner ?r cr i ?idx [0..nReplicas cr]) w = (Some (PodFQDN cr i (pr i), pr i), w1)"
      by auto
    have "w1 = w" by (rule tripleD [OF quiet refl w1]) simp
    with w1 have found: "run_state (findShardPrimary ?r cr i ?idx) w = ((PodFQDN cr i (pr i), pr i), w)"
      by (simp add: findShardPrimary_def)
    have "run_state (attach_pod ?r cr ?idx (PodFQDN cr i (pr i)) (pr i) i j) w = (Inr (), w)"
      if "j \<in> set [0..nReplicas cr]" for j
    proof (cases "j = pr i")
      case False
      have j: "0 \<le> j" "j \<le> nReplicas cr" using that by simp_all
      obtain nd where "Fake_view w (PodFQDN cr i j) = Some nd" "MasterID nd = PodFQDN cr i (pr i)"
        using att i j False by fastforce
      with my [OF j] False show ?thesis by (simp add: attach_pod_def Let_def idx)
    qed (simp add: attach_pod_def)
    then have "run_state (forE [0..nReplicas cr] (attach_pod ?r cr ?idx (PodFQDN cr i (pr i)) (pr i) i)) w = (Inr (), w)"
      by (rule forE_same)
    then show ?thesis using found PodFQDN_nonempty by (simp add: attach_shard_def)
  qed
  then show ?thesis unfolding attachReplicas_def by (intro forE_same) simp
qed

lemma membership_quiet:
  fixes w :: "'a Fake_scheme"
  assumes conv: "converged cr w"
    and list: "run_state (ListSTS c (Namespace cr) [(''app.kubernetes.io/instance'', Name cr)]) w = (Inr items, w)"
    and shards: "set (List.map_filter shard_index items) = {0..<nShards cr}"
  shows "run_state (reconcileMembership (fake_reconciler c mo) cr (Fake_State w)) w = (Inr (), w)"
proof -
  let ?r = "fake_reconciler c mo" and ?st = "Fake_State w"
  obtain pr where rep: "dir.reports cr pr ?st w" using converged_reports [OF conv] by blast
  have known: "map_of (hostIndex ?st) (epHost ep) \<noteq> None" if "ep \<in> set (allEndpoints cr)" for ep
  proof -
    from that obtain i j where ij: "ep = endpoint cr i j" "0 \<le> i" "i < nShards cr" "0 \<le> j" "j \<le> nReplicas cr"
      by (auto simp: allEndpoints_def)
    with dir.reports_hosts [OF rep ij(2-5)] converged_pod [OF conv ij(2-5)] show ?thesis by auto
  qed
  have met: "run_state (forE (allEndpoints cr) (\<lambda>ep.
      if map_of (hostIndex ?st) (epHost ep) = None then aMeet (Admin ?r) (seed cr) ep else retE ())) w = (Inr (), w)"
    by (rule forE_same) (simp only: known if_False run_retE)
  have dom: "dom (Fake_view w) = pods (PodFQDN cr) (nReplicas cr) {0..<nShards cr}" and inv: "Fake_inv w"
    using conv by (auto simp: converged_def arranged_def)
  have "run_state (forgetStaleNodes ?r cr ?st) w = (Inr (), w)" by (rule stale_quiet [OF inv dom list shards])
  then show ?thesis
    using met attach_quiet [OF conv] by (simp add: reconcileMembership_def Let_def run_bindE)
qed


text \<open>The same shard with its StatefulSet.\<close>

definition steady_store :: "ValkeyCluster \<Rightarrow> Store" where
  "steady_store cr = (one_shard cr)\<lparr>stored_sts := [mkStatefulSet cr 0]\<rparr>"

lemma shard_index_mk: "0 \<le> i \<Longrightarrow> i < 2 ^ 63 \<Longrightarrow> shard_index (mkStatefulSet cr i) = Some i"
  using Atoi_Itoa [of i] by (simp add: shard_index_def map_of_shardLabels)

lemma steady_list:
  "run_state (ListSTS store_client (Namespace cr) [(''app.kubernetes.io/instance'', Name cr)]) (steady_store cr) =
     (Inr [mkStatefulSet cr 0], steady_store cr)"
  using map_of_shardLabels(2) [of cr 0]
  by (simp add: store_client_def steady_store_def labels_match_def labelInstance_def)


end
