(* ===== verification/Pass_Scale_In.thy ===== *)
theory Pass_Scale_In
  imports Pass_Steady
begin

text \<open>Removing shards from the in-memory cluster.\<close>

lemma call_ok_ignoreNotFound: "call_ok m \<Longrightarrow> call_ok (ignoreNotFound c m)"
  unfolding call_ok_def ignoreNotFound_def
  by (auto split: prod.splits sum.splits if_splits)

lemma frame_delete_pvcs: "client_frame (kube r) \<Longrightarrow> call_ok (delete_pvcs r ps)"
  unfolding delete_pvcs_def by (intro call_ok_forE call_ok_ignoreNotFound frame_calls)

lemma frame_deleteShard: "client_frame (kube r) \<Longrightarrow> call_ok (deleteShard r cr i)"
  unfolding deleteShard_def deleteShardPVCs_def
  by (intro call_ok_bindE call_ok_ignoreNotFound frame_calls frame_delete_pvcs)

lemma call_api: "call_ok m \<Longrightarrow> rec.api m"
  unfolding rec.api_def call_ok_def using Fake_inv_cong by metis

section \<open>Two shards of which one is declared\<close>

definition two_shards :: "ValkeyCluster \<Rightarrow> Store" where
  "two_shards cr = (empty_store cr)\<lparr>nodes :=
     [(PodFQDN cr 0 0, (new_node (endpoint cr 0 0))\<lparr>Slots := [\<lparr>Start = 0, End = 8191\<rparr>]\<rparr>),
      (PodFQDN cr 1 0, (new_node (endpoint cr 1 0))\<lparr>Slots := [\<lparr>Start = 8192, End = 16383\<rparr>]\<rparr>)],
     stored_sts := [mkStatefulSet cr 0, mkStatefulSet cr 1]\<rparr>"

lemma two_pods: "PodFQDN cr 0 0 \<noteq> PodFQDN cr 1 0"
  using PodFQDN_inj_cluster [of 0 1 0 0 cr] by auto

lemma two_shards_inv: "Fake_inv (two_shards cr)"
  using PodFQDN_nonempty [of cr 0 0] PodFQDN_nonempty [of cr 1 0] two_pods [of cr]
  by (auto simp: two_shards_def Fake_inv_def Fake_wf_def node_ok_def new_node_def zero_NodeInfo_def range_count_def
      split: if_splits)

lemma two_shards_count:
  "count_at k (two_shards cr) = (if k = PodFQDN cr 0 0 \<or> k = PodFQDN cr 1 0 then 8192 else 0)"
  using two_pods [of cr]
  by (simp add: count_at_def two_shards_def index_or_def SlotCount_eq range_count_def zero_NodeInfo_def)

lemma two_shards_list:
  "run_state (ListSTS store_client (Namespace cr) [(''app.kubernetes.io/instance'', Name cr)]) (two_shards cr) =
     (Inr [mkStatefulSet cr 0, mkStatefulSet cr 1], two_shards cr)"
  using map_of_shardLabels(2) [of cr 0] map_of_shardLabels(2) [of cr 1]
  by (simp add: store_client_def two_shards_def labels_match_def labelInstance_def)

lemma two_ints: "{0..<2} = {0, 1 :: int}"
  by auto

lemma two_shards_indexes:
  "set (List.map_filter shard_index [mkStatefulSet cr 0, mkStatefulSet cr 1]) = {0..<2}"
  by (auto simp: shard_index_mk two_ints)

section \<open>Properties\<close>



text \<open>
  Claim C14. Draining makes progress. In an arranged cluster of \<open>n\<close> shards of which fewer are
  declared, all StatefulSets existing, one call of \<^verbatim>\<open>scaleIn\<close> succeeds and moves exactly
  \<open>min 1024\<close> of the slots of the first departing shard to shard 0, forgetting nothing; so
  repeating it empties the shard.
\<close>

theorem scaleIn_drains:
  fixes w :: "'a Fake_scheme"
  assumes inv: "Fake_inv w" and arr: "arranged (PodFQDN cr) (nReplicas cr) n pr (Fake_view w)"
    and d: "0 < nShards cr" "nShards cr < n"
    and list: "run_state (ListSTS c (Namespace cr) [(''app.kubernetes.io/instance'', Name cr)]) w = (Inr items, w)"
    and shards: "set (List.map_filter shard_index items) = {0..<n}"
  shows "\<exists>w'. run_state (scaleIn (fake_reconciler c mo) cr) w = (Inr (), w') \<and> Fake_inv w' \<and>
    dom (Fake_view w) \<subseteq> dom (Fake_view w') \<and>
    (let a = PodFQDN cr (nShards cr) (pr (nShards cr)); b = PodFQDN cr 0 (pr 0); m = min (count_at a w) 1024
     in 0 < m \<and> (\<lambda>k. count_at k w') = (\<lambda>k. count_at k w)(a := count_at a w - m, b := count_at b w + m))"
proof -
  let ?r = "fake_reconciler c mo" and ?D = "dom (Fake_view w)" and ?is = "sort (List.map_filter shard_index items)"
  let ?a = "PodFQDN cr (nShards cr) (pr (nShards cr))"
  have serv: "serving (PodFQDN cr) (nReplicas cr) n pr (owned (Fake_view w))"
    and dom: "?D = pods (PodFQDN cr) (nReplicas cr) {0..<n}" using arr by (simp_all add: arranged_def)
  have h: "rec.holding (owned (Fake_view w)) ?D w" using inv by (simp add: rec.holding_def)
  have stale: "run_state (forgetStaleNodes ?r cr (Fake_State w)) w = (Inr (), w)"
    by (rule stale_quiet [OF inv dom list shards])
  have idx: "run_state (existingShardIndexes ?r cr) w = (Inr ?is, w)"
    using list by (simp add: existingShardIndexes_def run_bindE)
  have "set ?is = {0..<n}" using shards by simp
  from dropWhile_first [OF sorted_sort this _ d(2)] d(1) obtain rest
    where first: "dropWhile (\<lambda>i. i < nShards cr) ?is = nShards cr # rest" by auto
  have "\<exists>w'. run_state (scale_in_shards ?r cr ?is) w = (Inr (), w') \<and>
    (let a = ?a; b = PodFQDN cr 0 (pr 0); m = min (owned (Fake_view w) a) drainBatchSlots
     in rec.holding ((owned (Fake_view w))(a := owned (Fake_view w) a - m, b := owned (Fake_view w) b + m)) ?D w')"
    using dir.drain_direct [OF h _ d _ first, of pr c mo] serv dom by simp
  then obtain w' where w': "run_state (scale_in_shards ?r cr ?is) w = (Inr (), w')"
    "let a = ?a; b = PodFQDN cr 0 (pr 0); m = min (owned (Fake_view w) a) drainBatchSlots
     in rec.holding ((owned (Fake_view w))(a := owned (Fake_view w) a - m, b := owned (Fake_view w) b + m)) ?D w'"
    by blast
  have "run_state (scaleIn ?r cr) w = (Inr (), w')"
    using stale idx w'(1) by (simp add: scaleIn_def run_bindE)
  moreover have "0 < owned (Fake_view w) ?a" using serving_ord [OF serv] d by simp
  ultimately show ?thesis
    using w'(2) by (auto simp: Let_def rec.holding_def drainBatchSlots_def owned_Fake [abs_def])
qed

theorem scaleIn_drains_witness:
  "\<exists>w'. run_state (scaleIn store_reconciler (demo_cluster 1 0)) (two_shards (demo_cluster 1 0)) = (Inr (), w') \<and>
    count_at (PodFQDN (demo_cluster 1 0) 1 0) w' = 7168 \<and> count_at (PodFQDN (demo_cluster 1 0) 0 0) w' = 9216"
proof -
  let ?cr = "demo_cluster 1 0"
  let ?w = "two_shards ?cr"
  have dom: "dom (Fake_view ?w) = {PodFQDN ?cr 0 0, PodFQDN ?cr 1 0}" by (auto simp: two_shards_def)
  have own: "owned (Fake_view ?w) k = (if k = PodFQDN ?cr 0 0 \<or> k = PodFQDN ?cr 1 0 then 8192 else 0)" for k
    unfolding owned_Fake by (rule two_shards_count)
  have "arranged (PodFQDN ?cr) (nReplicas ?cr) 2 (\<lambda>_. 0) (Fake_view ?w)"
    unfolding arranged_def serving_def dom own by (auto simp: pods_def two_ints)
  from scaleIn_drains [OF two_shards_inv this _ _ two_shards_list two_shards_indexes, of list_order] obtain w'
    where run: "run_state (scaleIn store_reconciler ?cr) ?w = (Inr (), w')"
      and c: "let a = PodFQDN ?cr 1 0; b = PodFQDN ?cr 0 0; m = min (count_at a ?w) 1024
        in 0 < m \<and> (\<lambda>k. count_at k w') = (\<lambda>k. count_at k ?w)(a := count_at a ?w - m, b := count_at b ?w + m)"
    by auto
  from c have "(\<lambda>k. count_at k w') = (\<lambda>k. count_at k ?w)(PodFQDN ?cr 1 0 := 7168, PodFQDN ?cr 0 0 := 9216)"
    by (simp add: Let_def two_shards_count)
  then have "count_at (PodFQDN ?cr 1 0) w' = 7168 \<and> count_at (PodFQDN ?cr 0 0) w' = 9216"
    using two_pods [of ?cr] by (simp add: fun_eq_iff)
  with run show ?thesis by blast
qed

end
