(* ===== verification/Status_Laws.thy ===== *)
theory Status_Laws
  imports Pass_Scale_In
begin

text \<open>
  What the published status means: the conditions as a map with transition times, the phase
  Ready as a statement on the observed nodes, and what one call of \<^verbatim>\<open>updateStatus\<close> writes.
\<close>

section \<open>Conditions\<close>

definition cond_of :: "Condition list \<Rightarrow> string \<Rightarrow> Condition option" where
  "cond_of cs t = find (\<lambda>c. condType c = t) cs"

lemma cond_of_simps [simp]:
  "cond_of [] t = None"
  "cond_of (c # cs) t = (if condType c = t then Some c else cond_of cs t)"
  by (simp_all add: cond_of_def)

lemma put_cond_types:
  "map condType (put_cond m cs) = (if condType m \<in> set (map condType cs) then map condType cs else map condType cs @ [condType m])"
  by (induction cs) auto

lemma put_cond_of:
  "cond_of (put_cond m cs) t =
     (if t = condType m then
        Some (case cond_of cs t of
                None \<Rightarrow> m
              | Some c \<Rightarrow> if condStatus c = condStatus m then m\<lparr>condLastTransitionTime := condLastTransitionTime c\<rparr> else m)
      else cond_of cs t)"
  by (induction cs) auto

text \<open>
  Claim C36. Conditions behave as a map by type: \<^verbatim>\<open>setCond\<close> leaves every other condition as it is, never
  makes a second condition of a type, and the condition it sets has the given status, reason
  and message, the object's generation, and as transition time the old one where the status
  is as before and the present time where it changed or is new.
\<close>

theorem setCond_exact:
  "cond_of (Conditions (Status (set_cond now typ status reason msg cr))) t =
     (if t = typ then
        Some \<lparr>condType = typ, condStatus = status, condReason = reason, condMessage = msg,
              condObservedGeneration = Generation cr,
              condLastTransitionTime =
                (case cond_of (Conditions (Status cr)) typ of
                   None \<Rightarrow> now | Some c \<Rightarrow> if condStatus c = status then condLastTransitionTime c else now)\<rparr>
      else cond_of (Conditions (Status cr)) t) \<and>
   distinct (map condType (Conditions (Status (set_cond now typ status reason msg cr)))) =
     distinct (map condType (Conditions (Status cr)))"
  by (auto simp: set_cond_def put_cond_of put_cond_types split: option.split)

section \<open>Ready\<close>

lemma ready_each:
  assumes "all_ready cr st" "distinct (map Host (Nodes st))" "0 \<le> i" "i < nShards cr"
  shows "\<exists>n \<in> set (filter slot_owner (Nodes st)). \<exists>j. 0 \<le> j \<and> j \<le> nReplicas cr \<and> Host n = PodFQDN cr i j"
proof -
  have "ready_shards cr st = nShards cr" "actual_shards st = nShards cr" using assms(1) by (simp_all add: all_ready_def)
  then have "length (filter snd (shard_statuses cr st)) = length (shard_statuses cr st)"
    by (simp add: ready_shards_def shard_statuses_def actual_shards_def)
  then have "\<forall>s \<in> set (shard_statuses cr st). snd s" by (metis filter_id_conv length_filter_less nat_neq_iff)
  then show ?thesis
    using assms(3,4) hostIndex_distinct [OF assms(2)] by (fastforce simp: shard_statuses_def shard_status_ready)
qed

lemma owners_number:
  assumes "all_ready cr st" "distinct (map Host (Nodes st))"
  shows "card (set (filter slot_owner (Nodes st))) = nat (nShards cr)"
proof -
  have "distinct (filter slot_owner (Nodes st))" using assms(2) by (simp add: distinct_map)
  then have "card (set (filter slot_owner (Nodes st))) = length (filter slot_owner (Nodes st))" by (rule distinct_card)
  moreover have "actual_shards st = nShards cr" using assms(1) by (simp add: all_ready_def)
  ultimately show ?thesis by (simp add: actual_shards_owners)
qed

text \<open>
  Claim C10. Ready means one serving primary per shard and no other: when the status is computed as
  ready from an observation in which no two nodes share a host, then every shard has exactly
  one node among its pods that is a primary with slots, every primary with slots is a pod of
  one of the wanted shards, all slots are covered and none is open.
\<close>

theorem Ready_sound:
  assumes ready: "all_ready cr st" and hosts: "distinct (map Host (Nodes st))"
  shows "SlotsCovered st \<and> \<not> OpenSlots st \<and>
    (\<forall>i. 0 \<le> i \<longrightarrow> i < nShards cr \<longrightarrow>
       (\<exists>!n. n \<in> set (Nodes st) \<and> slot_owner n \<and> (\<exists>j. 0 \<le> j \<and> j \<le> nReplicas cr \<and> Host n = PodFQDN cr i j))) \<and>
    (\<forall>n \<in> set (Nodes st). slot_owner n \<longrightarrow>
       (\<exists>i j. 0 \<le> i \<and> i < nShards cr \<and> 0 \<le> j \<and> j \<le> nReplicas cr \<and> Host n = PodFQDN cr i j))"
proof -
  let ?pod = "\<lambda>n i. \<exists>j. 0 \<le> j \<and> j \<le> nReplicas cr \<and> Host n = PodFQDN cr i j"
  let ?own = "set (filter slot_owner (Nodes st))"
  have all: "SlotsCovered st" "\<not> OpenSlots st" using ready by (simp_all add: all_ready_def)
  note each = ready_each [OF ready hosts]
  define p where "p i = (SOME n. n \<in> ?own \<and> ?pod n i)" for i
  have p: "p i \<in> ?own" "?pod (p i) i" if "0 \<le> i" "i < nShards cr" for i
    using someI_ex [of "\<lambda>n. n \<in> ?own \<and> ?pod n i"] each [OF that] unfolding p_def by blast+
  have same: "i = k" if "?pod n i" "?pod n k" "0 \<le> i" "0 \<le> k" for n i k using that PodFQDN_inj_cluster by metis
  have inj: "inj_on p {0..<nShards cr}"
  proof (rule inj_onI)
    fix i k assume "i \<in> {0..<nShards cr}" "k \<in> {0..<nShards cr}" "p i = p k"
    then show "i = k" using p [of i] p [of k] same [of "p i" i k] by simp
  qed
  have onto: "p ` {0..<nShards cr} = ?own"
    using inj p(1) owners_number [OF ready hosts] by (intro card_subset_eq) (auto simp: card_image)
  have one: "\<exists>!n. n \<in> set (Nodes st) \<and> slot_owner n \<and> ?pod n i" if i: "0 \<le> i" "i < nShards cr" for i
  proof (rule ex1I [of _ "p i"])
    show "p i \<in> set (Nodes st) \<and> slot_owner (p i) \<and> ?pod (p i) i" using p [OF i] by simp
    fix n assume n: "n \<in> set (Nodes st) \<and> slot_owner n \<and> ?pod n i"
    then obtain k where k: "0 \<le> k" "k < nShards cr" "n = p k" using onto by (force simp: image_iff)
    then have "k = i" using same [of n k i] p(2) [of k] n i by blast
    with k show "n = p i" by simp
  qed
  have "\<exists>i j. 0 \<le> i \<and> i < nShards cr \<and> 0 \<le> j \<and> j \<le> nReplicas cr \<and> Host n = PodFQDN cr i j"
    if "n \<in> set (Nodes st)" "slot_owner n" for n
  proof -
    have "n \<in> p ` {0..<nShards cr}" using onto that by simp
    then obtain i where "0 \<le> i" "i < nShards cr" "n = p i" by auto
    then show ?thesis using p(2) by blast
  qed
  with all one show ?thesis by blast
qed

definition ready_node :: "int \<Rightarrow> SlotRange \<Rightarrow> NodeInfo" where
  "ready_node i r = zero_NodeInfo\<lparr>ID := Itoa i, Host := PodFQDN (demo_cluster 3 0) i 0, Flags := [''master''], Slots := [r], Connected := True\<rparr>"

definition ready_state :: ClusterState where
  "ready_state = \<lparr>Formed = True, SlotsCovered = True, OpenSlots = False,
     Nodes = map (\<lambda>i. ready_node i (Distribute 3 ! nat i)) [0, 1, 2]\<rparr>"

theorem Ready_sound_witness:
  "\<exists>!n. n \<in> set (Nodes ready_state) \<and> slot_owner n \<and>
     (\<exists>j. 0 \<le> j \<and> j \<le> nReplicas (demo_cluster 3 0) \<and> Host n = PodFQDN (demo_cluster 3 0) 1 j)"
proof -
  have "all_ready (demo_cluster 3 0) ready_state" "distinct (map Host (Nodes ready_state))" "1 < nShards (demo_cluster 3 0)"
    by code_simp+
  then show ?thesis using Ready_sound [of "demo_cluster 3 0" ready_state] by simp
qed

section \<open>What is written\<close>

lemma set_conds_frame:
  assumes "run_state (set_conds c cs v) w = (v', w')"
  shows "Meta v' = Meta v \<and> Spec v' = Spec v \<and> Phase (Status v') = Phase (Status v) \<and> stShards (Status v') = stShards (Status v) \<and>
    ReadyShards (Status v') = ReadyShards (Status v) \<and> ObservedGeneration (Status v') = ObservedGeneration (Status v) \<and>
    (distinct (map condType (Conditions (Status v))) \<longrightarrow> distinct (map condType (Conditions (Status v'))))"
  using assms
proof (induction c cs v arbitrary: w rule: set_conds.induct)
  case (2 c ty status reason msg cs v)
  obtain now w1 where now: "run_state (Now c) w = (now, w1)" by fastforce
  let ?v = "set_cond now ty status reason msg v"
  have "run_state (set_conds c cs ?v) w1 = (v', w')" using 2(2) now by (simp add: setCond_def)
  from 2(1) [OF this] show ?case by (simp add: set_cond_def put_cond_types)
qed simp

text \<open>After the listed conditions are set, each listed type has its listed status.\<close>

lemma set_conds_status:
  assumes "run_state (set_conds c cs v) w = (v', w')" and "distinct (map fst cs)"
  shows "\<forall>t. map_option condStatus (cond_of (Conditions (Status v')) t) =
     (case map_of cs t of Some (s, _) \<Rightarrow> Some s | None \<Rightarrow> map_option condStatus (cond_of (Conditions (Status v)) t))"
  using assms
proof (induction c cs v arbitrary: w rule: set_conds.induct)
  case (2 c ty status reason msg cs v)
  obtain now w1 where now: "run_state (Now c) w = (now, w1)" by fastforce
  let ?v = "set_cond now ty status reason msg v"
  have rest: "run_state (set_conds c cs ?v) w1 = (v', w')" using 2(2) now by (simp add: setCond_def)
  have "map_of cs ty = None" using 2(3) by (simp add: map_of_eq_None_iff)
  then show ?case
    using 2(1) [OF rest] 2(3) by (auto simp: set_cond_def put_cond_of split: option.splits)
qed simp



end
