(* ===== verification/No_Panic.thy ===== *)
theory No_Panic
  imports Pass_Scale_In
begin

text \<open>
  The reconciler neither panics nor loops for ever on the in-memory cluster, and every operation
  of it keeps the cluster well-formed.
\<close>

definition safe :: "('a Fake_scheme, 'b) ioE \<Rightarrow> bool" where
  "safe m \<longleftrightarrow> triple Fake_inv m (\<lambda>res w. Fake_inv w \<and> (\<forall>e. res = Inl e \<longrightarrow> \<not> is_abort e))"

section \<open>Rules\<close>

lemma safeI:
  "(\<And>w res w'. Fake_inv w \<Longrightarrow> run_state m w = (res, w') \<Longrightarrow> Fake_inv w' \<and> (\<forall>e. res = Inl e \<longrightarrow> \<not> is_abort e)) \<Longrightarrow> safe m"
  unfolding safe_def by (rule tripleI)

lemma safeD:
  "safe m \<Longrightarrow> Fake_inv w \<Longrightarrow> run_state m w = (res, w') \<Longrightarrow> Fake_inv w' \<and> (\<forall>e. res = Inl e \<longrightarrow> \<not> is_abort e)"
  unfolding safe_def by (rule tripleD)

lemma safe_retE: "safe (retE x)"
  by (rule safeI) auto

lemma safe_failE: "\<not> is_abort e \<Longrightarrow> safe (failE e)"
  by (rule safeI) auto

lemma safe_bindE:
  assumes "safe m" and "\<And>x. safe (f x)"
  shows "safe (bindE m f)"
  unfolding safe_def
proof (rule triple_bindE [OF assms(1) [unfolded safe_def]])
  fix x show "triple (\<lambda>w. Fake_inv w \<and> (\<forall>e. Inr x = Inl e \<longrightarrow> \<not> is_abort e)) (f x)
      (\<lambda>res w. Fake_inv w \<and> (\<forall>e. res = Inl e \<longrightarrow> \<not> is_abort e))"
    by (rule triple_conseq [OF assms(2) [unfolded safe_def]]) simp_all
qed simp

lemma safe_bind: "keeps Fake_inv m \<Longrightarrow> (\<And>x. safe (f x)) \<Longrightarrow> safe (State_Monad.bind m f)"
  unfolding safe_def by (rule triple_bind)

lemma safe_wrapE: "safe m \<Longrightarrow> (\<And>e. \<not> is_abort (h e)) \<Longrightarrow> safe (wrapE h m)"
  unfolding safe_def by (erule triple_wrapE) simp_all

lemma safe_keeps: "safe m \<Longrightarrow> keeps Fake_inv m"
  unfolding safe_def by (erule triple_conseq) simp_all

lemma safe_ignoreE: "safe m \<Longrightarrow> safe (ignoreE m)"
  unfolding ignoreE_def by (intro safe_bind safe_keeps safe_retE)

lemma safe_forE: "(\<And>x. x \<in> set xs \<Longrightarrow> safe (f x)) \<Longrightarrow> safe (forE xs f)"
  by (induction xs) (simp_all add: safe_retE safe_bindE)

lemma safe_call: "call_ok m \<Longrightarrow> safe m"
  by (rule safeI) (metis Fake_inv_cong call_ok_def)

lemma keeps_read: "read_ok m \<Longrightarrow> keeps Fake_inv m"
  by (rule tripleI) (metis Fake_inv_cong read_ok_def)

lemma Errorf_ok [simp]: "\<not> is_abort (Errorf msg e)"
  by (simp add: is_abort_def)

lemmas safe_rules = safe_retE safe_failE safe_bindE safe_bind safe_wrapE safe_ignoreE safe_forE Errorf_ok

section \<open>The in-memory cluster\<close>

lemma safe_State: "safe (aState Fake_admin ep)"
  by (rule safeI) auto

lemma safe_MyID: "epHost ep \<noteq> [] \<Longrightarrow> safe (aMyID Fake_admin ep)"
  by (rule safeI) (auto simp: Fake_MyID_def Let_def dest: Fake_inv_ensure)

lemma safe_Meet: "epHost a \<noteq> [] \<Longrightarrow> epHost b \<noteq> [] \<Longrightarrow> safe (aMeet Fake_admin a b)"
  by (rule safeI) (auto simp: Fake_Meet_def intro: Fake_inv_ensure)

lemma safe_Replicate: "epHost ep \<noteq> [] \<Longrightarrow> safe (aReplicate Fake_admin ep p)"
  by (rule safeI) (auto intro: Fake_inv_Replicate)

lemma safe_AddSlots:
  "epHost ep \<noteq> [] \<Longrightarrow> \<forall>g \<in> set gs. 0 \<le> range_count g \<Longrightarrow> safe (aAddSlots Fake_admin ep gs)"
  by (rule safeI) (use Fake_AddSlots_view in auto)

lemma safe_Forget: "safe (aForget Fake_admin ep k)"
proof (rule safeI)
  fix w :: "'a Fake_scheme" and res w'
  assume inv: "Fake_inv w" and run: "run_state (aForget Fake_admin ep k) w = (res, w')"
  then have "w' = Fake_Forget ep k w" "res = Inr ()" by simp_all
  moreover have "Fake_view (Fake_Forget ep k w) [] = None" using inv by (simp add: Fake_inv_def Fake_Forget_def)
  ultimately show "Fake_inv w' \<and> (\<forall>e. res = Inl e \<longrightarrow> \<not> is_abort e)"
    using Fake_wf_Forget [of w ep k] inv by (simp add: Fake_inv_def)
qed

lemma keeps_MoveSlots:
  assumes "0 \<le> n" and "a \<noteq> b"
  shows "keeps Fake_inv (aMoveSlots Fake_admin ep a b n)"
proof (rule tripleI)
  fix w :: "'a Fake_scheme" and res w'
  assume inv: "Fake_inv w" and run: "run_state (aMoveSlots Fake_admin ep a b n) w = (res, w')"
  obtain c err where "res = (c, err)" by fastforce
  then show "Fake_inv w'" using Fake_MoveSlots_view [OF inv assms] run by simp
qed

lemma keeps_RepairSlots: "keeps Fake_inv (aRepairSlots Fake_admin ep)"
  by (rule tripleI) (auto simp: Fake_RepairSlots_def)

lemmas safe_admin = safe_State safe_MyID safe_Meet safe_Replicate safe_AddSlots safe_Forget

section \<open>Membership\<close>

lemma safe_pod_MyID: "safe (aMyID Fake_admin (endpoint cr i j))"
  using PodFQDN_nonempty by (intro safe_MyID) simp

lemma keeps_findShardPrimary: "keeps Fake_inv (findShardPrimary (fake_reconciler c mo) cr i idx)"
proof -
  have my: "keeps Fake_inv (aMyID Fake_admin (endpoint cr i j))" for j
    by (intro safe_keeps safe_pod_MyID)
  have "keeps Fake_inv (find_owner (fake_reconciler c mo) cr i idx js)" for js
    by (induction js) (auto intro!: keeps_bind keeps_ret my split: sum.split option.split)
  then show ?thesis
    unfolding findShardPrimary_def by (auto intro!: keeps_bind keeps_ret my split: sum.split option.split)
qed

lemma safe_attachReplicas: "safe (attachReplicas (fake_reconciler c mo) cr st)"
proof -
  have rep: "safe (aReplicate Fake_admin (endpoint cr i j) p)" for i j p
    using PodFQDN_nonempty by (intro safe_Replicate) simp
  have "safe (attach_pod (fake_reconciler c mo) cr idx p ord i j)" for idx p ord i j
    unfolding attach_pod_def Let_def fake_reconciler_simps
  proof (cases "j = ord")
    case False
    have "safe (case res of Inl _ \<Rightarrow> retE ()
        | Inr k \<Rightarrow>
            if (case map_of idx k of Some n \<Rightarrow> MasterID n = p | None \<Rightarrow> False) then retE ()
            else wrapE (\<lambda>e. Errorf (''replicate '' @ epHost (endpoint cr i j)) (Some e)) (aReplicate Fake_admin (endpoint cr i j) p))"
      for res :: "error + string"
      by (cases res) (simp_all add: safe_retE safe_wrapE rep)
    from safe_bind [OF safe_keeps [OF safe_pod_MyID] this] False
    show "safe (if j = ord then retE () else State_Monad.bind (aMyID Fake_admin (endpoint cr i j)) (\<lambda>res. case res of
          Inl _ \<Rightarrow> retE ()
        | Inr k \<Rightarrow>
            if (case map_of idx k of Some n \<Rightarrow> MasterID n = p | None \<Rightarrow> False) then retE ()
            else wrapE (\<lambda>e. Errorf (''replicate '' @ epHost (endpoint cr i j)) (Some e)) (aReplicate Fake_admin (endpoint cr i j) p)))"
      by (simp only: if_False)
  qed (simp add: safe_retE)
  then have "safe (attach_shard (fake_reconciler c mo) cr idx i)" for idx i
    unfolding attach_shard_def
    by (intro safe_bind [OF keeps_findShardPrimary]) (simp add: case_prod_beta safe_retE safe_forE)
  then show ?thesis unfolding attachReplicas_def by (intro safe_forE)
qed

lemma safe_forgetEverywhere: "safe (forgetEverywhere (fake_reconciler c mo) cr k)"
  unfolding forgetEverywhere_def by (intro safe_forE safe_ignoreE) (simp add: safe_Forget)

lemma frame_hosts: "client_frame (kube r) \<Longrightarrow> call_ok (existingPodHosts r cr)"
  unfolding existingPodHosts_def by (intro call_ok_bindE call_ok_retE frame_indexes)

lemma safe_forgetStaleNodes:
  assumes "client_frame c"
  shows "safe (forgetStaleNodes (fake_reconciler c mo) cr st)"
proof -
  have "keeps Fake_inv (existingPodHosts (fake_reconciler c mo) cr)"
    using assms by (intro keeps_read call_read frame_hosts) simp
  then show ?thesis
    unfolding forgetStaleNodes_def
    by (rule safe_bind) (simp add: safe_retE safe_forE safe_forgetEverywhere split: sum.split)
qed

lemma endpoint_all: "ep \<in> set (allEndpoints cr) \<Longrightarrow> epHost ep \<noteq> []"
  using PodFQDN_nonempty by (auto simp: allEndpoints_def)

lemma seed_host: "epHost (seed cr) \<noteq> []"
  using PodFQDN_nonempty by (simp add: seed_def)

lemma safe_reconcileMembership:
  "client_frame c \<Longrightarrow> safe (reconcileMembership (fake_reconciler c mo) cr st)"
  unfolding reconcileMembership_def Let_def
  by (intro safe_bindE safe_attachReplicas safe_forgetStaleNodes safe_forE)
    (simp_all add: safe_retE safe_Meet seed_host endpoint_all)

section \<open>Scaling\<close>

lemma safe_fill_new:
  fixes c :: "'a Fake_scheme Client"
  assumes order: "order_ok (fake_reconciler c mo)"
  shows "safe (fill_new (fake_reconciler c mo) cr p i)"
proof (rule safeI)
  let ?r = "fake_reconciler c mo" and ?x = "PodFQDN cr i 0"
  fix w :: "'a Fake_scheme" and res w'
  assume inv: "Fake_inv w" and run: "run_state (fill_new ?r cr p i) w = (res, w')"
  let ?w1 = "ensure (endpoint cr i 0) w"
  let ?idx = "byID (Fake_State ?w1)"
  let ?need = "p - SlotCount (index_or zero_NodeInfo ?idx ?x)"
  have inv1: "Fake_inv ?w1" using Fake_inv_ensure [OF inv] PodFQDN_nonempty by simp
  then have wf1: "Fake_wf ?w1" by (simp add: Fake_inv_def)
  have "run_state (aMyID Fake_admin (endpoint cr i 0)) w = (Inr ?x, ?w1)"
    using fake.MyID [OF inv, of "endpoint cr i 0"] PodFQDN_nonempty by (auto simp: Fake_MyID_def Let_def)
  then have fill: "run_state (fill_shard ?r cr i ?x (nat ?need) ?need ?idx) ?w1 = (res, w')"
    using run PodFQDN_nonempty by (simp add: fill_new_def Let_def run_bindE)
  have "map_of ?idx = Fake_view ?w1"
    using byID_node_map [OF distinct_ID_State [OF wf1]] Fake_State_view [OF wf1] by simp
  then have own: "SlotCount (index_or zero_NodeInfo ?idx ?x) = owned (Fake_view ?w1) ?x"
    by (cases "Fake_view ?w1 ?x") auto
  show "Fake_inv w' \<and> (\<forall>e. res = Inl e \<longrightarrow> \<not> is_abort e)"
  proof (cases "?need \<le> 0")
    case True
    with fill inv1 show ?thesis by (auto simp: fill_shard.simps)
  next
    case False
    have "rec.feeding (total_owned (Fake_view ?w1)) {} (owned (Fake_view ?w1)) ?x (p - ?need) ?w1"
      using inv1 own by (simp add: rec.feeding_def)
    from rec.fill_shard_run [OF order _ _ this fill] False show ?thesis by (simp add: rec.feeding_def)
  qed
qed

lemma safe_scaleOut:
  assumes "order_ok (fake_reconciler c mo)" and "nShards cr \<noteq> 0"
  shows "safe (scaleOut (fake_reconciler c mo) cr old)"
proof -
  have "safe (meet_shard (fake_reconciler c mo) cr i)" for i
    unfolding meet_shard_def using PodFQDN_nonempty seed_host by (intro safe_forE) (simp add: safe_Meet)
  then show ?thesis
    unfolding scaleOut_def Let_def using assms
    by (simp add: safe_bindE safe_forE safe_State safe_attachReplicas safe_fill_new)
qed

lemma keeps_firstSurvivor: "keeps Fake_inv (firstSurvivorPrimary (fake_reconciler c mo) cr idx k d)"
proof -
  have "keeps Fake_inv (first_survivor (fake_reconciler c mo) cr idx k ss)" for ss
    by (induction ss) (auto intro!: keeps_bind keeps_ret keeps_findShardPrimary)
  then show ?thesis unfolding firstSurvivorPrimary_def .
qed

lemma first_survivor_other:
  "triple (\<lambda>_. True) (first_survivor r cr idx k ss) (\<lambda>s _. s \<noteq> [] \<longrightarrow> s \<noteq> k)"
proof (induction ss)
  case (Cons b ss)
  have "triple (\<lambda>_. True) (findShardPrimary r cr b idx) (\<lambda>_ _. True)" by (rule tripleI) simp
  then show ?case
    unfolding first_survivor.simps by (rule triple_bind) (auto intro!: triple_return Cons.IH)
qed (simp add: triple_return)

lemma safe_drain_shard:
  assumes "0 < SlotCount (index_or zero_NodeInfo idx k)"
  shows "safe (drain_shard (fake_reconciler c mo) cr i idx k)"
  unfolding drain_shard_def Let_def safe_def
proof (rule triple_bind)
  let ?r = "fake_reconciler c mo"
  show "triple Fake_inv (firstSurvivorPrimary ?r cr idx k (nShards cr)) (\<lambda>s w. Fake_inv w \<and> (s \<noteq> [] \<longrightarrow> s \<noteq> k))"
  proof (rule tripleI)
    fix w s w' assume inv: "Fake_inv w" and run: "run_state (firstSurvivorPrimary ?r cr idx k (nShards cr)) w = (s, w')"
    show "Fake_inv w' \<and> (s \<noteq> [] \<longrightarrow> s \<noteq> k)"
      using tripleD [OF keeps_firstSurvivor inv run]
        tripleD [OF first_survivor_other TrueI run [unfolded firstSurvivorPrimary_def]] by simp
  qed
next
  fix s
  let ?n = "SlotCount (index_or zero_NodeInfo idx k)"
  let ?q = "if ?n < drainBatchSlots then ?n else drainBatchSlots"
  have q: "0 \<le> ?q" using assms by (simp add: drainBatchSlots_def)
  let ?move = "State_Monad.bind (aMoveSlots (Admin (fake_reconciler c mo)) (seed cr) k s ?q) (\<lambda>(moved, err). case err of
      Some e \<Rightarrow> failE (Errorf (''drain shard '' @ Itoa i @ '' (moved '' @ Itoa moved @ '' before error)'') (Some e))
    | None \<Rightarrow> retE ())"
  have "safe ?move" if "s \<noteq> k"
  proof (rule safe_bind)
    show "keeps Fake_inv (aMoveSlots (Admin (fake_reconciler c mo)) (seed cr) k s ?q)"
      unfolding fake_reconciler_simps by (rule keeps_MoveSlots [OF q that [symmetric]])
  qed (auto intro!: safe_failE safe_retE split: option.split)
  moreover have "safe (failE (Errorf (''no surviving primary to drain shard '' @ Itoa i @ '' into'') None) :: ('a Fake_scheme, unit) ioE)"
    by (intro safe_failE Errorf_ok)
  ultimately show "triple (\<lambda>w. Fake_inv w \<and> (s \<noteq> [] \<longrightarrow> s \<noteq> k))
      (if s = [] then failE (Errorf (''no surviving primary to drain shard '' @ Itoa i @ '' into'') None) else ?move)
      (\<lambda>res w. Fake_inv w \<and> (\<forall>e. res = Inl e \<longrightarrow> \<not> is_abort e))"
    by (cases "s = []") (auto intro!: triple_pure simp: safe_def)
qed

lemma safe_forget_shard: "safe (forget_shard (fake_reconciler c mo) cr i)"
proof -
  have "safe (case res of Inr k \<Rightarrow> if k \<noteq> [] then forgetEverywhere (fake_reconciler c mo) cr k else retE ()
      | Inl _ \<Rightarrow> retE ())" for res :: "error + string"
    by (cases res) (simp_all add: safe_forgetEverywhere safe_retE)
  then show ?thesis
    unfolding forget_shard_def fake_reconciler_simps
    by (intro safe_forE safe_bind [OF safe_keeps [OF safe_pod_MyID]])
qed

lemma safe_scale_in_shards:
  assumes "client_frame c"
  shows "safe (scale_in_shards (fake_reconciler c mo) cr is)"
proof (induction "is")
  case (Cons i "is")
  let ?r = "fake_reconciler c mo"
  have del: "safe (deleteShard ?r cr i)" using assms by (intro safe_call frame_deleteShard) simp
  have "safe (let idx = byID st in
      State_Monad.bind (findShardPrimary ?r cr i idx) (\<lambda>(departID, _).
        if departID \<noteq> [] \<and> SlotCount (index_or zero_NodeInfo idx departID) > 0
        then drain_shard ?r cr i idx departID
        else bindE (forget_shard ?r cr i) (\<lambda>_. bindE (deleteShard ?r cr i) (\<lambda>_. scale_in_shards ?r cr is))))" for st
    unfolding Let_def
  proof (rule safe_bind [OF keeps_findShardPrimary])
    fix p show "safe (case p of (departID, _) \<Rightarrow>
        if departID \<noteq> [] \<and> SlotCount (index_or zero_NodeInfo (byID st) departID) > 0
        then drain_shard ?r cr i (byID st) departID
        else bindE (forget_shard ?r cr i) (\<lambda>_. bindE (deleteShard ?r cr i) (\<lambda>_. scale_in_shards ?r cr is)))"
      by (cases p) (simp add: safe_drain_shard safe_bindE safe_forget_shard del Cons.IH)
  qed
  then show ?case by (simp add: Cons.IH safe_bindE safe_State)
qed (simp add: safe_retE)

lemma safe_scaleIn:
  assumes "client_frame c"
  shows "safe (scaleIn (fake_reconciler c mo) cr)"
proof -
  let ?r = "fake_reconciler c mo"
  have idx: "safe (existingShardIndexes ?r cr)" using assms by (intro safe_call frame_indexes) simp
  have "safe (bindE (case res of Inr st \<Rightarrow> forgetStaleNodes ?r cr st | Inl _ \<Rightarrow> retE ()) (\<lambda>_.
      bindE (existingShardIndexes ?r cr) (scale_in_shards ?r cr)))" for res
    by (intro safe_bindE idx safe_scale_in_shards assms)
      (cases res; simp add: safe_retE safe_forgetStaleNodes assms)
  then show ?thesis unfolding scaleIn_def by (intro safe_bind safe_keeps) (simp_all add: safe_State)
qed

section \<open>The pass\<close>

lemma safe_formCluster: "safe (formCluster (fake_reconciler c mo) cr)"
proof -
  let ?r = "fake_reconciler c mo" and ?d = "nShards cr"
  have meet: "safe (form_meet ?r cr ep)" if "ep \<in> set (allEndpoints cr)" for ep
    unfolding form_meet_def fake_reconciler_simps using safe_Meet [OF seed_host endpoint_all [OF that]]
    by (cases "epHost ep = epHost (seed cr)") (auto intro!: safe_retE safe_wrapE)
  have add: "safe (form_addslots ?r cr (Distribute ?d) i)" if i: "i \<in> set [0..?d - 1]" for i
  proof -
    have rng: "index_ranges (Distribute ?d) i = Inr (Distribute ?d ! nat i)" using i by (simp add: index_ranges_def)
    have "0 \<le> range_count (Distribute ?d ! nat i)"
      using Distribute_count [of i ?d] bound_mono [of ?d i "i + 1"] i by simp
    then have "safe (aAddSlots Fake_admin (endpoint cr i 0) [Distribute ?d ! nat i])"
      using PodFQDN_nonempty by (intro safe_AddSlots) simp_all
    then show ?thesis
      unfolding form_addslots_def rng sum.case fake_reconciler_simps by (intro safe_wrapE Errorf_ok)
  qed
  show ?thesis
    unfolding formCluster_def Let_def
    by (intro safe_bindE safe_forE meet add safe_attachReplicas) (simp_all add: safe_State)
qed

lemma safe_act:
  assumes frame: "client_frame c" and order: "order_ok (fake_reconciler c mo)" and d: "nShards cr \<noteq> 0"
  shows "safe (act (fake_reconciler c mo) cr st k)"
proof -
  have phase: "safe (ignoreE (setPhase (fake_reconciler c mo) cr ph re msg))" for ph re msg
    using frame by (intro safe_ignoreE safe_call frame_setPhase) simp
  have repair: "safe (State_Monad.bind (aRepairSlots Fake_admin (seed cr)) (\<lambda>_. retE ()))"
    by (intro safe_bind safe_retE keeps_RepairSlots)
  show ?thesis
    unfolding act_def
    by (cases k) (simp_all add: safe_bindE phase repair safe_formCluster safe_scaleOut order d safe_scaleIn frame
        safe_reconcileMembership)
qed

lemma safe_reconcileCluster:
  assumes frame: "client_frame c" and order: "order_ok (fake_reconciler c mo)" and d: "nShards cr \<noteq> 0"
  shows "safe (reconcileCluster (fake_reconciler c mo) cr)"
proof -
  let ?r = "fake_reconciler c mo"
  have "safe (hasExcessShardStatefulSets ?r cr)" using frame by (intro safe_call frame_excess) simp
  then have plan: "safe (final_plan ?r cr plan)" for plan
    unfolding final_plan_def by (simp add: safe_bindE safe_retE)
  have upd: "safe (updateStatus ?r cr st)" for st using frame by (intro safe_call frame_updateStatus) simp
  show ?thesis
    unfolding reconcileCluster_def
    by (intro safe_bindE safe_wrapE plan safe_act frame order d upd safe_retE Errorf_ok) (simp_all add: safe_State)
qed

lemma frame_create:
  assumes "client_frame c"
  shows "(\<And>x e. f x = Inl e \<Longrightarrow> \<not> is_abort e) \<Longrightarrow> call_ok (CreateOrUpdateCM c ob f)"
    "(\<And>x e. g x = Inl e \<Longrightarrow> \<not> is_abort e) \<Longrightarrow> call_ok (CreateOrUpdateSvc c ob' g)"
    "(\<And>x e. h x = Inl e \<Longrightarrow> \<not> is_abort e) \<Longrightarrow> call_ok (CreateOrUpdateSTS c ob'' h)"
    "SetControllerReference c cr m = Inl e \<Longrightarrow> \<not> is_abort e"
    "IgnoreNotFound c e = Some e' \<Longrightarrow> \<not> is_abort e \<Longrightarrow> \<not> is_abort e'"
  using assms unfolding client_frame_def by (elim conjE; blast)+

lemma frame_ensure:
  assumes "client_frame (kube r)"
  shows "call_ok (ensureConfigMap r cr)" "call_ok (ensureHeadlessService r cr)" "call_ok (ensureStatefulSets r cr)"
proof -
  have ref: "\<not> is_abort e" if "map_sum id g (SetControllerReference (kube r) v m) = Inl e" for g :: "ObjectMeta \<Rightarrow> 'b" and v m e
    using that frame_create(4) [OF assms] by (simp add: map_sum_Inl)
  show "call_ok (ensureConfigMap r cr)"
    unfolding ensureConfigMap_def Let_def by (intro frame_create(1) [OF assms]) (rule ref)
  show "call_ok (ensureHeadlessService r cr)"
    unfolding ensureHeadlessService_def Let_def by (intro frame_create(2) [OF assms]) (rule ref)
  show "call_ok (ensureStatefulSets r cr)"
    unfolding ensureStatefulSets_def Let_def mutate_sts_def
    by (intro call_ok_forE frame_create(3) [OF assms]) (rule ref)
qed

lemma frame_shardsReady:
  assumes "client_frame (kube r)"
  shows "call_ok (shardsReady r cr)"
proof -
  have "call_ok (shards_ready r cr want is)" for want "is"
  proof (induction "is")
    case (Cons i "is")
    have get: "call_ok (GetSTS (kube r) (Namespace cr, StatefulSetName cr i))" by (rule frame_calls [OF assms])
    have ign: "\<not> is_abort e'" if "IgnoreNotFound (kube r) e = Some e'" "\<not> is_abort e" for e e'
      using frame_create(5) [OF assms] that by blast
    show ?case
      unfolding call_ok_def
    proof (intro allI impI)
      fix w res w' assume run: "run_state (shards_ready r cr want (i # is)) w = (res, w')"
      obtain g w1 where g: "run_state (GetSTS (kube r) (Namespace cr, StatefulSetName cr i)) w = (g, w1)" by fastforce
      with get have ok: "nodes w1 = nodes w" "\<And>e. g = Inl e \<Longrightarrow> \<not> is_abort e" unfolding call_ok_def by blast+
      show "nodes w' = nodes w \<and> (\<forall>e. res = Inl e \<longrightarrow> \<not> is_abort e)"
      proof (cases g)
        case (Inl e)
        with run g ok ign show ?thesis by (auto split: option.splits)
      next
        case (Inr s)
        with run g ok(1) Cons.IH show ?thesis unfolding call_ok_def by (auto split: if_splits)
      qed
    qed
  qed (simp add: call_ok_retE)
  then show ?thesis unfolding shardsReady_def .
qed

section \<open>The entry point\<close>

definition outcome_ok :: "outcome \<Rightarrow> bool" where
  "outcome_ok out \<longleftrightarrow>
     (case out of (delay, err) \<Rightarrow> delay \<in> {0, reshardRequeue, requeueAfter} \<and>
        (\<forall>e. err = Some e \<longrightarrow> delay = 0 \<and> \<not> is_abort e))"

text \<open>A step of the entry point keeps the cluster well-formed and ends in an admissible outcome.\<close>

abbreviation ends_ok :: "('a Fake_scheme, outcome) io \<Rightarrow> bool" where
  "ends_ok m \<equiv> triple Fake_inv m (\<lambda>out w. Fake_inv w \<and> outcome_ok out)"

lemma ends_ret: "outcome_ok out \<Longrightarrow> ends_ok (ret out)"
  by (rule triple_return) simp

lemma ends_safe:
  assumes "safe m" and "\<And>e. \<not> is_abort e \<Longrightarrow> ends_ok (f (Inl e))" and "\<And>x. ends_ok (f (Inr x))"
  shows "ends_ok (State_Monad.bind m f)"
proof (rule triple_bind [OF assms(1) [unfolded safe_def]])
  fix res show "triple (\<lambda>w. Fake_inv w \<and> (\<forall>e. res = Inl e \<longrightarrow> \<not> is_abort e)) (f res) (\<lambda>out w. Fake_inv w \<and> outcome_ok out)"
    by (rule triple_pure) (use assms(2,3) in \<open>cases res; simp\<close>)
qed

lemma outcome_simps [simp]:
  "outcome_ok (requeueAfter, None)" "outcome_ok (reshardRequeue, None)" "outcome_ok (0, None)"
  "\<not> is_abort e \<Longrightarrow> outcome_ok (0, Some e)"
  by (simp_all add: outcome_ok_def)

lemma ends_run_cluster:
  assumes "client_frame c" "order_ok (fake_reconciler c mo)" "nShards cr \<noteq> 0"
  shows "ends_ok (run_cluster (fake_reconciler c mo) cr)"
  unfolding run_cluster_def
  by (rule ends_safe [OF safe_reconcileCluster [OF assms]]) (simp_all add: ends_ret)

lemma ends_reconcile_live:
  assumes frame: "client_frame c" and "order_ok (fake_reconciler c mo)" "nShards cr \<noteq> 0"
  shows "ends_ok (reconcile_live (fake_reconciler c mo) cr)"
  unfolding reconcile_live_def
proof (rule ends_safe)
  let ?r = "fake_reconciler c mo"
  have k: "client_frame (kube ?r)" using frame by simp
  show "safe (bindE (ensureConfigMap ?r cr) (\<lambda>_. bindE (ensureHeadlessService ?r cr) (\<lambda>_.
      bindE (ensureStatefulSets ?r cr) (\<lambda>_. shardsReady ?r cr))))"
    by (intro safe_bindE safe_call frame_ensure frame_shardsReady k)
  have "ends_ok (State_Monad.bind (setPhase ?r cr ph re msg) (\<lambda>_. ret (requeueAfter, None)))" for ph re msg
    by (rule ends_safe [OF safe_call [OF frame_setPhase [OF k]]]) (simp_all add: ends_ret)
  with ends_run_cluster [OF assms]
  show "ends_ok (case Inr ready of Inl e \<Rightarrow> ret (0, Some e)
      | Inr True \<Rightarrow> run_cluster ?r cr
      | Inr False \<Rightarrow> State_Monad.bind (setPhase ?r cr PhaseProvisioning ''Provisioning'' ''waiting for shard pods'') (\<lambda>_.
         ret (requeueAfter, None)))" for ready by (cases ready) simp_all
qed (simp add: ends_ret)

lemma ends_reconcileDelete:
  assumes "client_frame c"
  shows "ends_ok (reconcileDelete (fake_reconciler c mo) cr)"
proof -
  let ?r = "fake_reconciler c mo"
  have k: "client_frame (kube ?r)" using assms by simp
  have own: "call_ok (deleteOwnedPVCs ?r cr)"
    unfolding deleteOwnedPVCs_def by (intro call_ok_bindE frame_calls [OF k] frame_delete_pvcs k)
  have upd: "safe (UpdateVC (kube ?r) v)" for v by (intro safe_call frame_calls [OF k])
  have "ends_ok (State_Monad.bind (UpdateVC (kube ?r) v) (\<lambda>res. case res of
      Inl e \<Rightarrow> ret (0, Some e) | Inr _ \<Rightarrow> ret (0, None)))" for v
    by (rule ends_safe [OF upd]) (simp_all add: ends_ret)
  then have "ends_ok (State_Monad.bind (deleteOwnedPVCs ?r cr) (\<lambda>res. case res of
      Inl e \<Rightarrow> ret (0, Some e)
    | Inr _ \<Rightarrow> State_Monad.bind (UpdateVC (kube ?r) (RemoveFinalizer (kube ?r) cr finalizer)) (\<lambda>res. case res of
        Inl e \<Rightarrow> ret (0, Some e) | Inr _ \<Rightarrow> ret (0, None))))"
    by (intro ends_safe [OF safe_call [OF own]]) (simp_all add: ends_ret)
  then show ?thesis unfolding reconcileDelete_def
    by (cases "ContainsFinalizer (kube ?r) cr finalizer") (simp_all only: if_True if_False not_True_eq_False not_False_eq_True ends_ret outcome_simps)
qed

text \<open>The ways through the entry point.\<close>

lemma Reconcile_cases:
  assumes "run_state (Reconcile r req) w = (out, w')"
  obtains (missing) e where "run_state (GetVC (kube r) req) w = (Inl e, w')" "out = (0, IgnoreNotFound (kube r) e)"
    | (deleted) cr w1 where "run_state (GetVC (kube r) req) w = (Inr cr, w1)" "run_state (reconcileDelete r cr) w1 = (out, w')"
    | (failed) cr w1 e where "run_state (GetVC (kube r) req) w = (Inr cr, w1)"
        "run_state (UpdateVC (kube r) (AddFinalizer (kube r) cr finalizer)) w1 = (Inl e, w')" "out = (0, Some e)"
    | (added) cr w1 v w2 where "run_state (GetVC (kube r) req) w = (Inr cr, w1)"
        "run_state (UpdateVC (kube r) (AddFinalizer (kube r) cr finalizer)) w1 = (Inr v, w2)" "run_state (reconcile_live r v) w2 = (out, w')"
    | (found) cr w1 where "run_state (GetVC (kube r) req) w = (Inr cr, w1)" "run_state (reconcile_live r cr) w1 = (out, w')"
  using assms by (auto simp: Reconcile_def split: prod.splits sum.splits if_splits)

text \<open>
  Claim C6. The entry point always returns properly. On the in-memory cluster, with an API server
  that hands out admitted objects, every call of \<^verbatim>\<open>Reconcile\<close> returns: it never panics (no division
  by zero, no index out of range) and no loop of it runs for ever, whatever the API calls
  answer and in whatever order maps are iterated. The cluster stays well-formed, the requeue
  delay is none, one second or fifteen seconds, and an error is returned only without a delay.
\<close>

theorem Reconcile_returns:
  fixes w :: "'a Fake_scheme"
  assumes inv: "Fake_inv w" and frame: "client_frame c" and order: "order_ok (fake_reconciler c mo)"
    and served: "\<forall>cr w1. run_state (GetVC c req) w = (Inr cr, w1) \<longrightarrow> spec_admitted (Spec cr) \<and>
      (\<forall>cr' w2. run_state (UpdateVC c (AddFinalizer c cr finalizer)) w1 = (Inr cr', w2) \<longrightarrow> spec_admitted (Spec cr'))"
    and run: "run_state (Reconcile (fake_reconciler c mo) req) w = ((delay, err), w')"
  shows "Fake_inv w' \<and> delay \<in> {0, 1000000000, 15000000000} \<and>
    (\<forall>e. err = Some e \<longrightarrow> delay = 0 \<and> \<not> is_abort e)"
proof -
  let ?r = "fake_reconciler c mo"
  note get_ok = safe_call [OF frame_calls(1) [OF frame]] and upd_ok = safe_call [OF frame_calls(2) [OF frame]]
  have live: "Fake_inv w' \<and> outcome_ok (delay, err)"
    if "spec_admitted (Spec v)" "Fake_inv w2" "run_state (reconcile_live ?r v) w2 = ((delay, err), w')" for v w2
    using tripleD [OF ends_reconcile_live [OF frame order] that(2,3)] admitted_shards [OF that(1)] by simp
  from run have "Fake_inv w' \<and> outcome_ok (delay, err)"
  proof (cases rule: Reconcile_cases)
    case (missing e)
    then have "Fake_inv w'" "\<not> is_abort e" using safeD [OF get_ok inv, of req "Inl e" w'] by simp_all
    with missing frame_create(5) [OF frame] show ?thesis by (auto simp: outcome_ok_def)
  next
    case (deleted cr w1)
    then have "Fake_inv w1" using safeD [OF get_ok inv, of req "Inr cr" w1] by simp
    from tripleD [OF ends_reconcileDelete [OF frame] this deleted(2)] show ?thesis .
  next
    case (failed cr w1 e)
    then have "Fake_inv w1" using safeD [OF get_ok inv, of req "Inr cr" w1] by simp
    from safeD [OF upd_ok this, of _ "Inl e" w'] failed show ?thesis by simp
  next
    case (added cr w1 v w2)
    then have "Fake_inv w1" using safeD [OF get_ok inv, of req "Inr cr" w1] by simp
    from safeD [OF upd_ok this, of _ "Inr v" w2] added have "Fake_inv w2" by simp
    moreover have "spec_admitted (Spec v)" using served added by simp
    ultimately show ?thesis using live added(3) by blast
  next
    case (found cr w1)
    then have "Fake_inv w1" using safeD [OF get_ok inv, of req "Inr cr" w1] by simp
    moreover have "spec_admitted (Spec cr)" using served found by simp
    ultimately show ?thesis using live found(2) by blast
  qed
  then show ?thesis by (auto simp: outcome_ok_def requeueAfter_def reshardRequeue_def)
qed

theorem Reconcile_returns_witness:
  "\<exists>delay err w'. run_state (Reconcile store_reconciler (''ns'', ''demo'')) (empty_store (demo_cluster 3 1)) =
      ((delay, err), w') \<and> delay \<in> {0, 1000000000, 15000000000}"
proof -
  let ?cr = "demo_cluster 3 1"
  let ?w = "empty_store ?cr"
  have adm: "spec_admitted (Spec ?cr)" by (rule demo_admitted) simp_all
  have "\<forall>cr w1. run_state (GetVC store_client (''ns'', ''demo'')) ?w = (Inr cr, w1) \<longrightarrow> spec_admitted (Spec cr) \<and>
      (\<forall>cr' w2. run_state (UpdateVC store_client (AddFinalizer store_client cr finalizer)) w1 = (Inr cr', w2) \<longrightarrow>
         spec_admitted (Spec cr'))"
    using adm by (auto simp: store_client_def empty_store_def)
  moreover obtain delay err w' where "run_state (Reconcile store_reconciler (''ns'', ''demo'')) ?w = ((delay, err), w')"
    by (metis surj_pair)
  ultimately show ?thesis
    using Reconcile_returns [OF empty_store_inv store_frame store_order_ok] by blast
qed

end
