(* ===== verification/Lifecycle.thy ===== *)
theory Lifecycle
  imports No_Panic
begin

text \<open>
  The two ends of a cluster's life: \<^verbatim>\<open>Reconcile\<close> leaves the Valkey cluster alone until the pods of all
  shards are ready, and on deletion the finalizer stays until the volume claims are gone.
\<close>

section \<open>Waiting for the pods\<close>

lemma shards_ready_True:
  assumes "run_state (shards_ready r cr want is) w = (Inr True, w')" and "i \<in> set is"
  shows "\<exists>u sts u'. run_state (GetSTS (kube r) (Namespace cr, StatefulSetName cr i)) u = (Inr sts, u') \<and> stsReadyReplicas sts = want"
  using assms
proof (induction "is" arbitrary: w)
  case (Cons k "is")
  obtain g w1 where g: "run_state (GetSTS (kube r) (Namespace cr, StatefulSetName cr k)) w = (g, w1)" by fastforce
  show ?case
  proof (cases g)
    case (Inl e)
    with Cons.prems(1) g show ?thesis by (auto split: option.splits)
  next
    case (Inr sts)
    with Cons.prems(1) g have "stsReadyReplicas sts = want" "run_state (shards_ready r cr want is) w1 = (Inr True, w')"
      by (auto split: if_splits)
    then show ?thesis using Cons g Inr by (cases "i = k") auto
  qed
qed simp

lemma call_ok_nodes: "call_ok m \<Longrightarrow> run_state m w = (res, w') \<Longrightarrow> nodes w' = nodes w"
  unfolding call_ok_def by blast

lemma reconcile_live_waits:
  assumes frame: "client_frame c" and run: "run_state (reconcile_live (fake_reconciler c mo) v) w = (out, w')"
  shows "nodes w' = nodes w \<or> (\<exists>u u'. run_state (shardsReady (fake_reconciler c mo) v) u = (Inr True, u'))"
proof -
  let ?r = "fake_reconciler c mo"
  have k: "client_frame (kube ?r)" using frame by simp
  let ?pre = "bindE (ensureConfigMap ?r v) (\<lambda>_. bindE (ensureHeadlessService ?r v) (\<lambda>_. ensureStatefulSets ?r v))"
  have assoc: "bindE (ensureConfigMap ?r v) (\<lambda>_. bindE (ensureHeadlessService ?r v) (\<lambda>_.
      bindE (ensureStatefulSets ?r v) (\<lambda>_. shardsReady ?r v))) = bindE ?pre (\<lambda>_. shardsReady ?r v)"
    by (rule state_ext) (simp add: run_bindE split: prod.split sum.split)
  obtain res w1 where pre: "run_state (bindE ?pre (\<lambda>_. shardsReady ?r v)) w = (res, w1)" by fastforce
  have "call_ok (bindE ?pre (\<lambda>_. shardsReady ?r v))"
    by (intro call_ok_bindE frame_ensure [OF k] frame_shardsReady [OF k])
  then have n1: "nodes w1 = nodes w" using pre by (rule call_ok_nodes)
  consider e where "res = Inl e" | "res = Inr False" | "res = Inr True" by (cases res) auto
  then show ?thesis
  proof cases
    case 1
    with run pre n1 show ?thesis by (simp add: reconcile_live_def assoc)
  next
    case 2
    obtain p w2 where ph: "run_state (setPhase ?r v PhaseProvisioning ''Provisioning'' ''waiting for shard pods'') w1 = (p, w2)" by fastforce
    have "nodes w2 = nodes w1" using frame_setPhase [OF k] ph by (rule call_ok_nodes)
    moreover have "w' = w2" using run pre 2 ph by (simp add: reconcile_live_def assoc)
    ultimately show ?thesis using n1 by simp
  next
    case 3
    then show ?thesis using pre by (auto simp: run_bindE split: prod.splits sum.splits)
  qed
qed

lemma reconcileDelete_nodes:
  assumes frame: "client_frame c" and run: "run_state (reconcileDelete (fake_reconciler c mo) v) w = (out, w')"
  shows "nodes w' = nodes w"
proof (cases "ContainsFinalizer c v finalizer")
  case False
  with run show ?thesis by (simp add: reconcileDelete_def)
next
  case True
  let ?r = "fake_reconciler c mo"
  have k: "client_frame (kube ?r)" using frame by simp
  obtain res w1 where del: "run_state (deleteOwnedPVCs ?r v) w = (res, w1)" by fastforce
  have "call_ok (deleteOwnedPVCs ?r v)"
    unfolding deleteOwnedPVCs_def by (intro call_ok_bindE frame_calls [OF k] frame_delete_pvcs k)
  then have n1: "nodes w1 = nodes w" using del by (rule call_ok_nodes)
  obtain u w2 where upd: "run_state (UpdateVC c (RemoveFinalizer c v finalizer)) w1 = (u, w2)" by fastforce
  have n2: "nodes w2 = nodes w1" using frame_calls(2) [OF frame] upd by (rule call_ok_nodes)
  show ?thesis
    using run True del upd n1 n2 by (auto simp: reconcileDelete_def split: sum.splits)
qed

text \<open>The resource that a call of \<^verbatim>\<open>Reconcile\<close> works on: as read, or as returned with the finalizer added.\<close>

definition works_on :: "'w Client \<Rightarrow> NamespacedName \<Rightarrow> 'w \<Rightarrow> ValkeyCluster \<Rightarrow> bool" where
  "works_on c req w cr \<longleftrightarrow>
     (\<exists>cr0 w1. run_state (GetVC c req) w = (Inr cr0, w1) \<and>
        (cr = cr0 \<or> (\<exists>w2. run_state (UpdateVC c (AddFinalizer c cr0 finalizer)) w1 = (Inr cr, w2))))"


text \<open>A cluster of one shard whose StatefulSet is ready and whose node is not yet known.\<close>

definition pods_up :: Store where
  "pods_up = (empty_store (demo_cluster 1 0))\<lparr>stored_sts := [(bare_sts (StatefulSetName (demo_cluster 1 0) 0) ''ns'')\<lparr>stsReadyReplicas := 1\<rparr>]\<rparr>"

text \<open>An API server that takes StatefulSets without looking into them.\<close>

definition lazy_client :: "Store Client" where
  "lazy_client = store_client\<lparr>CreateOrUpdateCM := \<lambda>_ _. retE (), CreateOrUpdateSvc := \<lambda>_ _. retE (), CreateOrUpdateSTS := \<lambda>_ _. retE ()\<rparr>"

lemma lazy_frame: "client_frame lazy_client"
  using store_frame unfolding client_frame_def lazy_client_def by (simp add: call_ok_retE del: split_paired_All)


section \<open>Deletion\<close>

text \<open>The volume claims of a cluster.\<close>

definition claim_of :: "ValkeyCluster \<Rightarrow> PersistentVolumeClaim \<Rightarrow> bool" where
  "claim_of cr p \<longleftrightarrow>
     mNamespace (pvcMeta p) = Namespace cr \<and> labels_match [(''app.kubernetes.io/instance'', Name cr)] (mLabels (pvcMeta p))"

text \<open>
  The API server's documented behaviour on claims, seen through the set of claims it holds and
  the custom resource it stores: a list has the claims of the namespace with the labels, a
  delete that succeeds or finds nothing leaves the claim gone, and neither touches the
  resource; an update of the resource does not touch the claims.
\<close>

definition list_law :: "'w Client \<Rightarrow> ('w \<Rightarrow> PersistentVolumeClaim set) \<Rightarrow> ('w \<Rightarrow> ValkeyCluster option) \<Rightarrow> bool" where
  "list_law c claims stored \<longleftrightarrow>
     (\<forall>ns ls w r w'. run_state (ListPVC c ns ls) w = (r, w') \<longrightarrow> claims w' = claims w \<and> stored w' = stored w \<and>
        (\<forall>ps. r = Inr ps \<longrightarrow> set ps = {p \<in> claims w. mNamespace (pvcMeta p) = ns \<and> labels_match ls (mLabels (pvcMeta p))}))"

definition delete_law :: "'w Client \<Rightarrow> ('w \<Rightarrow> PersistentVolumeClaim set) \<Rightarrow> ('w \<Rightarrow> ValkeyCluster option) \<Rightarrow> bool" where
  "delete_law c claims stored \<longleftrightarrow>
     (\<forall>p w r w'. run_state (DeletePVC c p) w = (r, w') \<longrightarrow> claims w' \<subseteq> claims w \<and> stored w' = stored w \<and>
        (r = Inr () \<or> (\<exists>e. r = Inl e \<and> IsNotFound c e) \<longrightarrow> p \<notin> claims w'))"

definition claims_law :: "'w Client \<Rightarrow> ('w \<Rightarrow> PersistentVolumeClaim set) \<Rightarrow> ('w \<Rightarrow> ValkeyCluster option) \<Rightarrow> bool" where
  "claims_law c claims stored \<longleftrightarrow>
     list_law c claims stored \<and> delete_law c claims stored \<and>
     (\<forall>v w r w'. run_state (UpdateVC c v) w = (r, w') \<longrightarrow> claims w' = claims w)"

lemma list_lawD:
  assumes "list_law c claims stored" "run_state (ListPVC c ns ls) w = (r, w')"
  shows "claims w' = claims w" "stored w' = stored w"
    "r = Inr ps \<Longrightarrow> set ps = {p \<in> claims w. mNamespace (pvcMeta p) = ns \<and> labels_match ls (mLabels (pvcMeta p))}"
  using assms unfolding list_law_def by blast+

lemma delete_lawD:
  assumes "delete_law c claims stored" "run_state (DeletePVC c p) w = (r, w')"
  shows "claims w' \<subseteq> claims w" "stored w' = stored w"
    "r = Inr () \<or> (\<exists>e. r = Inl e \<and> IsNotFound c e) \<Longrightarrow> p \<notin> claims w'"
  using assms unfolding delete_law_def by blast+

lemma delete_pvcs_run:
  assumes law: "delete_law (kube r) claims stored" and "run_state (delete_pvcs r ps) w = (res, w')"
  shows "claims w' \<subseteq> claims w \<and> stored w' = stored w \<and> (res = Inr () \<longrightarrow> set ps \<inter> claims w' = {})"
  using assms(2) unfolding delete_pvcs_def
proof (induction ps arbitrary: w)
  case (Cons p ps)
  obtain d w1 where del: "run_state (DeletePVC (kube r) p) w = (d, w1)" by fastforce
  note w1 = delete_lawD [OF law del]
  consider e where "d = Inl e" "\<not> IsNotFound (kube r) e" | "d = Inr () \<or> (\<exists>e. d = Inl e \<and> IsNotFound (kube r) e)"
    by (cases d) auto
  then show ?case
  proof cases
    case 1
    then have "run_state (ignoreNotFound (kube r) (DeletePVC (kube r) p)) w = (Inl e, w1)" using del by (simp add: ignoreNotFound_def)
    from Cons.prems [unfolded forE.simps run_bindE_Inl [OF this]] w1(1,2) show ?thesis by auto
  next
    case 2
    then have "run_state (ignoreNotFound (kube r) (DeletePVC (kube r) p)) w = (Inr (), w1)" using del by (auto simp: ignoreNotFound_def)
    from Cons.prems [unfolded forE.simps run_bindE_Inr [OF this]]
    have "claims w' \<subseteq> claims w1 \<and> stored w' = stored w1 \<and> (res = Inr () \<longrightarrow> set ps \<inter> claims w' = {})" by (rule Cons.IH)
    with w1(1,2) w1(3) [OF 2] show ?thesis by auto
  qed
qed auto

lemma deleteOwnedPVCs_run:
  assumes law: "claims_law (kube r) claims stored" and run: "run_state (deleteOwnedPVCs r cr) w = (res, w')"
  shows "stored w' = stored w \<and> (res = Inr () \<longrightarrow> (\<forall>p \<in> claims w'. \<not> claim_of cr p))"
proof -
  let ?ls = "[(''app.kubernetes.io/instance'', Name cr)]"
  obtain l w1 where list: "run_state (ListPVC (kube r) (Namespace cr) ?ls) w = (l, w1)" by fastforce
  have laws: "list_law (kube r) claims stored" "delete_law (kube r) claims stored" using law by (simp_all add: claims_law_def)
  note w1 = list_lawD [OF laws(1) list, folded claim_of_def]
  show ?thesis
  proof (cases l)
    case (Inl e)
    from run [unfolded deleteOwnedPVCs_def run_bindE_Inl [OF list [unfolded Inl]]] w1(2) show ?thesis by auto
  next
    case (Inr ps)
    from run [unfolded deleteOwnedPVCs_def run_bindE_Inr [OF list [unfolded Inr]]]
    have "claims w' \<subseteq> claims w1 \<and> stored w' = stored w1 \<and> (res = Inr () \<longrightarrow> set ps \<inter> claims w' = {})"
      by (rule delete_pvcs_run [OF laws(2)])
    with w1(1,2) w1(3) [OF Inr] show ?thesis by auto
  qed
qed


lemma store_claims: "claims_law store_client (\<lambda>w. set (stored_pvc w)) stored_vc"
  by (auto simp: claims_law_def list_law_def delete_law_def store_client_def)

definition doomed :: ValkeyCluster where
  "doomed = AddFinalizer store_client (demo_cluster 3 1) finalizer"

definition doomed_store :: Store where
  "doomed_store = (empty_store doomed)\<lparr>stored_pvc := [\<lparr>pvcMeta = (object_meta ''data-demo-shard-0-0'' ''ns'')\<lparr>mLabels := shardLabels doomed 0\<rparr>,
     pvcAccessModes = [], pvcRequests = [], pvcStorageClassName = None\<rparr>]\<rparr>"


end
