(* ===== verification/Net_IP.thy ===== *)
theory Net_IP
  imports Builders
begin

text \<open>
  What \<^verbatim>\<open>resolveHost\<close> of \<^verbatim>\<open>internal/cluster/goredis.go\<close> uses of the standard library's \<^verbatim>\<open>net\<close> package:
  whether \<^verbatim>\<open>net.ParseIP\<close> accepts a string, that is dotted IPv4, or IPv6 with at most one \<^verbatim>\<open>::\<close>, an
  optional trailing IPv4 part and no zone. The lemmas show that the dotted form of four bytes
  is an address and that the name of a pod never is.
\<close>

section \<open>Definitions\<close>

definition octet_ok :: "string \<Rightarrow> bool" where
  "octet_ok s \<longleftrightarrow> s \<noteq> [] \<and> list_all is_digit s \<and> (length s = 1 \<or> hd s \<noteq> CHR ''0'') \<and> digits_val 0 s \<le> 255"

definition parseIPv4 :: "string \<Rightarrow> bool" where
  "parseIPv4 s \<longleftrightarrow> length (Split CHR ''.'' s) = 4 \<and> list_all octet_ok (Split CHR ''.'' s)"

definition is_hex :: "char \<Rightarrow> bool" where
  "is_hex c \<longleftrightarrow> is_digit c \<or> (97 \<le> byte c \<and> byte c \<le> 102) \<or> (65 \<le> byte c \<and> byte c \<le> 70)"

text \<open>
  The groups of an IPv6 address: \<open>k\<close> more groups of 16 bits are wanted, \<open>ell\<close> says whether a
  \<^verbatim>\<open>::\<close> was seen, which must stand for at least one group.
\<close>

fun parseIPv6_groups :: "nat \<Rightarrow> bool \<Rightarrow> string \<Rightarrow> bool" where
  "parseIPv6_groups 0 ell s \<longleftrightarrow> s = [] \<and> \<not> ell"
| "parseIPv6_groups (Suc k) ell s \<longleftrightarrow>
     (let ds = takeWhile is_hex s; t = dropWhile is_hex s in
      if ds = [] \<or> length ds > 4 then False
      else case t of
        [] \<Rightarrow> (if k = 0 then \<not> ell else ell)
      | c # u \<Rightarrow>
          if c = CHR ''.'' then
            (ell \<or> k = 1) \<and> k \<noteq> 0 \<and> parseIPv4 s \<and> (if k = 1 then \<not> ell else ell)
          else if c \<noteq> CHR '':'' then False
          else case u of
            [] \<Rightarrow> False
          | d # v \<Rightarrow>
              if d = CHR '':'' then
                if ell then False
                else if v = [] then k \<noteq> 0
                else parseIPv6_groups k True v
              else parseIPv6_groups k ell u)"

definition parseIPv6 :: "string \<Rightarrow> bool" where
  "parseIPv6 s \<longleftrightarrow>
     CHR ''%'' \<notin> set s \<and>
     (if HasPrefix s ''::'' then drop 2 s = [] \<or> parseIPv6_groups 8 True (drop 2 s)
      else parseIPv6_groups 8 False s)"

text \<open>The first separator decides which of the two is tried.\<close>

fun ParseAddr :: "string \<Rightarrow> string \<Rightarrow> bool" where
  "ParseAddr s [] = False"
| "ParseAddr s (c # cs) =
     (if c = CHR ''.'' then parseIPv4 s
      else if c = CHR '':'' then parseIPv6 s
      else if c = CHR ''%'' then False
      else ParseAddr s cs)"

definition ParseIP :: "string \<Rightarrow> bool" where
  "ParseIP s = ParseAddr s s"

section \<open>Lemmas\<close>

lemma ParseAddr_skip:
  "CHR ''.'' \<notin> set p \<Longrightarrow> CHR '':'' \<notin> set p \<Longrightarrow> CHR ''%'' \<notin> set p \<Longrightarrow> ParseAddr s (p @ q) = ParseAddr s q"
  by (induction p) auto

lemma Split_chars: "c \<in> set s \<Longrightarrow> c \<noteq> sep \<Longrightarrow> \<exists>f \<in> set (Split sep s). c \<in> set f"
  by (induction s) (auto split: list.splits)

lemma parseIPv4_chars:
  assumes "parseIPv4 s" and "c \<in> set s"
  shows "is_digit c \<or> c = CHR ''.''"
proof (rule disjCI)
  assume "c \<noteq> CHR ''.''"
  with assms(2) obtain f where "f \<in> set (Split CHR ''.'' s)" "c \<in> set f" using Split_chars by blast
  then show "is_digit c" using assms(1) by (auto simp: parseIPv4_def octet_ok_def list_all_iff)
qed

text \<open>The dotted form of four bytes.\<close>

lemma digits_first: "0 < n \<Longrightarrow> hd (digits n) \<noteq> CHR ''0''"
proof (induction n rule: digits.induct)
  case (1 n)
  show ?case
  proof (cases "n < 10")
    case True
    then have "digits n = [digit_char n]" by (simp add: digits.simps)
    moreover have "digit_char n \<noteq> CHR ''0''"
    proof
      assume "digit_char n = CHR ''0''"
      then have "byte (digit_char n) = byte CHR ''0''" by simp
      moreover have "byte CHR ''0'' = 48" by (simp add: byte_def)
      ultimately show False using 1(2) True by simp
    qed
    ultimately show ?thesis by simp
  next
    case False
    then have "digits n = digits (n div 10) @ [digit_char (n mod 10)]" by (simp add: digits.simps [of n])
    moreover have "hd (digits (n div 10)) \<noteq> CHR ''0''" using 1 False by simp
    ultimately show ?thesis by (simp add: hd_append)
  qed
qed

lemma octet_Itoa:
  assumes "0 \<le> n" "n \<le> 255"
  shows "octet_ok (Itoa n)"
proof -
  have "list_all is_digit (Itoa n)" using Itoa_digits [OF assms(1)] by (auto simp: list_all_iff)
  moreover have "digits_val 0 (Itoa n) \<le> 255" using assms by (simp add: Itoa_def digits_val_digits)
  moreover have "length (Itoa n) = 1 \<or> hd (Itoa n) \<noteq> CHR ''0''"
    using digits_first [of n] assms by (cases "n = 0") (auto simp: Itoa_def digits.simps [of 0])
  ultimately show ?thesis by (simp add: octet_ok_def)
qed

lemma ParseIP_dotted:
  assumes "\<And>x. x \<in> {a, b, c, d} \<Longrightarrow> 0 \<le> x \<and> x \<le> 255"
  shows "ParseIP (Itoa a @ ''.'' @ Itoa b @ ''.'' @ Itoa c @ ''.'' @ Itoa d)" (is "ParseIP ?s")
proof -
  have notin: "CHR ''.'' \<notin> set (Itoa x)" "CHR '':'' \<notin> set (Itoa x)" "CHR ''%'' \<notin> set (Itoa x)"
    if "x \<in> {a, b, c, d}" for x
    using Itoa_notin [of x] assms [OF that] by (auto simp: is_digit_def byte_def)
  have "Split CHR ''.'' ?s = [Itoa a, Itoa b, Itoa c, Itoa d]"
    using notin by (simp add: Split_append_sep Split_no_sep)
  then have "parseIPv4 ?s" using assms octet_Itoa by (simp add: parseIPv4_def)
  then show ?thesis using notin by (simp add: ParseIP_def ParseAddr_skip)
qed

text \<open>A pod's name is no address, so that it is always looked up.\<close>

lemma PodFQDN_not_IP:
  assumes "set (Name cr) \<inter> {CHR ''.'', CHR '':'', CHR ''%''} = {}" and "0 \<le> i" "0 \<le> j"
  shows "\<not> ParseIP (PodFQDN cr i j)"
proof
  assume ip: "ParseIP (PodFQDN cr i j)"
  have itoa: "CHR '':'' \<notin> set (Itoa k)" "CHR ''%'' \<notin> set (Itoa k)" if "0 \<le> k" for k
    using Itoa_notin [OF that] by (auto simp: is_digit_def byte_def)
  have dot: "CHR ''.'' \<notin> set (PodName cr i j)" using assms by (intro dot_PodName) auto
  have "CHR '':'' \<notin> set (PodName cr i j)" "CHR ''%'' \<notin> set (PodName cr i j)"
    using assms itoa by (auto simp: PodName_def StatefulSetName_def)
  with dot ip have "parseIPv4 (PodFQDN cr i j)" by (simp add: ParseIP_def PodFQDN_def ParseAddr_skip)
  from parseIPv4_chars [OF this, of "CHR ''v''"] show False by (simp add: PodFQDN_def is_digit_def byte_def)
qed

end
