(* ===== verification/Go_Redis.thy ===== *)
theory Go_Redis
  imports Node_Parser Admin_Contract Net_IP
begin

text \<open>
  The live \<^verbatim>\<open>ClusterAdmin\<close> of \<^verbatim>\<open>internal/cluster/goredis.go\<close>. The go-redis client, the resolver
  and with them the Valkey processes are not part of the repository: a record of the calls the
  code makes stands for them, and what the proofs need of their behaviour is stated in
  \<open>Slot_Moves\<close>. A client is its options: a cached connection answers like a new one
  with the same options, so that the cache of \<^verbatim>\<open>MoveSlots\<close> and the deferred \<^verbatim>\<open>Close\<close> calls leave no
  trace.
\<close>

section \<open>The calls\<close>

text \<open>\<^verbatim>\<open>goredis.Options\<close>, as far as it is set; durations in nanoseconds, 0 is the default.\<close>

record Options =
  oAddr :: string
  oDialTimeout :: int
  oReadTimeout :: int
  oMaxRetries :: int

definition NewClient :: "string \<Rightarrow> Options" where
  "NewClient a = \<lparr>oAddr = a, oDialTimeout = 0, oReadTimeout = 0, oMaxRetries = 0\<rparr>"

text \<open>An argument of \<^verbatim>\<open>Do\<close>.\<close>

datatype arg = Str string | Num int

record 'w Redis =
  ClusterInfo :: "Options \<Rightarrow> ('w, string) ioE"
  ClusterNodes :: "Options \<Rightarrow> ('w, string) ioE"
  ClusterMyID :: "Options \<Rightarrow> ('w, string) ioE"
  ClusterMeet :: "Options \<Rightarrow> string \<Rightarrow> string \<Rightarrow> ('w, unit) ioE"
  ClusterAddSlotsRange :: "Options \<Rightarrow> int \<Rightarrow> int \<Rightarrow> ('w, unit) ioE"
  ClusterReplicate :: "Options \<Rightarrow> string \<Rightarrow> ('w, unit) ioE"
  ClusterForget :: "Options \<Rightarrow> string \<Rightarrow> ('w, unit) ioE"
  ClusterFailover :: "Options \<Rightarrow> ('w, unit) ioE"
  ClusterGetKeysInSlot :: "Options \<Rightarrow> int \<Rightarrow> int \<Rightarrow> ('w, string list) ioE"
  Migrate :: "Options \<Rightarrow> string \<Rightarrow> string \<Rightarrow> string \<Rightarrow> int \<Rightarrow> int \<Rightarrow> ('w, unit) ioE"
  Do :: "Options \<Rightarrow> arg list \<Rightarrow> ('w, unit) ioE"
  LookupHost :: "string \<Rightarrow> ('w, string list) ioE"

section \<open>The admin\<close>

text \<open>
  \<open>visit\<close> is the order in which Go ranges over the set of open slots, \<open>rounds\<close> the number of
  rounds the model allows the key loop of \<^verbatim>\<open>MoveSlots\<close>, which has no bound of its own.
\<close>

record 'w GoAdmin =
  redis :: "'w Redis"
  exec :: "string \<Rightarrow> string \<Rightarrow> string \<Rightarrow> string list \<Rightarrow> ('w, string \<times> error option) io"
  container :: string
  visit :: "int list \<Rightarrow> ('w, int list) io"
  rounds :: nat

definition NewAdmin :: "'w Redis \<Rightarrow> (string \<Rightarrow> string \<Rightarrow> string \<Rightarrow> string list \<Rightarrow> ('w, string \<times> error option) io) \<Rightarrow> string \<Rightarrow>
    (int list \<Rightarrow> ('w, int list) io) \<Rightarrow> nat \<Rightarrow> 'w GoAdmin" where
  "NewAdmin R x c v k = \<lparr>redis = R, exec = x, container = c, visit = v, rounds = k\<rparr>"

definition dial :: "Endpoint \<Rightarrow> Options" where
  "dial e = NewClient (Addr e)"

text \<open>Nodes are dialled by IP, and by name where CLUSTER NODES gives no IP.\<close>

definition node_addr :: "NodeInfo \<Rightarrow> string" where
  "node_addr nd = (if IP nd = '''' then Host nd else IP nd) @ '':'' @ Itoa (Port nd)"

definition clientFor :: "NodeInfo \<Rightarrow> Options" where
  "clientFor nd = NewClient (node_addr nd)"

section \<open>Observation\<close>

definition unreachable :: "NodeInfo \<Rightarrow> bool" where
  "unreachable n \<longleftrightarrow> \<not> Connected n \<or> HasFlag n ''fail'' \<or> HasFlag n ''fail?'' \<or> HasFlag n ''noaddr''"

definition sweep_client :: "NodeInfo \<Rightarrow> Options" where
  "sweep_client n =
     \<lparr>oAddr = node_addr n, oDialTimeout = 2000000000, oReadTimeout = 2000000000, oMaxRetries = - 1\<rparr>"

definition add_seen :: "int list \<Rightarrow> int list \<Rightarrow> int list" where
  "add_seen seen ss = seen @ filter (\<lambda>s. s \<notin> set seen) ss"

fun collect_open :: "'w Redis \<Rightarrow> int list \<Rightarrow> NodeInfo list \<Rightarrow> ('w, int list) io" where
  "collect_open R seen [] = ret seen"
| "collect_open R seen (n # ns) =
     (if unreachable n then collect_open R seen ns
      else State_Monad.bind (ClusterNodes R (sweep_client n)) (\<lambda>res. case res of
             Inl e \<Rightarrow> collect_open R seen ns
           | Inr raw \<Rightarrow> collect_open R (add_seen seen (parseOpenSlots raw)) ns))"

definition collectOpenSlots :: "'w GoAdmin \<Rightarrow> NodeInfo list \<Rightarrow> ('w, int list) io" where
  "collectOpenSlots a ns = State_Monad.bind (collect_open (redis a) [] ns) (visit a)"

definition Admin_State :: "'w GoAdmin \<Rightarrow> Endpoint \<Rightarrow> ('w, ClusterState) ioE" where
  "Admin_State a seed =
     bindE (wrapE (\<lambda>e. Errorf ''cluster info'' (Some e)) (ClusterInfo (redis a) (dial seed))) (\<lambda>info.
     bindE (wrapE (\<lambda>e. Errorf ''cluster nodes'' (Some e)) (ClusterNodes (redis a) (dial seed))) (\<lambda>nodesRaw.
     let kv = parseInfo info;
         assigned = fst (Atoi (index_or '''' kv ''cluster_slots_assigned''));
         ns = parseNodes nodesRaw
     in State_Monad.bind (collectOpenSlots a ns) (\<lambda>open.
        retE \<lparr>Formed = (index_or '''' kv ''cluster_state'' \<noteq> '''' \<and> assigned > 0),
              SlotsCovered = (index_or '''' kv ''cluster_state'' = ''ok'' \<and> assigned = TotalSlots),
              OpenSlots = (length open > 0),
              Nodes = ns\<rparr>)))"

section \<open>Single commands\<close>

definition Admin_MyID :: "'w GoAdmin \<Rightarrow> Endpoint \<Rightarrow> ('w, string) ioE" where
  "Admin_MyID a ep = ClusterMyID (redis a) (dial ep)"

definition resolveHost :: "'w Redis \<Rightarrow> string \<Rightarrow> ('w, string) ioE" where
  "resolveHost R host =
     (if ParseIP host then retE host
      else bindE (LookupHost R host) (\<lambda>addrs. case addrs of
             [] \<Rightarrow> failE (Errorf (''no addresses for '' @ host) None)
           | ip # _ \<Rightarrow> retE ip))"

definition Admin_Meet :: "'w GoAdmin \<Rightarrow> Endpoint \<Rightarrow> Endpoint \<Rightarrow> ('w, unit) ioE" where
  "Admin_Meet a from target =
     bindE (wrapE (\<lambda>e. Errorf (''resolve '' @ epHost target) (Some e)) (resolveHost (redis a) (epHost target))) (\<lambda>ip.
     ClusterMeet (redis a) (dial from) ip (Itoa (epPort target)))"

definition Admin_AddSlots :: "'w GoAdmin \<Rightarrow> Endpoint \<Rightarrow> SlotRange list \<Rightarrow> ('w, unit) ioE" where
  "Admin_AddSlots a primary ranges =
     forE ranges (\<lambda>r. ClusterAddSlotsRange (redis a) (dial primary) (Start r) (End r))"

definition Admin_Replicate :: "'w GoAdmin \<Rightarrow> Endpoint \<Rightarrow> string \<Rightarrow> ('w, unit) ioE" where
  "Admin_Replicate a replica primaryID = ClusterReplicate (redis a) (dial replica) primaryID"

definition Admin_Forget :: "'w GoAdmin \<Rightarrow> Endpoint \<Rightarrow> string \<Rightarrow> ('w, unit) ioE" where
  "Admin_Forget a from nodeID = ClusterForget (redis a) (dial from) nodeID"

definition Admin_Failover :: "'w GoAdmin \<Rightarrow> Endpoint \<Rightarrow> ('w, unit) ioE" where
  "Admin_Failover a replica = ClusterFailover (redis a) (dial replica)"

section \<open>valkey-cli in a pod\<close>

definition migrateTimeoutMillis :: string where
  "migrateTimeoutMillis = ''10000''"

definition run_cli :: "'w GoAdmin \<Rightarrow> Endpoint \<Rightarrow> string list \<Rightarrow> ('w, unit) ioE" where
  "run_cli a seed args =
     State_Monad.bind (exec a (epNamespace seed) (epPodName seed) (container a) args) (\<lambda>(_, err). case err of
       None \<Rightarrow> retE () | Some e \<Rightarrow> failE e)"

definition rebalance_args :: "Endpoint \<Rightarrow> RebalanceOpts \<Rightarrow> string list" where
  "rebalance_args seed opts =
     [''valkey-cli'', ''--cluster'', ''rebalance'', ''127.0.0.1:'' @ Itoa (epPort seed), ''--cluster-yes'',
      ''--cluster-timeout'', migrateTimeoutMillis] @
     (if UseEmptyMasters opts then [''--cluster-use-empty-masters''] else []) @
     concat (map (\<lambda>i. [''--cluster-weight'', i @ ''=0'']) (WeightZeroIDs opts))"

definition Admin_Rebalance :: "'w GoAdmin \<Rightarrow> Endpoint \<Rightarrow> RebalanceOpts \<Rightarrow> ('w, unit) ioE" where
  "Admin_Rebalance a seed opts = run_cli a seed (rebalance_args seed opts)"

definition Admin_Reshard :: "'w GoAdmin \<Rightarrow> Endpoint \<Rightarrow> string \<Rightarrow> string \<Rightarrow> int \<Rightarrow> ('w, unit) ioE" where
  "Admin_Reshard a seed fromNodeID toNodeID n =
     (if n \<le> 0 then retE ()
      else
        let from = (if fromNodeID = '''' then ''all'' else fromNodeID) in
        run_cli a seed
          [''valkey-cli'', ''--cluster'', ''reshard'', ''127.0.0.1:'' @ Itoa (epPort seed),
           ''--cluster-from'', from, ''--cluster-to'', toNodeID,
           ''--cluster-slots'', Itoa n, ''--cluster-yes'', ''--cluster-timeout'', migrateTimeoutMillis])"

definition Admin_Fix :: "'w GoAdmin \<Rightarrow> Endpoint \<Rightarrow> ('w, unit) ioE" where
  "Admin_Fix a seed =
     run_cli a seed
       [''valkey-cli'', ''--cluster'', ''fix'', ''127.0.0.1:'' @ Itoa (epPort seed), ''--cluster-yes'',
        ''--cluster-timeout'', migrateTimeoutMillis]"

section \<open>Moving slots\<close>

text \<open>The loop over the nodes keeps the last one with the ID.\<close>

fun last_node :: "string \<Rightarrow> NodeInfo option \<Rightarrow> NodeInfo list \<Rightarrow> NodeInfo option" where
  "last_node i found [] = found"
| "last_node i found (n # ns) = last_node i (if ID n = i then Some n else found) ns"

function collect_range :: "int \<Rightarrow> int list \<Rightarrow> int \<Rightarrow> int \<Rightarrow> int list" where
  "collect_range n slots s e =
     (if s \<le> e \<and> int (length slots) < n then collect_range n (slots @ [s]) (s + 1) e else slots)"
  by pat_completeness auto
termination
  by (relation "measure (\<lambda>(n, slots, s, e). nat (e + 1 - s))") auto

declare collect_range.simps [simp del]

fun collect_slots :: "int \<Rightarrow> int list \<Rightarrow> SlotRange list \<Rightarrow> int list" where
  "collect_slots n slots [] = slots"
| "collect_slots n slots (r # rs) =
     (let slots' = collect_range n slots (Start r) (End r) in
      if int (length slots') \<ge> n then slots' else collect_slots n slots' rs)"

definition setslot :: "int \<Rightarrow> string \<Rightarrow> string \<Rightarrow> arg list" where
  "setslot s state i = [Str ''CLUSTER'', Str ''SETSLOT'', Num s, Str state, Str i]"

definition migrate_args :: "NodeInfo \<Rightarrow> string list \<Rightarrow> arg list" where
  "migrate_args to ks =
     [Str ''MIGRATE'', Str (IP to), Num (Port to), Str '''', Num 0, Num 5000, Str ''REPLACE'', Str ''KEYS''] @ map Str ks"

definition assignOwner :: "'w Redis \<Rightarrow> Options list \<Rightarrow> string \<Rightarrow> int \<Rightarrow> ('w, unit) ioE" where
  "assignOwner R masterCls toID s = forE masterCls (\<lambda>cl. Do R cl (setslot s ''NODE'' toID))"

text \<open>The loop that moves the keys of a slot, 128 at a time, until none is left.\<close>

fun migrate_keys :: "nat \<Rightarrow> 'w Redis \<Rightarrow> NodeInfo \<Rightarrow> NodeInfo \<Rightarrow> int \<Rightarrow> ('w, unit) ioE" where
  "migrate_keys 0 R from to s = failE OutOfFuel"
| "migrate_keys (Suc k) R from to s =
     bindE (wrapE (\<lambda>e. Errorf (''getkeysinslot '' @ Itoa s) (Some e)) (ClusterGetKeysInSlot R (clientFor from) s 128)) (\<lambda>ks.
     if ks = [] then retE ()
     else
       bindE (wrapE (\<lambda>e. Errorf (''migrate slot '' @ Itoa s) (Some e)) (Do R (clientFor from) (migrate_args to ks))) (\<lambda>_.
       migrate_keys k R from to s))"

definition move_slot :: "nat \<Rightarrow> 'w Redis \<Rightarrow> Options list \<Rightarrow> NodeInfo \<Rightarrow> NodeInfo \<Rightarrow> int \<Rightarrow> ('w, unit) ioE" where
  "move_slot k R masterCls from to s =
     bindE (wrapE (\<lambda>e. Errorf (''getkeysinslot '' @ Itoa s) (Some e)) (ClusterGetKeysInSlot R (clientFor from) s 1)) (\<lambda>probe.
     bindE
       (if length probe > 0 then
          bindE (wrapE (\<lambda>e. Errorf (''setslot importing '' @ Itoa s) (Some e))
                   (Do R (clientFor to) (setslot s ''IMPORTING'' (ID from)))) (\<lambda>_.
          bindE (wrapE (\<lambda>e. Errorf (''setslot migrating '' @ Itoa s) (Some e))
                   (Do R (clientFor from) (setslot s ''MIGRATING'' (ID to)))) (\<lambda>_.
          migrate_keys k R from to s))
        else retE ()) (\<lambda>_.
     wrapE (\<lambda>e. Errorf (''setslot node '' @ Itoa s) (Some e)) (assignOwner R masterCls (ID to) s)))"

fun move_slots :: "nat \<Rightarrow> 'w Redis \<Rightarrow> Options list \<Rightarrow> NodeInfo \<Rightarrow> NodeInfo \<Rightarrow> int \<Rightarrow> int list \<Rightarrow>
    ('w, int \<times> error option) io" where
  "move_slots k R masterCls from to moved [] = ret (moved, None)"
| "move_slots k R masterCls from to moved (s # ss) =
     State_Monad.bind (move_slot k R masterCls from to s) (\<lambda>res. case res of
       Inl e \<Rightarrow> ret (moved, Some e)
     | Inr _ \<Rightarrow> move_slots k R masterCls from to (moved + 1) ss)"

definition Admin_MoveSlots :: "'w GoAdmin \<Rightarrow> Endpoint \<Rightarrow> string \<Rightarrow> string \<Rightarrow> int \<Rightarrow> ('w, int \<times> error option) io" where
  "Admin_MoveSlots a seed fromNodeID toNodeID n =
     (if n \<le> 0 then ret (0, None)
      else State_Monad.bind (ClusterNodes (redis a) (dial seed)) (\<lambda>res. case res of
        Inl e \<Rightarrow> ret (0, Some e)
      | Inr nodesRaw \<Rightarrow>
          let ns = parseNodes nodesRaw in
          (case (last_node fromNodeID None ns, last_node toNodeID None ns) of
             (Some from, Some to) \<Rightarrow>
               move_slots (rounds a) (redis a) (map clientFor (filter IsPrimary ns)) from to 0
                 (collect_slots n [] (Slots from))
           | _ \<Rightarrow> ret (0, Some (Errorf ''move slots: from/to node not found'' None)))))"

section \<open>Repairing slots\<close>

fun ownerOf :: "NodeInfo list \<Rightarrow> int \<Rightarrow> NodeInfo option" where
  "ownerOf [] slot = None"
| "ownerOf (n # ns) slot =
     (if list_ex (\<lambda>r. slot \<ge> Start r \<and> slot \<le> End r) (Slots n) then Some n else ownerOf ns slot)"

definition migrate_strays :: "'w Redis \<Rightarrow> NodeInfo \<Rightarrow> int \<Rightarrow> NodeInfo \<Rightarrow> ('w, unit) ioE" where
  "migrate_strays R owner slot n =
     (if ID n = ID owner \<or> IP n = '''' \<or> \<not> IsPrimary n then retE ()
      else
        let cn = NewClient (IP n @ '':'' @ Itoa (Port n)) in
        State_Monad.bind (ClusterGetKeysInSlot R cn slot 1000) (\<lambda>res.
        forE (case res of Inl e \<Rightarrow> [] | Inr ks \<Rightarrow> ks) (\<lambda>k.
          ignoreE (Migrate R cn (IP owner) (Itoa (Port owner)) k 0 10000000000))))"

definition assert_owner :: "'w Redis \<Rightarrow> NodeInfo \<Rightarrow> int \<Rightarrow> NodeInfo \<Rightarrow> ('w, unit) ioE" where
  "assert_owner R owner slot n =
     (if \<not> IsPrimary n then retE ()
      else
        bindE (ignoreE (Do R (clientFor n) [Str ''CLUSTER'', Str ''SETSLOT'', Num slot, Str ''STABLE''])) (\<lambda>_.
        ignoreE (Do R (clientFor n) (setslot slot ''NODE'' (ID owner)))))"

fun repair_slots :: "'w Redis \<Rightarrow> NodeInfo list \<Rightarrow> int \<Rightarrow> int list \<Rightarrow> ('w, int \<times> error option) io" where
  "repair_slots R ns repaired [] = ret (repaired, None)"
| "repair_slots R ns repaired (slot # open) =
     (case ownerOf ns slot of
        None \<Rightarrow> repair_slots R ns repaired open
      | Some owner \<Rightarrow>
          if IP owner = '''' then repair_slots R ns repaired open
          else State_Monad.bind (forE ns (migrate_strays R owner slot)) (\<lambda>_.
               State_Monad.bind (forE ns (assert_owner R owner slot)) (\<lambda>_.
               repair_slots R ns (repaired + 1) open)))"

definition Admin_RepairSlots :: "'w GoAdmin \<Rightarrow> Endpoint \<Rightarrow> ('w, int \<times> error option) io" where
  "Admin_RepairSlots a seed =
     State_Monad.bind (ClusterNodes (redis a) (dial seed)) (\<lambda>res. case res of
       Inl e \<Rightarrow> ret (0, Some e)
     | Inr nodesRaw \<Rightarrow>
         let ns = parseNodes nodesRaw in
         State_Monad.bind (collectOpenSlots a ns) (\<lambda>open.
         if length open = 0 then ret (0, None) else repair_slots (redis a) ns 0 open))"

section \<open>The interface value\<close>

definition Admin_admin :: "'w GoAdmin \<Rightarrow> 'w ClusterAdmin" where
  "Admin_admin a =
     \<lparr>aState = Admin_State a, aMyID = Admin_MyID a, aMeet = Admin_Meet a, aAddSlots = Admin_AddSlots a,
      aReplicate = Admin_Replicate a, aForget = Admin_Forget a, aFailover = Admin_Failover a,
      aRebalance = Admin_Rebalance a, aReshard = Admin_Reshard a, aMoveSlots = Admin_MoveSlots a,
      aFix = Admin_Fix a, aRepairSlots = Admin_RepairSlots a\<rparr>"

end
