(* ===== verification/Slot_Moves.thy ===== *)
theory Slot_Moves
  imports Go_Redis
begin

text \<open>
  \<^verbatim>\<open>MoveSlots\<close> of the live admin against the documented behaviour of the commands it sends. Two
  observations of a world: the keys a node (by address) holds in a slot, and the node ID that
  a node's slot table gives for a slot. The laws allow every call to fail. The lemmas follow
  the nested loops from the inside out: a MIGRATE round, the key loop, a slot, all slots.
\<close>

section \<open>What the commands do\<close>

type_synonym holdings = "string \<Rightarrow> int \<Rightarrow> string set"
type_synonym tables = "string \<Rightarrow> int \<Rightarrow> string"

text \<open>
  From \<open>h\<close> to \<open>h'\<close>, keys of the slots \<open>S\<close> have moved from the node at \<open>fa\<close> to the node at
  \<open>ta\<close>, some perhaps being on both; none is lost and no other node is concerned.
\<close>

definition shifted :: "string \<Rightarrow> string \<Rightarrow> int set \<Rightarrow> holdings \<Rightarrow> holdings \<Rightarrow> bool" where
  "shifted fa ta S h h' \<longleftrightarrow>
     (\<forall>x t. t \<notin> S \<or> (x \<noteq> fa \<and> x \<noteq> ta) \<longrightarrow> h' x t = h x t) \<and>
     (\<forall>t. h' fa t \<union> h' ta t = h fa t \<union> h ta t) \<and> (\<forall>t. h' fa t \<subseteq> h fa t)"

text \<open>From \<open>T\<close> to \<open>T'\<close>, some tables have been changed to give node \<open>i\<close> for slots of \<open>S\<close>.\<close>

definition reassigned :: "int set \<Rightarrow> string \<Rightarrow> tables \<Rightarrow> tables \<Rightarrow> bool" where
  "reassigned S i T T' \<longleftrightarrow> (\<forall>x t. T' x t = T x t \<or> t \<in> S \<and> T' x t = i)"

text \<open>A node holds finitely many keys, and a key belongs to one slot, the one it hashes to.\<close>

definition keys_law :: "('w \<Rightarrow> holdings) \<Rightarrow> bool" where
  "keys_law held \<longleftrightarrow> (\<forall>w a s. finite (held w a s)) \<and> (\<forall>w a b s t. s \<noteq> t \<longrightarrow> held w a s \<inter> held w b t = {})"

text \<open>CLUSTER NODES and CLUSTER GETKEYSINSLOT only read; the latter finds a key where there is one.\<close>

definition nodes_law :: "'w Redis \<Rightarrow> ('w \<Rightarrow> holdings) \<Rightarrow> ('w \<Rightarrow> tables) \<Rightarrow> bool" where
  "nodes_law R held table \<longleftrightarrow>
     (\<forall>cl w r w'. run_state (ClusterNodes R cl) w = (r, w') \<longrightarrow>
        held w' = held w \<and> table w' = table w \<and> (\<forall>e. r = Inl e \<longrightarrow> \<not> is_abort e))"

definition getkeys_law :: "'w Redis \<Rightarrow> ('w \<Rightarrow> holdings) \<Rightarrow> ('w \<Rightarrow> tables) \<Rightarrow> bool" where
  "getkeys_law R held table \<longleftrightarrow>
     (\<forall>cl s c w r w'. run_state (ClusterGetKeysInSlot R cl s c) w = (r, w') \<longrightarrow>
        held w' = held w \<and> table w' = table w \<and> (\<forall>e. r = Inl e \<longrightarrow> \<not> is_abort e) \<and>
        (\<forall>ks. r = Inr ks \<longrightarrow> set ks \<subseteq> held w (oAddr cl) s \<and> (0 < c \<and> ks = [] \<longrightarrow> held w (oAddr cl) s = {})))"

text \<open>CLUSTER SETSLOT moves no key, and its NODE form changes the table of the node it is sent to.\<close>

definition setslot_law :: "'w Redis \<Rightarrow> ('w \<Rightarrow> holdings) \<Rightarrow> ('w \<Rightarrow> tables) \<Rightarrow> bool" where
  "setslot_law R held table \<longleftrightarrow>
     (\<forall>cl s st i w r w'. run_state (Do R cl [Str ''CLUSTER'', Str ''SETSLOT'', Num s, Str st, Str i]) w = (r, w') \<longrightarrow>
        held w' = held w \<and> (\<forall>e. r = Inl e \<longrightarrow> \<not> is_abort e) \<and>
        table w' = (if st = ''NODE'' \<and> r = Inr () then (table w)(oAddr cl := (table w (oAddr cl))(s := i))
                    else table w))"

text \<open>
  MIGRATE to another node with a list of keys touches only those keys; they end up on the
  source, the target or both, and after a success not on the source.
\<close>

definition migrate_law :: "'w Redis \<Rightarrow> ('w \<Rightarrow> holdings) \<Rightarrow> ('w \<Rightarrow> tables) \<Rightarrow> bool" where
  "migrate_law R held table \<longleftrightarrow>
     (\<forall>cl ip port ms ks w r w'.
        run_state (Do R cl ([Str ''MIGRATE'', Str ip, Num port, Str '''', Num 0, Num ms, Str ''REPLACE'', Str ''KEYS''] @ map Str ks)) w =
          (r, w') \<longrightarrow>
        oAddr cl \<noteq> ip @ '':'' @ Itoa port \<longrightarrow>
        table w' = table w \<and> (\<forall>e. r = Inl e \<longrightarrow> \<not> is_abort e) \<and>
        shifted (oAddr cl) (ip @ '':'' @ Itoa port) UNIV (held w) (held w') \<and>
        (\<forall>k x t. k \<notin> set ks \<longrightarrow> (k \<in> held w' x t \<longleftrightarrow> k \<in> held w x t)) \<and>
        (r = Inr () \<longrightarrow> (\<forall>t. held w' (oAddr cl) t \<inter> set ks = {})))"

definition valkey_laws :: "'w Redis \<Rightarrow> ('w \<Rightarrow> holdings) \<Rightarrow> ('w \<Rightarrow> tables) \<Rightarrow> bool" where
  "valkey_laws R held table \<longleftrightarrow>
     keys_law held \<and> nodes_law R held table \<and> getkeys_law R held table \<and> setslot_law R held table \<and>
     migrate_law R held table"

section \<open>Steps\<close>

lemma bindE_cases:
  assumes "run_state (bindE m f) w = (r, w')"
  obtains (Inl) e where "run_state m w = (Inl e, w')" "r = Inl e"
    | (Inr) x w1 where "run_state m w = (Inr x, w1)" "run_state (f x) w1 = (r, w')"
  using assms by (auto simp: run_bindE split: prod.splits sum.splits)

lemma wrapE_cases:
  assumes "run_state (wrapE h m) w = (r, w')"
  obtains (Inl) e where "run_state m w = (Inl e, w')" "r = Inl (h e)"
    | (Inr) x where "run_state m w = (Inr x, w')" "r = Inr x"
  using assms by (auto simp: run_wrapE split: prod.splits sum.splits)

lemma abort_Errorf [simp]: "\<not> is_abort (Errorf m e)"
  by (simp add: is_abort_def)

lemma shifted_refl [simp]: "shifted fa ta S h h"
  by (simp add: shifted_def)

lemma shifted_trans:
  assumes a: "shifted fa ta S h h'" and b: "shifted fa ta S' h' h''"
  shows "shifted fa ta (S \<union> S') h h''"
  unfolding shifted_def
proof (intro conjI allI impI)
  fix x t assume "t \<notin> S \<union> S' \<or> (x \<noteq> fa \<and> x \<noteq> ta)"
  then show "h'' x t = h x t" using a b by (auto simp: shifted_def)
next
  fix t show "h'' fa t \<union> h'' ta t = h fa t \<union> h ta t" using a b by (simp add: shifted_def)
  show "h'' fa t \<subseteq> h fa t" using a b by (meson shifted_def subset_trans)
qed

lemma shifted_mono: "shifted fa ta S h h' \<Longrightarrow> S \<subseteq> S' \<Longrightarrow> shifted fa ta S' h h'"
  unfolding shifted_def by blast

lemma reassigned_refl [simp]: "reassigned S i T T"
  by (simp add: reassigned_def)

lemma reassigned_trans: "reassigned S i T T' \<Longrightarrow> reassigned S' i T' T'' \<Longrightarrow> reassigned (S \<union> S') i T T''"
  unfolding reassigned_def by (metis UnCI)

lemma reassigned_mono: "reassigned S i T T' \<Longrightarrow> S \<subseteq> S' \<Longrightarrow> reassigned S' i T T'"
  unfolding reassigned_def by blast

lemma reassigned_stays: "reassigned S i T T' \<Longrightarrow> T x t = i \<Longrightarrow> T' x t = i"
  unfolding reassigned_def by metis

lemma clientFor_addr [simp]: "oAddr (clientFor n) = node_addr n"
  by (simp add: clientFor_def NewClient_def)

text \<open>A move between two nodes with different addresses, the target with a known IP.\<close>

definition moving :: "'w Redis \<Rightarrow> ('w \<Rightarrow> holdings) \<Rightarrow> ('w \<Rightarrow> tables) \<Rightarrow> NodeInfo \<Rightarrow> NodeInfo \<Rightarrow> bool" where
  "moving R held table from to \<longleftrightarrow>
     valkey_laws R held table \<and> IP to \<noteq> '''' \<and> node_addr from \<noteq> node_addr to"

lemma moving_laws:
  assumes "moving R held table from to"
  shows "keys_law held" "nodes_law R held table" "getkeys_law R held table" "setslot_law R held table"
    "migrate_law R held table" "IP to @ '':'' @ Itoa (Port to) = node_addr to" "node_addr from \<noteq> node_addr to"
  using assms unfolding moving_def valkey_laws_def by (blast | simp add: node_addr_def)+

lemma getkeysD:
  assumes "getkeys_law R held table" "run_state (ClusterGetKeysInSlot R cl s c) w = (r, w')"
  shows "held w' = held w" "table w' = table w" "r = Inl e \<Longrightarrow> \<not> is_abort e"
    "r = Inr ks \<Longrightarrow> set ks \<subseteq> held w (oAddr cl) s" "r = Inr [] \<Longrightarrow> 0 < c \<Longrightarrow> held w (oAddr cl) s = {}"
  using assms unfolding getkeys_law_def by blast+

lemma setslotD:
  assumes "setslot_law R held table" "run_state (Do R cl (setslot s st i)) w = (r, w')"
  shows "held w' = held w" "r = Inl e \<Longrightarrow> \<not> is_abort e"
    "table w' = (if st = ''NODE'' \<and> r = Inr () then (table w)(oAddr cl := (table w (oAddr cl))(s := i)) else table w)"
  using assms unfolding setslot_law_def setslot_def by blast+

lemma migrate_lawD:
  assumes "migrate_law R held table"
    and "run_state (Do R cl ([Str ''MIGRATE'', Str ip, Num port, Str '''', Num 0, Num ms, Str ''REPLACE'', Str ''KEYS''] @ map Str ks)) w =
      (r, w')"
    and "oAddr cl \<noteq> ip @ '':'' @ Itoa port"
  shows "table w' = table w \<and> (\<forall>e. r = Inl e \<longrightarrow> \<not> is_abort e) \<and>
    shifted (oAddr cl) (ip @ '':'' @ Itoa port) UNIV (held w) (held w') \<and>
    (\<forall>k x t. k \<notin> set ks \<longrightarrow> (k \<in> held w' x t \<longleftrightarrow> k \<in> held w x t)) \<and>
    (r = Inr () \<longrightarrow> (\<forall>t. held w' (oAddr cl) t \<inter> set ks = {}))"
  using assms(1) [unfolded migrate_law_def] assms(2,3) by (elim allE impE)

lemma migrateD:
  assumes mv: "moving R held table from to"
    and ks: "set ks \<subseteq> held w (node_addr from) s"
    and run: "run_state (Do R (clientFor from) (migrate_args to ks)) w = (r, w')"
  shows "table w' = table w" "r = Inl e \<Longrightarrow> \<not> is_abort e"
    "shifted (node_addr from) (node_addr to) {s} (held w) (held w')"
    "r = Inr () \<Longrightarrow> held w' (node_addr from) s \<inter> set ks = {}"
proof -
  let ?fa = "node_addr from" and ?ta = "node_addr to"
  have ne: "oAddr (clientFor from) \<noteq> IP to @ '':'' @ Itoa (Port to)"
    using moving_laws(7) [OF mv] unfolding clientFor_addr moving_laws(6) [OF mv] .
  have m: "table w' = table w \<and> (\<forall>e. r = Inl e \<longrightarrow> \<not> is_abort e) \<and> shifted ?fa ?ta UNIV (held w) (held w') \<and>
      (\<forall>k x t. k \<notin> set ks \<longrightarrow> (k \<in> held w' x t \<longleftrightarrow> k \<in> held w x t)) \<and> (r = Inr () \<longrightarrow> (\<forall>t. held w' ?fa t \<inter> set ks = {}))"
    using migrate_lawD [OF moving_laws(5) [OF mv] run [unfolded migrate_args_def] ne]
    unfolding clientFor_addr moving_laws(6) [OF mv] .
  then show "table w' = table w" "r = Inl e \<Longrightarrow> \<not> is_abort e" "r = Inr () \<Longrightarrow> held w' ?fa s \<inter> set ks = {}" by blast+
  have sh: "shifted ?fa ?ta UNIV (held w) (held w')" using m by blast
  have disj: "held v a t \<inter> held v b u = {}" if "t \<noteq> u" for v a b t u
    using moving_laws(1) [OF mv] that unfolding keys_law_def by blast
  have "held w' x t = held w x t" if "t \<noteq> s" for x t
  proof (rule set_eqI)
    fix k
    show "k \<in> held w' x t \<longleftrightarrow> k \<in> held w x t"
    proof (cases "k \<in> set ks")
      case True
      then have "k \<in> held w ?fa s" using ks by blast
      moreover from this have "k \<in> held w' ?fa s \<or> k \<in> held w' ?ta s" using sh by (auto simp: shifted_def)
      ultimately show ?thesis using disj [OF that] by blast
    qed (use m in blast)
  qed
  then show "shifted ?fa ?ta {s} (held w) (held w')" using sh by (auto simp: shifted_def)
qed

section \<open>The loops\<close>

lemma migrate_keys_run:
  assumes mv: "moving R held table from to"
    and "run_state (migrate_keys k R from to s) w = (r, w')"
  shows "table w' = table w \<and> shifted (node_addr from) (node_addr to) {s} (held w) (held w') \<and>
    (r = Inr () \<longrightarrow> held w' (node_addr from) s = {}) \<and>
    (card (held w (node_addr from) s) < k \<longrightarrow> (\<forall>e. r = Inl e \<longrightarrow> \<not> is_abort e))"
  using assms(2)
proof (induction k arbitrary: w)
  case (Suc k)
  let ?fa = "node_addr from"
  note gk = getkeysD [OF moving_laws(3) [OF mv], where cl = "clientFor from" and s = s and c = 128, unfolded clientFor_addr]
  from Suc.prems [unfolded migrate_keys.simps] show ?case
  proof (cases rule: bindE_cases)
    case (Inl e)
    from Inl(1) show ?thesis by (cases rule: wrapE_cases) (use gk Inl(2) in auto)
  next
    case (Inr ks w1)
    then have get: "run_state (ClusterGetKeysInSlot R (clientFor from) s 128) w = (Inr ks, w1)"
      by (auto elim: wrapE_cases)
    note g = gk(1,2) [OF get] gk(4) [OF get refl]
    show ?thesis
    proof (cases "ks = []")
      case True
      then show ?thesis using Inr(2) g gk(5) [of w _ w1] get by auto
    next
      case False
      with Inr(2) have "run_state (bindE (wrapE (\<lambda>e. Errorf (''migrate slot '' @ Itoa s) (Some e))
          (Do R (clientFor from) (migrate_args to ks))) (\<lambda>_. migrate_keys k R from to s)) w1 = (r, w')" by simp
      then show ?thesis
      proof (cases rule: bindE_cases)
        case (Inl e)
        from Inl(1) obtain e' where "run_state (Do R (clientFor from) (migrate_args to ks)) w1 = (Inl e', w')" "r = Inl (Errorf (''migrate slot '' @ Itoa s) (Some e'))"
          by (rule wrapE_cases) (use Inl(2) in auto)
        with migrateD [OF mv _ this(1)] g show ?thesis by auto
      next
        case (Inr u w2)
        then have "run_state (Do R (clientFor from) (migrate_args to ks)) w1 = (Inr (), w2)" by (auto elim: wrapE_cases)
        note d = migrateD [OF mv _ this, of s]
        have ih: "table w' = table w2" "shifted ?fa (node_addr to) {s} (held w2) (held w')" "r = Inr () \<Longrightarrow> held w' ?fa s = {}"
          "card (held w2 ?fa s) < k \<Longrightarrow> r = Inl e \<Longrightarrow> \<not> is_abort e" for e
          using Suc.IH [OF Inr(2)] by blast+
        have sh: "shifted ?fa (node_addr to) {s} (held w) (held w2)" using d(3) g by simp
        have "held w2 ?fa s \<subset> held w ?fa s"
          using sh d(4) g False by (auto simp: shifted_def) (metis disjoint_iff list.set_sel(1) subsetD)
        then have "card (held w2 ?fa s) < card (held w ?fa s)"
          using moving_laws(1) [OF mv] by (intro psubset_card_mono) (simp_all add: keys_law_def)
        then show ?thesis using ih shifted_trans [OF sh ih(2)] d(1) g by auto
      qed
    qed
  qed
qed auto

lemma assignOwner_run:
  assumes "setslot_law R held table" and "run_state (assignOwner R cls i s) w = (r, w')"
  shows "held w' = held w \<and> reassigned {s} i (table w) (table w') \<and> (\<forall>e. r = Inl e \<longrightarrow> \<not> is_abort e) \<and>
    (r = Inr () \<longrightarrow> (\<forall>cl \<in> set cls. table w' (oAddr cl) s = i))"
  using assms(2) unfolding assignOwner_def
proof (induction cls arbitrary: w)
  case (Cons cl cls)
  from Cons.prems [unfolded forE.simps] show ?case
  proof (cases rule: bindE_cases)
    case (Inl e)
    with setslotD [OF assms(1) Inl(1)] show ?thesis by auto
  next
    case (Inr u w1)
    have d: "held w1 = held w" "table w1 = (table w)(oAddr cl := (table w (oAddr cl))(s := i))"
      using setslotD [OF assms(1) Inr(1)] by simp_all
    have "reassigned {s} i (table w) (table w1)" "table w1 (oAddr cl) s = i" by (simp_all add: d reassigned_def)
    then show ?thesis
      using Cons.IH [OF Inr(2)] d(1) reassigned_trans [of "{s}" i _ _ "{s}"] reassigned_stays by fastforce
  qed
qed auto

text \<open>Before the ownership is assigned: the slot has been emptied on the source.\<close>

lemma empty_slot_run:
  assumes mv: "moving R held table from to"
    and "run_state (if length probe > 0 then
          bindE (wrapE (\<lambda>e. Errorf (''setslot importing '' @ Itoa s) (Some e))
                   (Do R (clientFor to) (setslot s ''IMPORTING'' (ID from)))) (\<lambda>_.
          bindE (wrapE (\<lambda>e. Errorf (''setslot migrating '' @ Itoa s) (Some e))
                   (Do R (clientFor from) (setslot s ''MIGRATING'' (ID to)))) (\<lambda>_.
          migrate_keys k R from to s))
        else retE ()) w = (r, w')"
    and probe: "probe = [] \<Longrightarrow> held w (node_addr from) s = {}"
  shows "table w' = table w \<and> shifted (node_addr from) (node_addr to) {s} (held w) (held w') \<and>
    (r = Inr () \<longrightarrow> held w' (node_addr from) s = {}) \<and>
    (card (held w (node_addr from) s) < k \<longrightarrow> (\<forall>e. r = Inl e \<longrightarrow> \<not> is_abort e))"
proof (cases "probe = []")
  case True
  with assms(2) probe show ?thesis by auto
next
  case False
  note mark = setslotD [OF moving_laws(4) [OF mv]]
  from assms(2) False have "run_state (bindE (wrapE (\<lambda>e. Errorf (''setslot importing '' @ Itoa s) (Some e))
                   (Do R (clientFor to) (setslot s ''IMPORTING'' (ID from)))) (\<lambda>_.
          bindE (wrapE (\<lambda>e. Errorf (''setslot migrating '' @ Itoa s) (Some e))
                   (Do R (clientFor from) (setslot s ''MIGRATING'' (ID to)))) (\<lambda>_.
          migrate_keys k R from to s))) w = (r, w')" by simp
  then show ?thesis
  proof (cases rule: bindE_cases)
    case (Inl e)
    from Inl(1) show ?thesis by (cases rule: wrapE_cases) (use mark Inl(2) in auto)
  next
    case (Inr u w1)
    then have "held w1 = held w" "table w1 = table w" by (auto elim!: wrapE_cases dest: mark)
    moreover from Inr(2) have "table w' = table w1 \<and> shifted (node_addr from) (node_addr to) {s} (held w1) (held w') \<and>
      (r = Inr () \<longrightarrow> held w' (node_addr from) s = {}) \<and>
      (card (held w1 (node_addr from) s) < k \<longrightarrow> (\<forall>e. r = Inl e \<longrightarrow> \<not> is_abort e))"
    proof (cases rule: bindE_cases)
      case (Inl e)
      from Inl(1) show ?thesis by (cases rule: wrapE_cases) (use mark Inl(2) in auto)
    next
      case (Inr u w2)
      then have "held w2 = held w1" "table w2 = table w1" by (auto elim!: wrapE_cases dest: mark)
      then show ?thesis using migrate_keys_run [OF mv Inr(2)] by simp
    qed
    ultimately show ?thesis by simp
  qed
qed

lemma move_slot_run:
  assumes mv: "moving R held table from to" and "run_state (move_slot k R cls from to s) w = (r, w')"
  shows "shifted (node_addr from) (node_addr to) {s} (held w) (held w') \<and>
    reassigned {s} (ID to) (table w) (table w') \<and>
    (r = Inr () \<longrightarrow> held w' (node_addr from) s = {} \<and> (\<forall>cl \<in> set cls. table w' (oAddr cl) s = ID to)) \<and>
    (card (held w (node_addr from) s) < k \<longrightarrow> (\<forall>e. r = Inl e \<longrightarrow> \<not> is_abort e))"
  using assms(2) [unfolded move_slot_def]
proof (cases rule: bindE_cases)
  case (Inl e)
  from Inl(1) show ?thesis
    by (cases rule: wrapE_cases) (use getkeysD [OF moving_laws(3) [OF mv]] Inl(2) in auto)
next
  case (Inr probe w1)
  then have get: "run_state (ClusterGetKeysInSlot R (clientFor from) s 1) w = (Inr probe, w1)" by (auto elim: wrapE_cases)
  note g = getkeysD [OF moving_laws(3) [OF mv] get]
  have empty: "probe = [] \<Longrightarrow> held w1 (node_addr from) s = {}" using g(1,5) by simp
  from Inr(2) show ?thesis
  proof (cases rule: bindE_cases)
    case (Inl e)
    from empty_slot_run [OF mv Inl(1) empty] Inl(2) g(1,2) show ?thesis by auto
  next
    case (Inr u w2)
    note e = empty_slot_run [OF mv Inr(1) empty]
    from Inr(2) obtain r' where "run_state (assignOwner R cls (ID to) s) w2 = (r', w')"
      and r: "r = Inr () \<Longrightarrow> r' = Inr ()" "r = Inl x \<Longrightarrow> \<not> is_abort x" for x
      by (cases rule: wrapE_cases) auto
    note a = assignOwner_run [OF moving_laws(4) [OF mv] this(1)]
    show ?thesis using a e g(1,2) r by auto
  qed
qed

lemma move_slots_run:
  assumes mv: "moving R held table from to"
    and "run_state (move_slots k R cls from to moved ss) w = ((m, err), w')"
  shows "moved \<le> m \<and> m \<le> moved + int (length ss) \<and> (err = None \<longleftrightarrow> m = moved + int (length ss)) \<and>
    shifted (node_addr from) (node_addr to) (set (take (Suc (nat (m - moved))) ss)) (held w) (held w') \<and>
    reassigned (set (take (Suc (nat (m - moved))) ss)) (ID to) (table w) (table w') \<and>
    (\<forall>s \<in> set (take (nat (m - moved)) ss).
       held w' (node_addr from) s = {} \<and> (\<forall>cl \<in> set cls. table w' (oAddr cl) s = ID to)) \<and>
    ((\<forall>s \<in> set ss. card (held w (node_addr from) s) < k) \<longrightarrow> (\<forall>e. err = Some e \<longrightarrow> \<not> is_abort e))"
  using assms(2)
proof (induction ss arbitrary: moved w)
  case (Cons s ss)
  let ?fa = "node_addr from"
  obtain r w1 where s: "run_state (move_slot k R cls from to s) w = (r, w1)" by fastforce
  note one = move_slot_run [OF mv s]
  show ?case
  proof (cases r)
    case (Inl e)
    with Cons.prems s have "m = moved" "err = Some e" "w' = w1" by auto
    with one Inl show ?thesis by auto
  next
    case (Inr u)
    with Cons.prems s have rest: "run_state (move_slots k R cls from to (moved + 1) ss) w1 = ((m, err), w')" by auto
    let ?j = "nat (m - (moved + 1))"
    note ih = Cons.IH [OF rest]
    have j: "nat (m - moved) = Suc ?j" using ih by linarith
    have sh: "shifted ?fa (node_addr to) (set (take (Suc ?j) ss)) (held w1) (held w')"
      and re: "reassigned (set (take (Suc ?j) ss)) (ID to) (table w1) (table w')" using ih by blast+
    have "held w' ?fa s \<subseteq> held w1 ?fa s" using sh by (simp add: shifted_def)
    then have here: "held w' ?fa s = {}" "\<forall>cl \<in> set cls. table w' (oAddr cl) s = ID to"
      using one Inr reassigned_stays [OF re] by auto
    have less: "card (held w1 ?fa t) \<le> card (held w ?fa t)" for t
      using one moving_laws(1) [OF mv] by (intro card_mono) (auto simp: keys_law_def shifted_def)
    have fuel: "\<forall>t \<in> set ss. card (held w1 ?fa t) < k" if "\<forall>t \<in> set (s # ss). card (held w ?fa t) < k"
      using that less by (meson le_less_trans list.set_intros(2))
    show ?thesis
      using ih here fuel one shifted_trans [OF conjunct1 [OF one] sh] reassigned_trans [OF conjunct1 [OF conjunct2 [OF one]] re]
      unfolding j by auto
  qed
qed auto

section \<open>The slots to move\<close>

definition slot_list :: "SlotRange list \<Rightarrow> int list" where
  "slot_list rs = concat (map (\<lambda>r. [Start r..End r]) rs)"

lemma collect_range_take: "collect_range n slots s e = slots @ take (nat (n - int (length slots))) [s..e]"
proof (induction n slots s e rule: collect_range.induct)
  case (1 n slots s e)
  show ?case
  proof (cases "s \<le> e \<and> int (length slots) < n")
    case True
    then have "nat (n - int (length slots)) = Suc (nat (n - int (length (slots @ [s]))))" by auto
    with 1 True show ?thesis by (simp add: collect_range.simps [of n slots] upto_rec1)
  next
    case False
    then have "[s..e] = [] \<or> nat (n - int (length slots)) = 0" by auto
    with False show ?thesis by (auto simp: collect_range.simps [of n slots])
  qed
qed

lemma collect_slots_take: "collect_slots n slots rs = slots @ take (nat (n - int (length slots))) (slot_list rs)"
proof (induction rs arbitrary: slots)
  case (Cons r rs)
  let ?k = "nat (n - int (length slots))"
  let ?new = "take ?k [Start r..End r]"
  have c: "collect_range n slots (Start r) (End r) = slots @ ?new" by (rule collect_range_take)
  show ?case
  proof (cases "int (length (slots @ ?new)) \<ge> n")
    case True
    then have "take ?k (slot_list (r # rs)) = ?new" by (auto simp: slot_list_def)
    with True c show ?thesis by simp
  next
    case False
    then have "length [Start r..End r] < ?k" by (auto simp: min_def split: if_splits)
    then have "?new = [Start r..End r]" and "nat (n - int (length (slots @ ?new))) = ?k - length [Start r..End r]" by auto
    with False c Cons show ?thesis by (simp add: slot_list_def del: length_upto)
  qed
qed (simp add: slot_list_def)

lemma collect_slots_eq: "collect_slots n [] rs = take (nat n) (slot_list rs)"
  by (simp add: collect_slots_take)

lemma length_slot_list: "\<forall>r \<in> set rs. Start r \<le> End r + 1 \<Longrightarrow> int (length (slot_list rs)) = sum_list (map range_count rs)"
  by (induction rs) (auto simp: slot_list_def range_count_def)

lemma set_slot_list: "set (slot_list rs) = ranges_slots rs"
  by (induction rs) (auto simp: slot_list_def range_slots_def)

lemma distinct_slot_list: "ranges_ok rs \<Longrightarrow> distinct (slot_list rs)"
  by (induction rs) (use set_slot_list in \<open>auto simp: slot_list_def range_slots_def\<close>)

section \<open>MoveSlots\<close>

text \<open>The nodes a move is between, as CLUSTER NODES at the seed gives them, and that it makes sense.\<close>

definition move_between :: "'w GoAdmin \<Rightarrow> Endpoint \<Rightarrow> string \<Rightarrow> string \<Rightarrow> 'w \<Rightarrow> NodeInfo list \<Rightarrow> NodeInfo \<Rightarrow> NodeInfo \<Rightarrow> bool" where
  "move_between a seed fromID toID w ns from to \<longleftrightarrow>
     (\<exists>raw w0. run_state (ClusterNodes (redis a) (dial seed)) w = (Inr raw, w0) \<and> parseNodes raw = ns) \<and>
     last_node fromID None ns = Some from \<and> last_node toID None ns = Some to \<and>
     IP to \<noteq> '''' \<and> node_addr from \<noteq> node_addr to"

lemma last_node_ID: "last_node i found ns = Some n \<Longrightarrow> (\<forall>m. found = Some m \<longrightarrow> ID m = i) \<Longrightarrow> ID n = i"
  by (induction ns arbitrary: found) (auto split: if_splits)

lemma MoveSlots_enters:
  assumes "valkey_laws (redis a) held table" "0 < n" "move_between a seed fromID toID w ns from to"
    and "run_state (Admin_MoveSlots a seed fromID toID n) w = (out, w')"
  obtains w0 where "held w0 = held w" "table w0 = table w" "moving (redis a) held table from to" "ID to = toID"
    "run_state (move_slots (rounds a) (redis a) (map clientFor (filter IsPrimary ns)) from to 0
       (take (nat n) (slot_list (Slots from)))) w0 = (out, w')"
proof -
  obtain raw w0 where raw: "run_state (ClusterNodes (redis a) (dial seed)) w = (Inr raw, w0)" "parseNodes raw = ns"
    and b: "last_node fromID None ns = Some from" "last_node toID None ns = Some to" "IP to \<noteq> ''''" "node_addr from \<noteq> node_addr to"
    using assms(3) by (auto simp: move_between_def)
  have "held w0 = held w" "table w0 = table w"
    using assms(1) raw(1) unfolding valkey_laws_def nodes_law_def by blast+
  moreover have "moving (redis a) held table from to" using assms(1) b by (simp add: moving_def)
  moreover have "ID to = toID" using last_node_ID [OF b(2)] by simp
  moreover have "run_state (move_slots (rounds a) (redis a) (map clientFor (filter IsPrimary ns)) from to 0
       (take (nat n) (slot_list (Slots from)))) w0 = (out, w')"
    using assms(2,4) raw b(1,2) by (simp add: Admin_MoveSlots_def collect_slots_eq)
  ultimately show thesis by (rule that)
qed

end
