(* ===== verification/Valkey_Net.thy ===== *)
theory Valkey_Net
  imports Slot_Moves
begin

text \<open>
  A small network of Valkey nodes, each with its keys and its slot table, that obeys the laws of
  \<open>Slot_Moves\<close>. It shows that the laws can hold together and is where the properties of the live
  admin are tried on concrete clusters.
\<close>

record Net =
  netKeys :: "string \<Rightarrow> string list"
  netTable :: "string \<Rightarrow> int \<Rightarrow> string"
  netInfo :: string
  netNodes :: "string \<Rightarrow> error + string"

text \<open>The slot of a key: any fixed function of the key will do.\<close>

definition net_slot :: "string \<Rightarrow> int" where
  "net_slot k = int (length k) mod TotalSlots"

definition net_held :: "Net \<Rightarrow> holdings" where
  "net_held w a s = {k \<in> set (netKeys w a). net_slot k = s}"

definition net_migrate :: "string \<Rightarrow> string \<Rightarrow> string list \<Rightarrow> Net \<Rightarrow> Net" where
  "net_migrate a b ks w =
     w\<lparr>netKeys := (netKeys w)(a := filter (\<lambda>k. k \<notin> set ks) (netKeys w a),
                              b := netKeys w b @ filter (\<lambda>k. k \<in> set ks) (netKeys w a))\<rparr>"

definition arg_str :: "arg \<Rightarrow> string" where
  "arg_str x = (case x of Str s \<Rightarrow> s | Num _ \<Rightarrow> '''')"

definition net_do :: "Options \<Rightarrow> arg list \<Rightarrow> Net \<Rightarrow> (error + unit) \<times> Net" where
  "net_do cl args w =
     (case args of
        [Str _, Str _, Num s, Str st, Str i] \<Rightarrow>
          (Inr (), if st = ''NODE'' then w\<lparr>netTable := (netTable w)(oAddr cl := (netTable w (oAddr cl))(s := i))\<rparr> else w)
      | Str _ # Str ip # Num port # _ # _ # _ # _ # _ # ks \<Rightarrow>
          (if oAddr cl = ip @ '':'' @ Itoa port then (Inl (Extern ''ERR''), w)
           else (Inr (), net_migrate (oAddr cl) (ip @ '':'' @ Itoa port) (map arg_str ks) w))
      | [Str _, Str _, Num s, Str _] \<Rightarrow> (Inr (), w)
      | _ \<Rightarrow> (Inl (Extern ''ERR''), w))"

definition net_redis :: "Net Redis" where
  "net_redis =
     \<lparr>ClusterInfo = (\<lambda>cl. State (\<lambda>w. (Inr (netInfo w), w))),
      ClusterNodes = (\<lambda>cl. State (\<lambda>w. (map_sum (\<lambda>_. Extern ''connection refused'') id (netNodes w (oAddr cl)), w))),
      ClusterMyID = (\<lambda>cl. retE (oAddr cl)),
      ClusterMeet = (\<lambda>cl ip port. retE ()),
      ClusterAddSlotsRange = (\<lambda>cl s e. retE ()),
      ClusterReplicate = (\<lambda>cl i. retE ()),
      ClusterForget = (\<lambda>cl i. retE ()),
      ClusterFailover = (\<lambda>cl. retE ()),
      ClusterGetKeysInSlot = (\<lambda>cl s c. State (\<lambda>w. (Inr (take (nat c) (filter (\<lambda>k. net_slot k = s) (netKeys w (oAddr cl)))), w))),
      Migrate = (\<lambda>cl ip port k db timeout. State (\<lambda>w. (Inr (), net_migrate (oAddr cl) (ip @ '':'' @ port) [k] w))),
      Do = (\<lambda>cl args. State (net_do cl args)),
      LookupHost = (\<lambda>h. retE [''10.0.0.9''])\<rparr>"

lemma net_redis_simps [simp]:
  "run_state (ClusterInfo net_redis cl) w = (Inr (netInfo w), w)"
  "run_state (ClusterNodes net_redis cl) w = (map_sum (\<lambda>_. Extern ''connection refused'') id (netNodes w (oAddr cl)), w)"
  "run_state (ClusterGetKeysInSlot net_redis cl s c) w =
     (Inr (take (nat c) (filter (\<lambda>k. net_slot k = s) (netKeys w (oAddr cl)))), w)"
  "run_state (Do net_redis cl args) w = net_do cl args w"
  "run_state (LookupHost net_redis h) w = (Inr [''10.0.0.9''], w)"
  "run_state (ClusterMeet net_redis cl ip port) w = (Inr (), w)"
  by (simp_all add: net_redis_def)

lemma net_setslot: "net_do cl (setslot s st i) w =
    (Inr (), if st = ''NODE'' then w\<lparr>netTable := (netTable w)(oAddr cl := (netTable w (oAddr cl))(s := i))\<rparr> else w)"
  by (simp add: net_do_def setslot_def)

lemma arg_str_Str: "map arg_str (map Str ks) = ks"
  by (induction ks) (simp_all add: arg_str_def)

lemma net_do_migrate:
  "net_do cl ([Str ''MIGRATE'', Str ip, Num port, Str '''', Num 0, Num ms, Str ''REPLACE'', Str ''KEYS''] @ map Str ks) w =
    (if oAddr cl = ip @ '':'' @ Itoa port then (Inl (Extern ''ERR''), w)
     else (Inr (), net_migrate (oAddr cl) (ip @ '':'' @ Itoa port) ks w))"
  by (simp add: net_do_def arg_str_Str del: map_map)

lemma Extern_ok [simp]: "\<not> is_abort (Extern e)"
  by (simp add: is_abort_def)

lemma net_migrate_shifted:
  assumes "a \<noteq> b"
  shows "shifted a b UNIV (net_held w) (net_held (net_migrate a b ks w))"
proof -
  have a: "net_held (net_migrate a b ks w) a t = net_held w a t - set ks" for t
    using assms unfolding net_held_def net_migrate_def by (simp, blast)
  have b: "net_held (net_migrate a b ks w) b t = net_held w b t \<union> (net_held w a t \<inter> set ks)" for t
    unfolding net_held_def net_migrate_def by (simp, blast)
  have "net_held (net_migrate a b ks w) x t = net_held w x t" if "x \<noteq> a" "x \<noteq> b" for x t
    using that by (simp add: net_held_def net_migrate_def)
  then show ?thesis unfolding shifted_def a b by blast
qed

lemma net_migrate_held:
  assumes "a \<noteq> b"
  shows "k \<notin> set ks \<Longrightarrow> k \<in> net_held (net_migrate a b ks w) x t \<longleftrightarrow> k \<in> net_held w x t"
    and "net_held (net_migrate a b ks w) a t \<inter> set ks = {}"
    and "netTable (net_migrate a b ks w) = netTable w"
  using assms unfolding net_held_def net_migrate_def by (simp, simp, blast, simp)

lemma net_laws: "valkey_laws net_redis net_held netTable"
  unfolding valkey_laws_def
proof (intro conjI)
  show "keys_law net_held" by (auto simp: keys_law_def net_held_def)
  show "nodes_law net_redis net_held netTable"
    unfolding nodes_law_def
  proof (intro allI impI)
    fix cl w r w' assume run: "run_state (ClusterNodes net_redis cl) w = (r, w')"
    then show "net_held w' = net_held w \<and> netTable w' = netTable w \<and> (\<forall>e. r = Inl e \<longrightarrow> \<not> is_abort e)"
      by (cases "netNodes w (oAddr cl)") auto
  qed
  show "getkeys_law net_redis net_held netTable"
    unfolding getkeys_law_def
  proof (intro allI impI)
    fix cl s c w r w' assume run: "run_state (ClusterGetKeysInSlot net_redis cl s c) w = (r, w')"
    let ?ks = "filter (\<lambda>k. net_slot k = s) (netKeys w (oAddr cl))"
    have held: "net_held w (oAddr cl) s = set ?ks" by (auto simp: net_held_def)
    have r: "r = Inr (take (nat c) ?ks)" "w' = w" using run by auto
    have "set (take (nat c) ?ks) \<subseteq> set ?ks" by (rule set_take_subset)
    moreover have "set ?ks = {}" if "0 < c" "take (nat c) ?ks = []" using that by (simp only: take_eq_Nil set_empty zero_less_nat_eq) auto
    ultimately show "net_held w' = net_held w \<and> netTable w' = netTable w \<and> (\<forall>e. r = Inl e \<longrightarrow> \<not> is_abort e) \<and>
        (\<forall>ks. r = Inr ks \<longrightarrow> set ks \<subseteq> net_held w (oAddr cl) s \<and> (0 < c \<and> ks = [] \<longrightarrow> net_held w (oAddr cl) s = {}))"
      unfolding r held by blast
  qed
  show "setslot_law net_redis net_held netTable"
    unfolding setslot_law_def
  proof (intro allI impI)
    fix cl s st i w r w' assume "run_state (Do net_redis cl [Str ''CLUSTER'', Str ''SETSLOT'', Num s, Str st, Str i]) w = (r, w')"
    then have r: "r = Inr ()"
      "w' = (if st = ''NODE'' then w\<lparr>netTable := (netTable w)(oAddr cl := (netTable w (oAddr cl))(s := i))\<rparr> else w)"
      by (simp_all add: net_setslot [unfolded setslot_def])
    show "net_held w' = net_held w \<and> (\<forall>e. r = Inl e \<longrightarrow> \<not> is_abort e) \<and>
        netTable w' = (if st = ''NODE'' \<and> r = Inr () then (netTable w)(oAddr cl := (netTable w (oAddr cl))(s := i)) else netTable w)"
      unfolding r by (cases "st = ''NODE''") (simp_all add: net_held_def fun_eq_iff)
  qed
  show "migrate_law net_redis net_held netTable"
    unfolding migrate_law_def
  proof (intro allI impI)
    fix cl :: Options and ip port ms ks w r w'
    let ?a = "oAddr cl" and ?b = "ip @ '':'' @ Itoa port"
    assume run: "run_state (Do net_redis cl ([Str ''MIGRATE'', Str ip, Num port, Str '''', Num 0, Num ms, Str ''REPLACE'', Str ''KEYS''] @ map Str ks)) w =
        (r, w')" and ne: "?a \<noteq> ?b"
    then have r: "r = Inr ()" "w' = net_migrate ?a ?b ks w"
      using net_do_migrate [of cl ip port ms ks w] by (simp_all only: net_redis_simps if_False prod.inject)
    show "netTable w' = netTable w \<and> (\<forall>e. r = Inl e \<longrightarrow> \<not> is_abort e) \<and> shifted ?a ?b UNIV (net_held w) (net_held w') \<and>
        (\<forall>k x t. k \<notin> set ks \<longrightarrow> (k \<in> net_held w' x t \<longleftrightarrow> k \<in> net_held w x t)) \<and>
        (r = Inr () \<longrightarrow> (\<forall>t. net_held w' ?a t \<inter> set ks = {}))"
      unfolding r using net_migrate_shifted [OF ne, of w ks] net_migrate_held [OF ne] by blast
  qed
qed

text \<open>Two nodes, the first owning slots 0 to 9 and holding a few keys.\<close>

definition listing0 :: string where
  "listing0 = ''n0 10.0.0.1:6379@16379,h0 myself,master - 0 0 1 connected 0-9'' @ [newline] @
               ''n1 10.0.0.2:6379@16379,h1 master - 0 0 2 connected''"

definition net0 :: Net where
  "net0 = \<lparr>netKeys = (\<lambda>a. if a = ''10.0.0.1:6379'' then [''a'', ''b'', ''cc'', ''ddd''] else []),
           netTable = (\<lambda>a s. if 0 \<le> s \<and> s \<le> 9 then ''n0'' else ''''),
           netInfo = ''cluster_state:fail'' @ [newline] @ ''cluster_slots_assigned:10'',
           netNodes = (\<lambda>a. Inr listing0)\<rparr>"

definition seed0 :: Endpoint where
  "seed0 = \<lparr>epHost = ''h0'', epPort = 6379, epPodName = ''p0'', epNamespace = ''ns''\<rparr>"

definition admin0 :: "Net GoAdmin" where
  "admin0 = \<lparr>redis = net_redis, exec = (\<lambda>_ _ _ _. ret ('''', None)), container = ''valkey'', visit = ret, rounds = 5\<rparr>"

definition node0 :: NodeInfo where
  "node0 = \<lparr>ID = ''n0'', Host = ''h0'', IP = ''10.0.0.1'', Port = 6379, Flags = [''myself'', ''master''],
     MasterID = '''', Slots = [\<lparr>Start = 0, End = 9\<rparr>], Connected = True\<rparr>"

definition node1 :: NodeInfo where
  "node1 = \<lparr>ID = ''n1'', Host = ''h1'', IP = ''10.0.0.2'', Port = 6379, Flags = [''master''],
     MasterID = '''', Slots = [], Connected = True\<rparr>"

lemma listing0_parse: "parseNodes listing0 = [node0, node1]"
  by code_simp

lemma addrs: "node_addr node0 = ''10.0.0.1:6379''" "node_addr node1 = ''10.0.0.2:6379''"
  by code_simp+

lemma between0: "move_between admin0 seed0 ''n0'' ''n1'' net0 [node0, node1] node0 node1"
proof -
  have "netNodes net0 x = Inr listing0" "redis admin0 = net_redis" for x by (simp_all add: net0_def admin0_def)
  then show ?thesis
    using listing0_parse addrs by (simp add: move_between_def) (simp add: node0_def node1_def)
qed

end
