(* ===== verification/Live_State.thy ===== *)
theory Live_State
  imports Valkey_Net Kube_Client
begin

text \<open>
  Observation and membership commands of the live admin: CLUSTER INFO is read back, \<^verbatim>\<open>State\<close>
  reports exactly what the nodes answer, and CLUSTER MEET is sent an IP address.
\<close>

section \<open>CLUSTER INFO\<close>

abbreviation carriage :: char where
  "carriage \<equiv> CHR 0x0D"

text \<open>The documented reply: one \<^verbatim>\<open>field:value\<close> per line, lines ended by CR LF.\<close>

definition render_info :: "(string \<times> string) list \<Rightarrow> string" where
  "render_info kvs = concat (map (\<lambda>(k, v). k @ '':'' @ v @ [carriage, newline]) kvs)"

definition info_ok :: "string \<times> string \<Rightarrow> bool" where
  "info_ok kv \<longleftrightarrow> CHR '':'' \<notin> set (fst kv) \<and> (\<forall>c \<in> set (fst kv) \<union> set (snd kv). \<not> is_space c)"

lemma TrimSpace_line:
  assumes "\<forall>c \<in> set s. \<not> is_space c" "s \<noteq> []"
  shows "TrimSpace (s @ [carriage]) = s"
proof -
  have cr: "is_space carriage" by (simp add: is_space_def byte_def)
  have "dropWhile is_space (s @ [carriage]) = s @ [carriage]" using assms by (cases s) simp_all
  moreover have "dropWhile is_space (rev s) = rev s" using assms by (cases "rev s") auto
  ultimately show ?thesis using cr by (simp add: TrimSpace_def)
qed

lemma Split_render_info:
  assumes "\<forall>kv \<in> set kvs. info_ok kv"
  shows "Split newline (render_info kvs) = map (\<lambda>(k, v). k @ '':'' @ v @ [carriage]) kvs @ [[]]"
  using assms
proof (induction kvs)
  case (Cons kv kvs)
  obtain k v where kv: "kv = (k, v)" by fastforce
  have "newline \<notin> set (k @ '':'' @ v @ [carriage])"
    using Cons.prems is_space_chars(2) by (auto simp: kv info_ok_def)
  from Split_append_sep [OF this] Cons show ?case by (simp add: render_info_def kv)
qed (simp add: render_info_def)

lemma parse_info_render:
  assumes "\<forall>kv \<in> set kvs. info_ok kv"
  shows "map_of (parse_info_lines out (map (\<lambda>(k, v). k @ '':'' @ v @ [carriage]) kvs @ [[]])) = map_of out ++ map_of (rev kvs)"
  using assms
proof (induction kvs arbitrary: out)
  case Nil
  show ?case by (simp add: TrimSpace_def)
next
  case (Cons kv kvs)
  obtain k v where kv: "kv = (k, v)" by fastforce
  have ok: "CHR '':'' \<notin> set k" "\<forall>c \<in> set k \<union> set v. \<not> is_space c" using Cons.prems by (simp_all add: kv info_ok_def)
  have "\<not> is_space CHR '':''" by (simp add: is_space_def byte_def)
  then have "TrimSpace ((k @ '':'' @ v) @ [carriage]) = k @ '':'' @ v" using ok(2) by (intro TrimSpace_line) auto
  then have "Cut CHR '':'' (TrimSpace (k @ '':'' @ v @ [carriage])) = (k, v, True)" using Cut_append_sep [OF ok(1), of v] by simp
  with Cons show ?case by (simp add: kv map_add_upd_left [symmetric])
qed

lemma parseInfo_render:
  assumes "\<forall>kv \<in> set kvs. info_ok kv" and "distinct (map fst kvs)"
  shows "map_of (parseInfo (render_info kvs)) = map_of kvs"
proof -
  have "map_of (rev kvs) = map_of kvs" using assms(2) by (subst map_of_inject_set) (simp_all add: rev_map [symmetric])
  then show ?thesis
    using parse_info_render [OF assms(1), of "[]"] by (simp add: parseInfo_def Split_render_info [OF assms(1)])
qed

section \<open>Open slots of all nodes\<close>

text \<open>
  A quiet network: CLUSTER NODES sent to an address gives \<open>ans\<close> of it and changes nothing, and the
  order in which Go visits a set is some order of it.
\<close>

definition quiet :: "'w GoAdmin \<Rightarrow> 'w \<Rightarrow> (string \<Rightarrow> error + string) \<Rightarrow> bool" where
  "quiet a w ans \<longleftrightarrow>
     (\<forall>cl. run_state (ClusterNodes (redis a) cl) w = (ans (oAddr cl), w)) \<and>
     (\<forall>xs. \<exists>ys. run_state (visit a xs) w = (ys, w) \<and> distinct ys = distinct xs \<and> set ys = set xs)"

text \<open>The slots that a node which can be reached marks as migrating or importing.\<close>

definition open_slots :: "(string \<Rightarrow> error + string) \<Rightarrow> NodeInfo list \<Rightarrow> int set" where
  "open_slots ans ns =
     {s. \<exists>n \<in> set ns. \<not> unreachable n \<and> (\<exists>raw. ans (node_addr n) = Inr raw \<and> s \<in> set (parseOpenSlots raw))}"

lemma sweep_addr [simp]: "oAddr (sweep_client n) = node_addr n"
  by (simp add: sweep_client_def)

lemma add_seen_set [simp]: "set (add_seen seen ss) = set seen \<union> set ss"
  by (auto simp: add_seen_def)

lemma add_seen_distinct: "distinct seen \<Longrightarrow> distinct ss \<Longrightarrow> distinct (add_seen seen ss)"
  by (auto simp: add_seen_def)

lemma parseOpenSlots_distinct: "distinct (parseOpenSlots raw)"
  by (simp add: parseOpenSlots_def open_slot_tokens_distinct)

lemma open_slots_Cons:
  "open_slots ans (n # ns) =
     (if unreachable n then {} else case ans (node_addr n) of Inl e \<Rightarrow> {} | Inr raw \<Rightarrow> set (parseOpenSlots raw)) \<union> open_slots ans ns"
  by (auto simp: open_slots_def split: sum.splits)

lemma collect_open_run:
  assumes "\<And>cl. run_state (ClusterNodes R cl) w = (ans (oAddr cl), w)" and "distinct seen"
  shows "\<exists>ss. run_state (collect_open R seen ns) w = (ss, w) \<and> distinct ss \<and> set ss = set seen \<union> open_slots ans ns"
  using assms(2)
proof (induction ns arbitrary: seen)
  case Nil
  then show ?case by (simp add: open_slots_def)
next
  case (Cons n ns)
  consider "unreachable n" | e where "\<not> unreachable n" "ans (node_addr n) = Inl e"
    | raw where "\<not> unreachable n" "ans (node_addr n) = Inr raw" by (meson sum.exhaust)
  then show ?case
  proof cases
    case (3 raw)
    then show ?thesis
      using Cons.IH [OF add_seen_distinct [OF Cons.prems parseOpenSlots_distinct [of raw]]] assms(1)
      by (auto simp: open_slots_Cons)
  qed (use Cons assms(1) in \<open>auto simp: open_slots_Cons\<close>)
qed

lemma collectOpenSlots_run:
  assumes "quiet a w ans"
  obtains ss where "run_state (collectOpenSlots a ns) w = (ss, w)" "distinct ss" "set ss = open_slots ans ns"
proof -
  obtain ss where s: "run_state (collect_open (redis a) [] ns) w = (ss, w)" "distinct ss" "set ss = open_slots ans ns"
    using collect_open_run [of "redis a" w ans "[]" ns] assms by (auto simp: quiet_def)
  obtain ys where "run_state (visit a ss) w = (ys, w)" "distinct ys = distinct ss" "set ys = set ss"
    using assms unfolding quiet_def by blast
  with s that show thesis by (simp add: collectOpenSlots_def)
qed

section \<open>Properties\<close>

text \<open>
  Claim C16. Observing the live cluster is exact: from CLUSTER INFO and CLUSTER NODES in their
  documented formats \<^verbatim>\<open>State\<close> returns the nodes as printed. The cluster counts as formed when it has a state
  and some slot is assigned, as covered when the state is ok and all 16384 slots are assigned,
  and as having open slots exactly when some node that can be reached reports a migration
  marker, whether or not the node asked first knows of it.
\<close>

theorem State_observes:
  assumes quiet: "quiet a w ans"
    and info: "run_state (ClusterInfo (redis a) (dial ep)) w = (Inr (render_info kvs), w)"
      "\<forall>kv \<in> set kvs. info_ok kv" "distinct (map fst kvs)"
    and fields: "map_of kvs ''cluster_state'' = Some st" "map_of kvs ''cluster_slots_assigned'' = Some (Itoa k)"
      "0 \<le> k" "k < 2 ^ 63"
    and listing: "ans (Addr ep) = Inr (render_nodes nxs)" "nxs \<noteq> []" "\<forall>(n, x) \<in> set nxs. line_ok n x"
  shows "run_state (Admin_State a ep) w =
    (Inr \<lparr>Formed = (st \<noteq> '''' \<and> 0 < k), SlotsCovered = (st = ''ok'' \<and> k = 16384),
          OpenSlots = (open_slots ans (map fst nxs) \<noteq> {}), Nodes = map fst nxs\<rparr>, w)"
proof -
  have kv: "map_of (parseInfo (render_info kvs)) = map_of kvs" using info(2,3) by (rule parseInfo_render)
  have st: "index_or '''' (parseInfo (render_info kvs)) ''cluster_state'' = st"
    and k: "fst (Atoi (index_or '''' (parseInfo (render_info kvs)) ''cluster_slots_assigned'')) = k"
    using fields by (simp_all only: index_or_def kv option.case) (simp add: Atoi_Itoa)
  have ns: "parseNodes (render_nodes nxs) = map fst nxs" using listing(2,3) by (rule parseNodes_render)
  have nodes: "run_state (ClusterNodes (redis a) (dial ep)) w = (Inr (render_nodes nxs), w)"
    using quiet listing(1) by (simp add: quiet_def dial_def NewClient_def)
  obtain ss where ss: "run_state (collectOpenSlots a (map fst nxs)) w = (ss, w)" "set ss = open_slots ans (map fst nxs)"
    using collectOpenSlots_run [OF quiet] by blast
  have "length ss > 0 \<longleftrightarrow> open_slots ans (map fst nxs) \<noteq> {}" using ss(2) by auto
  then show ?thesis
    unfolding Admin_State_def run_bindE run_wrapE info(1)
    by (simp only: nodes prod.case sum.case Let_def ns run_state_bind ss(1) run_retE st k TotalSlots_def)
qed

text \<open>The second node is importing a slot, which only its own CLUSTER NODES shows.\<close>

definition extra :: "string \<Rightarrow> string list \<Rightarrow> line_extra" where
  "extra epoch ms = \<lparr>xCport = ''16379'', xPing = ''0'', xPong = ''0'', xEpoch = epoch, xMarkers = ms\<rparr>"

definition net1 :: Net where
  "net1 = net0\<lparr>netInfo := ''cluster_state:fail'' @ [carriage, newline] @ ''cluster_slots_assigned:10'' @ [carriage, newline],
     netNodes := (\<lambda>a. if a = ''10.0.0.2:6379'' then Inr (listing0 @ '' [3-<-n0]'') else Inr listing0)\<rparr>"

lemma net1_quiet: "quiet admin0 net1 (netNodes net1)"
proof -
  have "redis admin0 = net_redis" "visit admin0 = ret" by (simp_all add: admin0_def)
  moreover have "map_sum (\<lambda>_. Extern ''connection refused'') id (netNodes net1 x) = netNodes net1 x" for x
    by (simp add: net1_def)
  ultimately show ?thesis by (simp add: quiet_def)
qed

theorem State_observes_witness:
  "run_state (Admin_State admin0 seed0) net1 =
     (Inr \<lparr>Formed = True, SlotsCovered = False, OpenSlots = True, Nodes = [node0, node1]\<rparr>, net1)"
proof -
  let ?kvs = "[(''cluster_state'', ''fail''), (''cluster_slots_assigned'', Itoa 10)]"
  let ?nxs = "[(node0, extra ''1'' []), (node1, extra ''2'' [])]"
  have calls: "redis admin0 = net_redis" by (simp add: admin0_def)
  have info: "run_state (ClusterInfo (redis admin0) (dial seed0)) net1 = (Inr (render_info ?kvs), net1)"
  proof -
    have "netInfo net1 = render_info ?kvs" by code_simp
    then show ?thesis by (simp only: calls net_redis_simps)
  qed
  have info_ok: "\<forall>kv \<in> set ?kvs. info_ok kv" by code_simp
  have listing: "netNodes net1 (Addr seed0) = Inr (render_nodes ?nxs)" by code_simp
  have lines: "\<forall>(n, x) \<in> set ?nxs. line_ok n x" by code_simp
  have "netNodes net1 (node_addr node1) = Inr (listing0 @ '' [3-<-n0]'')" "parseOpenSlots (listing0 @ '' [3-<-n0]'') = [3]"
    "\<not> unreachable node1" by code_simp+
  then have "3 \<in> open_slots (netNodes net1) (map fst ?nxs)" unfolding open_slots_def by auto
  then show ?thesis
    using State_observes [OF net1_quiet info info_ok _ _ _ _ _ listing _ lines] by auto
qed

text \<open>
  Claim C33. CLUSTER MEET is given an address, never a name: for a pod of the cluster \<^verbatim>\<open>Meet\<close> always
  asks the resolver for the pod's DNS name and sends the first address it gives, with the
  client port. Where the resolver fails or knows no address, nothing is sent and the error
  names the pod.
\<close>

theorem Meet_resolves:
  assumes "set (Name cr) \<inter> {CHR ''.'', CHR '':'', CHR ''%''} = {}" "0 \<le> i" "0 \<le> j"
    and look: "run_state (LookupHost (redis a) (PodFQDN cr i j)) w = (res, w1)"
  shows "run_state (Admin_Meet a from (endpoint cr i j)) w =
    (case res of
       Inl e \<Rightarrow> (Inl (Errorf (''resolve '' @ PodFQDN cr i j) (Some e)), w1)
     | Inr [] \<Rightarrow> (Inl (Errorf (''resolve '' @ PodFQDN cr i j) (Some (Errorf (''no addresses for '' @ PodFQDN cr i j) None))), w1)
     | Inr (ip # _) \<Rightarrow> run_state (ClusterMeet (redis a) (dial from) ip ''6379'') w1)"
proof -
  have "\<not> ParseIP (PodFQDN cr i j)" using assms(1-3) by (rule PodFQDN_not_IP)
  then have r: "run_state (resolveHost (redis a) (PodFQDN cr i j)) w =
      (case res of Inl e \<Rightarrow> (Inl e, w1) | Inr [] \<Rightarrow> (Inl (Errorf (''no addresses for '' @ PodFQDN cr i j) None), w1)
       | Inr (ip # _) \<Rightarrow> (Inr ip, w1))"
    by (simp add: resolveHost_def run_bindE look split: sum.split list.split)
  have port: "Itoa (epPort (endpoint cr i j)) = ''6379''" unfolding endpoint_def Endpoint.simps by code_simp
  show ?thesis
    unfolding Admin_Meet_def run_bindE run_wrapE port
    by (cases res) (simp_all add: endpoint_def r split: list.split)
qed

theorem Meet_resolves_witness:
  "run_state (Admin_Meet admin0 seed0 (endpoint (demo_cluster 3 1) 1 0)) net0 =
     run_state (ClusterMeet net_redis (dial seed0) ''10.0.0.9'' ''6379'') net0"
proof -
  have "Name (demo_cluster 3 1) = ''demo''" by code_simp
  moreover have "redis admin0 = net_redis" by (simp add: admin0_def)
  ultimately show ?thesis using Meet_resolves [of "demo_cluster 3 1" 1 0 admin0 net0 _ _ seed0] by auto
qed

end
