(* ===== verification/Live_Moves.thy ===== *)
theory Live_Moves
  imports Valkey_Net Fake_Controller
begin

text \<open>
  The properties of \<^verbatim>\<open>MoveSlots\<close> of the live admin: no key is lost, which slots end up where on a
  success and on a failure, that it returns, and that it does to the slot counts what the
  in-memory cluster does.
\<close>

lemma net_held_set: "net_held w x s = set (filter (\<lambda>k. net_slot k = s) (netKeys w x))"
  by (auto simp: net_held_def)

lemma UN_only: "(\<And>x. x \<noteq> a \<Longrightarrow> f x = {}) \<Longrightarrow> (\<Union>x. f x) = f a"
  by (auto, metis empty_iff)

lemma shifted_total:
  assumes "shifted fa ta S h h'"
  shows "(\<Union>x. h' x t) = (\<Union>x. h x t)"
proof -
  have split: "(\<Union>x. g x t) = (g fa t \<union> g ta t) \<union> (\<Union>x \<in> - {fa, ta}. g x t)" for g :: holdings
    by auto
  have "(\<Union>x \<in> - {fa, ta}. h' x t) = (\<Union>x \<in> - {fa, ta}. h x t)"
    using assms by (intro SUP_cong) (auto simp: shifted_def)
  then show ?thesis using assms unfolding split [of h'] split [of h] by (simp add: shifted_def)
qed



text \<open>
  Claim C4. What a move of slots does: the slots are the first \<open>n\<close> that CLUSTER NODES lists for the
  source. The returned number of them, from the front, have no key left on the source and
  belong to the target in the slot table of every primary. There is an error exactly when not
  all of them were moved, and then the only other slot that may have been touched is the next
  one; all further slots are where they were, keys and tables alike.
\<close>

theorem MoveSlots_moves:
  assumes laws: "valkey_laws (redis a) held table" and n: "0 < n"
    and between: "move_between a ep fromID toID w ns from to"
    and run: "run_state (Admin_MoveSlots a ep fromID toID n) w = ((moved, err), w')"
    and slots: "slots = take (nat n) (slot_list (Slots from))"
  shows "0 \<le> moved \<and> moved \<le> int (length slots) \<and> (err = None \<longleftrightarrow> moved = int (length slots)) \<and>
    (\<forall>s \<in> set (take (nat moved) slots).
       held w' (node_addr from) s = {} \<and> (\<forall>m \<in> set ns. IsPrimary m \<longrightarrow> table w' (node_addr m) s = toID)) \<and>
    (\<forall>s x. s \<notin> set (take (Suc (nat moved)) slots) \<longrightarrow> held w' x s = held w x s \<and> table w' x s = table w x s)"
proof -
  obtain w0 where w0: "held w0 = held w" "table w0 = table w" "moving (redis a) held table from to" "ID to = toID"
    "run_state (move_slots (rounds a) (redis a) (map clientFor (filter IsPrimary ns)) from to 0 slots) w0 = ((moved, err), w')"
    using MoveSlots_enters [OF laws n between run] slots by metis
  note r = move_slots_run [OF w0(3,5), unfolded w0(1,2,4) diff_0_right add_0]
  have "held w' x s = held w x s \<and> table w' x s = table w x s" if "s \<notin> set (take (Suc (nat moved)) slots)" for s x
    using r that unfolding shifted_def reassigned_def by blast
  moreover have "\<forall>m \<in> set ns. IsPrimary m \<longrightarrow> table w' (node_addr m) s = toID"
    if "\<forall>cl \<in> set (map clientFor (filter IsPrimary ns)). table w' (oAddr cl) s = toID" for s
    using that by auto
  ultimately show ?thesis using r by blast
qed

theorem MoveSlots_moves_witness:
  "\<exists>w'. run_state (Admin_MoveSlots admin0 seed0 ''n0'' ''n1'' 3) net0 = ((3, None), w') \<and>
     netTable w' ''10.0.0.1:6379'' 2 = ''n1''"
proof -
  obtain moved err w' where run: "run_state (Admin_MoveSlots admin0 seed0 ''n0'' ''n1'' 3) net0 = ((moved, err), w')"
    by (metis surj_pair)
  have first: "fst (run_state (Admin_MoveSlots admin0 seed0 ''n0'' ''n1'' 3) net0) = (3, None)" by code_simp
  have slots: "[0, 1, 2] = take (nat 3) (slot_list (Slots node0))" by code_simp
  have laws: "valkey_laws (redis admin0) net_held netTable" using net_laws by (simp add: admin0_def)
  have "IsPrimary node0" by code_simp
  then have "netTable w' (node_addr node0) 2 = ''n1''"
    using MoveSlots_moves [OF laws _ between0 run slots] run first by simp
  then show ?thesis using run first addrs by simp
qed

text \<open>
  Claim C15. Moving slots ends: when the number of keys the source holds in each of its slots is
  below the bound on the rounds of the key loop, the loop is never cut off. Each round
  migrates at least one key away, so that the unbounded loop of the source code ends after at
  most one round more than there are keys.
\<close>

theorem MoveSlots_ends:
  assumes laws: "valkey_laws (redis a) held table"
    and between: "move_between a ep fromID toID w ns from to"
    and enough: "\<forall>s \<in> set (slot_list (Slots from)). card (held w (node_addr from) s) < rounds a"
    and run: "run_state (Admin_MoveSlots a ep fromID toID n) w = ((moved, err), w')"
  shows "err \<noteq> Some OutOfFuel"
proof (cases "n \<le> 0")
  case True
  with run show ?thesis by (simp add: Admin_MoveSlots_def)
next
  case False
  then have n: "0 < n" by simp
  obtain w0 where w0: "held w0 = held w" "moving (redis a) held table from to"
    "run_state (move_slots (rounds a) (redis a) (map clientFor (filter IsPrimary ns)) from to 0
       (take (nat n) (slot_list (Slots from)))) w0 = ((moved, err), w')"
    using MoveSlots_enters [OF laws n between run] by metis
  have "\<forall>s \<in> set (take (nat n) (slot_list (Slots from))). card (held w0 (node_addr from) s) < rounds a"
    using enough w0(1) set_take_subset by (metis subsetD)
  then have "\<forall>e. err = Some e \<longrightarrow> \<not> is_abort e" using move_slots_run [OF w0(2,3)] by blast
  then show ?thesis by (auto simp: is_abort_def)
qed

theorem MoveSlots_ends_witness:
  "snd (fst (run_state (Admin_MoveSlots admin0 seed0 ''n0'' ''n1'' 3) net0)) \<noteq> Some OutOfFuel"
proof -
  have laws: "valkey_laws (redis admin0) net_held netTable" using net_laws by (simp add: admin0_def)
  have "card (net_held net0 x s) < 5" for x s
  proof -
    have "card (net_held net0 x s) \<le> card (set (netKeys net0 x))" by (rule card_mono) (auto simp: net_held_def)
    also have "\<dots> \<le> length (netKeys net0 x)" by (rule card_length)
    also have "\<dots> < 5" by (simp add: net0_def)
    finally show ?thesis .
  qed
  then have "\<forall>s \<in> set (slot_list (Slots node0)). card (net_held net0 (node_addr node0) s) < rounds admin0"
    by (simp add: admin0_def)
  then show ?thesis using MoveSlots_ends [OF laws between0] by (metis prod.collapse)
qed

section \<open>The in-memory cluster stands for the live one\<close>

text \<open>The number of slots that a node's slot table gives to node \<open>i\<close>.\<close>

definition table_count :: "tables \<Rightarrow> string \<Rightarrow> string \<Rightarrow> int" where
  "table_count T x i = int (card {s. 0 \<le> s \<and> s < TotalSlots \<and> T x s = i})"

definition simulates :: "'a Fake_scheme \<Rightarrow> tables \<Rightarrow> string \<Rightarrow> bool" where
  "simulates f T x \<longleftrightarrow> (\<forall>i. i \<noteq> '''' \<longrightarrow> owned (Fake_view f) i = table_count T x i)"

lemma table_count_transfer:
  assumes S: "S \<subseteq> {s. 0 \<le> s \<and> s < TotalSlots \<and> T x s = from}" and ne: "from \<noteq> to"
    and T': "\<And>s. T' x s = (if s \<in> S then to else T x s)"
  shows "table_count T' x = (table_count T x)(from := table_count T x from - int (card S), to := table_count T x to + int (card S))"
proof
  fix i
  let ?on = "\<lambda>T i. {s. 0 \<le> s \<and> s < TotalSlots \<and> T x s = i}"
  have fin: "finite (?on T i)" for T :: tables and i by (rule finite_subset [of _ "{0..<TotalSlots}"]) auto
  have finS: "finite S" using S fin finite_subset by blast
  consider "i = from" | "i = to" | "i \<noteq> from" "i \<noteq> to" by blast
  then show "table_count T' x i = ((table_count T x)(from := table_count T x from - int (card S), to := table_count T x to + int (card S))) i"
  proof cases
    case 1
    have "?on T' from = ?on T from - S" using ne by (auto simp: T' split: if_splits)
    then have "card (?on T' from) = card (?on T from) - card S" by (simp add: card_Diff_subset [OF finS S])
    moreover have "card S \<le> card (?on T from)" by (intro card_mono fin S)
    ultimately show ?thesis using 1 ne by (simp add: table_count_def of_nat_diff)
  next
    case 2
    have "?on T' to = ?on T to \<union> S" using S by (auto simp: T')
    moreover have "?on T to \<inter> S = {}" using S ne by auto
    ultimately have "card (?on T' to) = card (?on T to) + card S" using fin finS by (simp add: card_Un_disjoint)
    then show ?thesis using 2 by (simp add: table_count_def)
  next
    case 3
    then have "?on T' i = ?on T i" using S by (auto simp: T' split: if_splits)
    then show ?thesis using 3 by (simp add: table_count_def)
  qed
qed

text \<open>
  Claim C7. The in-memory cluster that the tests use stands for the live one: suppose it counts
  for every node the slots that a primary's slot table gives that node, and CLUSTER NODES
  gives the source the slots of that table. Then after the same successful \<^verbatim>\<open>MoveSlots\<close> on both,
  both have reported the same number and the counts still agree.
\<close>

theorem MoveSlots_refines:
  assumes laws: "valkey_laws (redis a) held table" and n: "0 < n" and ne: "fromID \<noteq> toID"
    and between: "move_between a ep fromID toID w ns from to"
    and live: "run_state (Admin_MoveSlots a ep fromID toID n) w = ((moved, None), w')"
    and m: "m \<in> set ns" "IsPrimary m" and ok: "ranges_ok (Slots from)"
    and agree: "ranges_slots (Slots from) = {s. 0 \<le> s \<and> s < TotalSlots \<and> table w (node_addr m) s = fromID}"
    and fake: "Fake_inv f" "{fromID, toID} \<subseteq> dom (Fake_view f)" "simulates f (table w) (node_addr m)"
    and model: "run_state (aMoveSlots Fake_admin ep fromID toID n) f = ((moved', err), f')"
  shows "moved' = moved \<and> err = None \<and> simulates f' (table w') (node_addr m)"
proof -
  define slots where "slots = take (nat n) (slot_list (Slots from))"
  let ?x = "node_addr m"
  obtain w0 where w0: "table w0 = table w" "moving (redis a) held table from to" "ID to = toID"
    "run_state (move_slots (rounds a) (redis a) (map clientFor (filter IsPrimary ns)) from to 0 slots) w0 = ((moved, None), w')"
    using MoveSlots_enters [OF laws n between live] slots_def by metis
  note r = move_slots_run [OF w0(2,4), unfolded w0(1,3) diff_0_right add_0]
  have moved: "moved = int (length slots)" using r by simp
  have tbl: "table w' ?x s = (if s \<in> set slots then toID else table w ?x s)" for s
    using r m by (auto simp: moved reassigned_def)
  have dist: "distinct (slot_list (Slots from))" using ok by (rule distinct_slot_list)
  have sub: "set slots \<subseteq> {s. 0 \<le> s \<and> s < TotalSlots \<and> table w ?x s = fromID}"
    using set_take_subset set_slot_list [of "Slots from"] agree unfolding slots_def by metis
  have count: "table_count (table w') ?x = (table_count (table w) ?x)(fromID := table_count (table w) ?x fromID - moved, toID := table_count (table w) ?x toID + moved)"
    using table_count_transfer [where x = "?x" and T = "table w" and T' = "table w'", OF sub ne tbl] dist by (simp add: moved slots_def distinct_card)
  have known: "fromID \<noteq> ''''" "toID \<noteq> ''''" using fake(1,2) by (auto simp: Fake_inv_def)
  have "int (length (slot_list (Slots from))) = table_count (table w) ?x fromID"
    using distinct_card [OF dist] by (simp add: set_slot_list agree table_count_def)
  then have own: "moved = min n (owned (Fake_view f) fromID)"
    using fake(3) known n by (simp add: moved slots_def simulates_def min_def) linarith
  note F = fake.MoveSlots [OF fake(1) _ ne model]
  have "snd (fst (Fake_MoveSlots fromID toID n f)) = None" by (simp add: Fake_MoveSlots_def Let_def)
  then have err: "err = None" using model by simp
  have c: "moved' = min n (owned (Fake_view f) fromID)" "owned (Fake_view f') = (owned (Fake_view f))(fromID := owned (Fake_view f) fromID - moved', toID := owned (Fake_view f) toID + moved')"
    using F n fake(2) unfolding err option.case by (simp_all only: less_imp_le insert_subset)
  have "moved' = moved" using c(1) own by simp
  moreover have "owned (Fake_view f') i = table_count (table w') ?x i" if "i \<noteq> ''''" for i
    using fake(3) known that ne unfolding count c(2) \<open>moved' = moved\<close> simulates_def by (simp only: fun_upd_apply split: if_split) simp
  moreover note err
  ultimately show ?thesis by (simp add: simulates_def)
qed

definition fake0 :: Fake where
  "fake0 = \<lparr>nodes = [(''n0'', zero_NodeInfo\<lparr>ID := ''n0'', Host := ''n0'', Flags := [''master''], Slots := [\<lparr>Start = 0, End = 9\<rparr>]\<rparr>),
                    (''n1'', zero_NodeInfo\<lparr>ID := ''n1'', Host := ''n1'', Flags := [''master'']\<rparr>)]\<rparr>"

theorem MoveSlots_refines_witness:
  "\<exists>f'. run_state (aMoveSlots Fake_admin seed0 ''n0'' ''n1'' 3) fake0 = ((3, None), f') \<and>
     simulates f' (netTable (snd (run_state (Admin_MoveSlots admin0 seed0 ''n0'' ''n1'' 3) net0))) ''10.0.0.2:6379''"
proof -
  obtain w' where live: "run_state (Admin_MoveSlots admin0 seed0 ''n0'' ''n1'' 3) net0 = ((3, None), w')"
  proof -
    have "fst (run_state (Admin_MoveSlots admin0 seed0 ''n0'' ''n1'' 3) net0) = (3, None)" by code_simp
    then show thesis using that by (metis prod.collapse)
  qed
  obtain moved' err f' where model: "run_state (aMoveSlots Fake_admin seed0 ''n0'' ''n1'' 3) fake0 = ((moved', err), f')"
    by (metis surj_pair)
  have laws: "valkey_laws (redis admin0) net_held netTable" using net_laws by (simp add: admin0_def)
  have tbl: "netTable net0 x s = (if 0 \<le> s \<and> s \<le> 9 then ''n0'' else '''')" for x s by (simp add: net0_def)
  have slots: "ranges_slots (Slots node0) = {0..9}" "ranges_ok (Slots node0)"
    by (simp_all add: node0_def range_slots_def)
  have n0: "{s. 0 \<le> s \<and> s < TotalSlots \<and> netTable net0 x s = ''n0''} = {0..9}" for x
    by (auto simp: tbl TotalSlots_def)
  have inv: "Fake_inv fake0"
    by (auto simp: Fake_inv_def Fake_wf_def fake0_def node_ok_def range_count_def zero_NodeInfo_def split: if_splits)
  have own: "owned (Fake_view fake0) i = (if i = ''n0'' then 10 else 0)" for i
    by (simp add: fake0_def owned_def SlotCount_def range_count_def zero_NodeInfo_def)
  have "table_count (netTable net0) x i = (if i = ''n0'' then 10 else 0)" if "i \<noteq> ''''" for x i
  proof (cases "i = ''n0''")
    case True
    then show ?thesis using n0 [of x] by (simp add: table_count_def)
  next
    case False
    then have "{s. 0 \<le> s \<and> s < TotalSlots \<and> netTable net0 x s = i} = {}" using that by (auto simp: tbl)
    then show ?thesis using False by (simp only: table_count_def card.empty if_False)
  qed
  then have sim: "simulates fake0 (netTable net0) (node_addr node1)" using own by (simp add: simulates_def)
  have "{''n0'', ''n1''} \<subseteq> dom (Fake_view fake0)" by (simp add: fake0_def)
  from MoveSlots_refines [OF laws _ _ between0 live _ _ slots(2) _ inv this sim model] slots(1) n0
  show ?thesis using model live addrs by (simp add: node1_def IsPrimary_def)
qed

end
