(* ===== verification/Live_Repair.thy ===== *)
theory Live_Repair
  imports Live_State Live_Moves
begin

text \<open>
  \<^verbatim>\<open>RepairSlots\<close> of the live admin: which open slots it settles, on whom, and that no key is lost
  on the way although it ignores every error of the commands it sends.
\<close>

section \<open>What the commands do\<close>

text \<open>The one-key form of MIGRATE, and CLUSTER SETSLOT with STABLE.\<close>

definition migrate1_law :: "'w Redis \<Rightarrow> ('w \<Rightarrow> holdings) \<Rightarrow> ('w \<Rightarrow> tables) \<Rightarrow> bool" where
  "migrate1_law R held table \<longleftrightarrow>
     (\<forall>cl ip port k db t w r w'. run_state (Migrate R cl ip port k db t) w = (r, w') \<longrightarrow>
        oAddr cl \<noteq> ip @ '':'' @ port \<longrightarrow>
        table w' = table w \<and> shifted (oAddr cl) (ip @ '':'' @ port) UNIV (held w) (held w'))"

definition stable_law :: "'w Redis \<Rightarrow> ('w \<Rightarrow> holdings) \<Rightarrow> ('w \<Rightarrow> tables) \<Rightarrow> bool" where
  "stable_law R held table \<longleftrightarrow>
     (\<forall>cl s w r w'. run_state (Do R cl [Str ''CLUSTER'', Str ''SETSLOT'', Num s, Str ''STABLE'']) w = (r, w') \<longrightarrow>
        held w' = held w \<and> table w' = table w)"

definition repair_laws :: "'w Redis \<Rightarrow> ('w \<Rightarrow> holdings) \<Rightarrow> ('w \<Rightarrow> tables) \<Rightarrow> bool" where
  "repair_laws R held table \<longleftrightarrow>
     valkey_laws R held table \<and> migrate1_law R held table \<and> stable_law R held table"

text \<open>The nodes take the NODE form of CLUSTER SETSLOT.\<close>

definition accepts :: "'w Redis \<Rightarrow> bool" where
  "accepts R \<longleftrightarrow> (\<forall>cl s i w. fst (run_state (Do R cl [Str ''CLUSTER'', Str ''SETSLOT'', Num s, Str ''NODE'', Str i]) w) = Inr ())"

text \<open>Nodes listed with different IDs and with IPs have different addresses.\<close>

definition told_apart :: "NodeInfo list \<Rightarrow> bool" where
  "told_apart ns \<longleftrightarrow>
     (\<forall>n \<in> set ns. \<forall>m \<in> set ns. ID n \<noteq> ID m \<longrightarrow> IP n \<noteq> '''' \<longrightarrow> IP m \<noteq> '''' \<longrightarrow> node_addr n \<noteq> node_addr m)"

section \<open>Loops that ignore errors\<close>

definition keys_in :: "('w \<Rightarrow> holdings) \<Rightarrow> 'w \<Rightarrow> int \<Rightarrow> string set" where
  "keys_in held w t = (\<Union>x. held w x t)"

lemma ignoreE_run: "run_state (ignoreE m) w = (r, w') \<Longrightarrow> r = Inr () \<and> (\<exists>r'. run_state m w = (r', w'))"
  by (auto simp: run_ignoreE) (metis prod.collapse)

text \<open>A loop whose rounds never fail and keep a transitive relation.\<close>

lemma forE_relates:
  assumes step: "\<And>x w r w'. x \<in> set xs \<Longrightarrow> run_state (f x) w = (r, w') \<Longrightarrow> r = Inr () \<and> P w w'"
    and refl: "\<And>w. P w w" and trans: "\<And>u v w. P u v \<Longrightarrow> P v w \<Longrightarrow> P u w"
    and run: "run_state (forE xs f) w = (r, w')"
  shows "r = Inr () \<and> P w w'"
  using step run
proof (induction xs arbitrary: w)
  case Nil
  then show ?case using refl by auto
next
  case (Cons x xs)
  obtain r1 w1 where one: "run_state (f x) w = (r1, w1)" by fastforce
  then have "r1 = Inr ()" "P w w1" using Cons.prems(1) [of x] by auto
  moreover from this one Cons.prems(2) have "run_state (forE xs f) w1 = (r, w')" by (simp add: run_bindE)
  moreover from this have "r = Inr () \<and> P w1 w'" using Cons.IH Cons.prems(1) by (meson list.set_intros(2))
  ultimately show ?case using trans by blast
qed

definition same_keys :: "('w \<Rightarrow> holdings) \<Rightarrow> ('w \<Rightarrow> tables) \<Rightarrow> 'w \<Rightarrow> 'w \<Rightarrow> bool" where
  "same_keys held table w w' \<longleftrightarrow> keys_in held w' = keys_in held w \<and> table w' = table w"

lemma same_keys_trans: "same_keys held table u v \<Longrightarrow> same_keys held table v w \<Longrightarrow> same_keys held table u w"
  by (simp add: same_keys_def)

lemma same_keys_refl [simp]: "same_keys held table w w"
  by (simp add: same_keys_def)

lemma same_keys_shifted:
  "table w' = table w \<Longrightarrow> shifted fa ta S (held w) (held w') \<Longrightarrow> same_keys held table w w'"
  unfolding same_keys_def keys_in_def fun_eq_iff by (simp add: shifted_total [where h = "held w" and h' = "held w'"])

lemma migrate1D:
  assumes "repair_laws R held table" "run_state (Migrate R cl ip port k db t) w = (r, w')" "oAddr cl \<noteq> ip @ '':'' @ port"
  shows "same_keys held table w w'"
proof -
  have "table w' = table w \<and> shifted (oAddr cl) (ip @ '':'' @ port) UNIV (held w) (held w')"
    using assms unfolding repair_laws_def migrate1_law_def by blast
  then show ?thesis by (elim conjE) (rule same_keys_shifted)
qed

lemma migrate_strays_run:
  assumes laws: "repair_laws R held table" and ns: "told_apart ns" "owner \<in> set ns" "IP owner \<noteq> ''''" "n \<in> set ns"
    and run: "run_state (migrate_strays R owner s n) w = (r, w')"
  shows "r = Inr () \<and> same_keys held table w w'"
proof (cases "ID n = ID owner \<or> IP n = '''' \<or> \<not> IsPrimary n")
  case True
  then have "migrate_strays R owner s n = retE ()" by (simp add: migrate_strays_def)
  with run show ?thesis by auto
next
  case False
  let ?cl = "NewClient (IP n @ '':'' @ Itoa (Port n))"
  have addr: "oAddr ?cl = node_addr n" "IP owner @ '':'' @ Itoa (Port owner) = node_addr owner"
    using ns False by (simp_all add: NewClient_def node_addr_def)
  have apart: "oAddr ?cl \<noteq> IP owner @ '':'' @ Itoa (Port owner)" unfolding addr using ns False by (auto simp: told_apart_def)
  obtain ks w1 where get: "run_state (ClusterGetKeysInSlot R ?cl s 1000) w = (ks, w1)" by fastforce
  have "getkeys_law R held table" using laws by (simp add: repair_laws_def valkey_laws_def)
  note get_same = getkeysD(1,2) [OF this get]
  have same: "same_keys held table w w1" by (simp add: same_keys_def keys_in_def fun_eq_iff get_same)
  have "run_state (forE (case ks of Inl e \<Rightarrow> [] | Inr ks \<Rightarrow> ks) (\<lambda>k.
      ignoreE (Migrate R ?cl (IP owner) (Itoa (Port owner)) k 0 10000000000))) w1 = (r, w')"
    using run unfolding migrate_strays_def if_not_P [OF False] Let_def run_state_bind get by (simp only: prod.case)
  then have "r = Inr () \<and> same_keys held table w1 w'"
  proof (rule forE_relates [rotated 3])
    fix k v r v'
    assume "run_state (ignoreE (Migrate R ?cl (IP owner) (Itoa (Port owner)) k 0 10000000000)) v = (r, v')"
    from ignoreE_run [OF this]
    obtain r' where r: "r = Inr ()" and m: "run_state (Migrate R ?cl (IP owner) (Itoa (Port owner)) k 0 10000000000) v = (r', v')"
      by (elim conjE exE)
    from migrate1D [OF laws m apart] show "r = Inr () \<and> same_keys held table v v'" using r by (simp only: simp_thms)
  qed (rule same_keys_refl, erule (1) same_keys_trans)
  with same_keys_trans [OF same, of w'] show ?thesis by simp
qed

lemma assert_owner_run:
  assumes laws: "repair_laws R held table" and run: "run_state (assert_owner R owner s n) w = (r, w')"
  shows "r = Inr () \<and> held w' = held w \<and> reassigned {s} (ID owner) (table w) (table w') \<and>
    (accepts R \<longrightarrow> IsPrimary n \<longrightarrow> table w' (node_addr n) s = ID owner)"
proof (cases "IsPrimary n")
  case False
  with run show ?thesis by (auto simp: assert_owner_def)
next
  case True
  let ?cl = "clientFor n"
  obtain r1 w1 where one: "run_state (Do R ?cl [Str ''CLUSTER'', Str ''SETSLOT'', Num s, Str ''STABLE'']) w = (r1, w1)" by fastforce
  have w1: "held w1 = held w" "table w1 = table w" using laws one unfolding repair_laws_def stable_law_def by blast+
  obtain r2 w2 where two: "run_state (Do R ?cl (setslot s ''NODE'' (ID owner))) w1 = (r2, w2)" by fastforce
  have "setslot_law R held table" using laws by (simp add: repair_laws_def valkey_laws_def)
  note set = setslotD [OF this two]
  have "r = Inr ()" "w' = w2"
    using run True by (simp_all add: assert_owner_def run_bindE run_ignoreE one two)
  moreover have "reassigned {s} (ID owner) (table w1) (table w2)" unfolding set(3) by (simp add: reassigned_def)
  moreover have "table w2 (node_addr n) s = ID owner" if "accepts R"
  proof -
    have "r2 = Inr ()" using that two unfolding accepts_def setslot_def by (metis fst_conv)
    then show ?thesis unfolding set(3) by simp
  qed
  ultimately show ?thesis using set(1) w1 by simp
qed

text \<open>Asserting the owner on every primary.\<close>

lemma assert_owners_run:
  assumes laws: "repair_laws R held table" and "run_state (forE ns (assert_owner R owner s)) w = (r, w')"
  shows "held w' = held w \<and> reassigned {s} (ID owner) (table w) (table w') \<and>
    (accepts R \<longrightarrow> (\<forall>n \<in> set ns. IsPrimary n \<longrightarrow> table w' (node_addr n) s = ID owner))"
  using assms(2)
proof (induction ns arbitrary: w)
  case (Cons n ns)
  obtain r1 w1 where one: "run_state (assert_owner R owner s n) w = (r1, w1)" by fastforce
  note a = assert_owner_run [OF laws one]
  have "run_state (forE ns (assert_owner R owner s)) w1 = (r, w')" using Cons.prems a one by (simp add: run_bindE)
  note ih = Cons.IH [OF this]
  have re: "reassigned {s} (ID owner) (table w) (table w')"
    using reassigned_trans [of "{s}" "ID owner" "table w" "table w1" "{s}" "table w'"] a ih by simp
  have "table w' (node_addr n) s = ID owner" if "accepts R" "IsPrimary n"
    using a ih that reassigned_stays [of "{s}" "ID owner" "table w1" "table w'"] by simp
  then show ?case using ih a re by auto
qed auto

section \<open>All open slots\<close>

definition repairable :: "NodeInfo list \<Rightarrow> int \<Rightarrow> bool" where
  "repairable ns s \<longleftrightarrow> (case ownerOf ns s of None \<Rightarrow> False | Some owner \<Rightarrow> IP owner \<noteq> '''')"

text \<open>Tables change only for slots of \<open>S\<close>, and then to the slot's owner.\<close>

definition settling :: "NodeInfo list \<Rightarrow> int set \<Rightarrow> tables \<Rightarrow> tables \<Rightarrow> bool" where
  "settling ns S T T' \<longleftrightarrow> (\<forall>x t. T' x t = T x t \<or> t \<in> S \<and> (\<exists>owner. ownerOf ns t = Some owner \<and> T' x t = ID owner))"

lemma settling_trans: "settling ns S T T' \<Longrightarrow> settling ns S' T' T'' \<Longrightarrow> settling ns (S \<union> S') T T''"
  unfolding settling_def by (metis UnCI)

lemma settling_mono: "settling ns S T T' \<Longrightarrow> S \<subseteq> S' \<Longrightarrow> settling ns S' T T'"
  unfolding settling_def by blast

lemma settling_stays: "settling ns S T T' \<Longrightarrow> ownerOf ns t = Some owner \<Longrightarrow> T x t = ID owner \<Longrightarrow> T' x t = ID owner"
  unfolding settling_def by (metis option.inject)

lemma ownerOf_mem: "ownerOf ns s = Some owner \<Longrightarrow> owner \<in> set ns"
  by (induction ns) (auto split: if_splits)

text \<open>One slot with an owner.\<close>

lemma repair_slot_run:
  assumes laws: "repair_laws R held table" and ns: "told_apart ns" "ownerOf ns s = Some owner" "IP owner \<noteq> ''''"
    and one: "run_state (forE ns (migrate_strays R owner s)) w = (r1, w1)"
    and two: "run_state (forE ns (assert_owner R owner s)) w1 = (r2, w2)"
  shows "keys_in held w2 = keys_in held w \<and> settling ns {s} (table w) (table w2) \<and>
    (accepts R \<longrightarrow> (\<forall>n \<in> set ns. IsPrimary n \<longrightarrow> table w2 (node_addr n) s = ID owner))"
proof -
  have "r1 = Inr () \<and> same_keys held table w w1"
  proof (rule forE_relates [OF _ _ _ one])
    fix n v r v' assume "n \<in> set ns" "run_state (migrate_strays R owner s n) v = (r, v')"
    then show "r = Inr () \<and> same_keys held table v v'"
      using migrate_strays_run [OF laws ns(1) ownerOf_mem [OF ns(2)] ns(3)] by simp
  qed (rule same_keys_refl, erule (1) same_keys_trans)
  then have w1: "keys_in held w1 = keys_in held w" "table w1 = table w" by (simp_all add: same_keys_def)
  note a = assert_owners_run [OF laws two]
  have "keys_in held w2 = keys_in held w1" using a by (simp add: keys_in_def fun_eq_iff)
  moreover have "settling ns {s} (table w1) (table w2)" using a ns(2) unfolding settling_def reassigned_def by blast
  ultimately show ?thesis using a w1 by simp
qed

lemma repair_slots_run:
  assumes laws: "repair_laws R held table" and ns: "told_apart ns"
    and "run_state (repair_slots R ns k ss) w = ((k', err), w')"
  shows "err = None \<and> k' = k + int (length (filter (repairable ns) ss)) \<and> keys_in held w' = keys_in held w \<and>
    settling ns {s \<in> set ss. repairable ns s} (table w) (table w') \<and>
    (accepts R \<longrightarrow> (\<forall>s \<in> set ss. \<forall>owner. ownerOf ns s = Some owner \<longrightarrow> IP owner \<noteq> '''' \<longrightarrow>
       (\<forall>n \<in> set ns. IsPrimary n \<longrightarrow> table w' (node_addr n) s = ID owner)))"
  using assms(3)
proof (induction ss arbitrary: k w)
  case Nil
  then show ?case by (auto simp: settling_def)
next
  case (Cons s ss)
  show ?case
  proof (cases "repairable ns s")
    case False
    then have "run_state (repair_slots R ns k ss) w = ((k', err), w')"
      using Cons.prems by (auto simp: repairable_def split: option.splits)
    note ih = Cons.IH [OF this]
    have set: "{t \<in> set (s # ss). repairable ns t} = {t \<in> set ss. repairable ns t}" using False by auto
    have "\<not> (\<exists>owner. ownerOf ns s = Some owner \<and> IP owner \<noteq> '''')" using False by (simp add: repairable_def split: option.splits)
    then show ?thesis using ih False unfolding set by simp
  next
    case True
    then obtain owner where o: "ownerOf ns s = Some owner" "IP owner \<noteq> ''''"
      by (auto simp: repairable_def split: option.splits)
    obtain r1 w1 where one: "run_state (forE ns (migrate_strays R owner s)) w = (r1, w1)" by fastforce
    obtain r2 w2 where two: "run_state (forE ns (assert_owner R owner s)) w1 = (r2, w2)" by fastforce
    note a = repair_slot_run [OF laws ns o one two]
    have "run_state (repair_slots R ns (k + 1) ss) w2 = ((k', err), w')" using Cons.prems o one two by simp
    note ih = Cons.IH [OF this]
    have set: "{t \<in> set (s # ss). repairable ns t} = {s} \<union> {t \<in> set ss. repairable ns t}" using True by auto
    have tail: "settling ns {t \<in> set ss. repairable ns t} (table w2) (table w')" using ih by simp
    have "settling ns ({s} \<union> {t \<in> set ss. repairable ns t}) (table w) (table w')"
      using a ih by (intro settling_trans [of ns "{s}" "table w" "table w2"]) simp_all
    moreover have "\<forall>n \<in> set ns. IsPrimary n \<longrightarrow> table w' (node_addr n) s = ID owner" if "accepts R"
      using a that settling_stays [OF tail o(1)] by simp
    ultimately show ?thesis using a ih True o(1) unfolding set by simp
  qed
qed

section \<open>Properties\<close>


lemma net_repair_laws: "repair_laws net_redis net_held netTable"
  unfolding repair_laws_def
proof (intro conjI net_laws)
  show "migrate1_law net_redis net_held netTable"
    unfolding migrate1_law_def
  proof (intro allI impI)
    fix cl :: Options and ip port k :: string and db t :: int and w r w'
    assume run: "run_state (Migrate net_redis cl ip port k db t) w = (r, w')" and ne: "oAddr cl \<noteq> ip @ '':'' @ port"
    have "w' = net_migrate (oAddr cl) (ip @ '':'' @ port) [k] w" using run by (simp add: net_redis_def)
    then show "netTable w' = netTable w \<and> shifted (oAddr cl) (ip @ '':'' @ port) UNIV (net_held w) (net_held w')"
      using net_migrate_shifted [OF ne] net_migrate_held(3) [OF ne] by (simp only: simp_thms)
  qed
  show "stable_law net_redis net_held netTable"
    unfolding stable_law_def net_redis_simps by (simp add: net_do_def)
qed


end
