(* ===== verification/Pod_Exec.thy ===== *)
theory Pod_Exec
  imports Cluster_Types
begin

text \<open>
  \<^verbatim>\<open>internal/cluster/exec.go\<close>: commands run in a pod through the exec subresource. The
  Kubernetes client (the client set, the URL of a request, the SPDY executor and its streams)
  is a record of the calls the code makes.
\<close>

text \<open>The request \<^verbatim>\<open>Exec\<close> builds.\<close>

record ExecRequest =
  xResource :: string
  xName :: string
  xNamespace :: string
  xSubResource :: string
  xContainer :: string
  xCommand :: "string list"
  xStdout :: bool
  xStderr :: bool

text \<open>
  \<open>StreamWithContext\<close> gives what the two buffers hold afterwards, and the error. The types are
  those of the configuration, the client set, a URL and an executor.
\<close>

record ('w, 'c, 'k, 'u, 'x) ExecApi =
  NewForConfig :: "'c \<Rightarrow> error + 'k"
  PostURL :: "'k \<Rightarrow> ExecRequest \<Rightarrow> 'u"
  NewSPDYExecutor :: "'c \<Rightarrow> string \<Rightarrow> 'u \<Rightarrow> error + 'x"
  StreamWithContext :: "'x \<Rightarrow> ('w, string \<times> string \<times> error option) io"

record ('c, 'k) PodExec =
  cfg :: 'c
  clientset :: 'k

definition NewPodExec :: "('w, 'c, 'k, 'u, 'x) ExecApi \<Rightarrow> 'c \<Rightarrow> error + ('c, 'k) PodExec" where
  "NewPodExec api c =
     (case NewForConfig api c of
        Inl e \<Rightarrow> Inl e
      | Inr cs \<Rightarrow> Inr \<lparr>cfg = c, clientset = cs\<rparr>)"

text \<open>The text of the error ends with what the command wrote to stderr.\<close>

definition Exec :: "('w, 'c, 'k, 'u, 'x) ExecApi \<Rightarrow> ('c, 'k) PodExec \<Rightarrow> string \<Rightarrow> string \<Rightarrow> string \<Rightarrow> string list \<Rightarrow>
    ('w, string \<times> error option) io" where
  "Exec api p namespace pod container command =
     (let req = \<lparr>xResource = ''pods'', xName = pod, xNamespace = namespace, xSubResource = ''exec'',
                 xContainer = container, xCommand = command, xStdout = True, xStderr = True\<rparr> in
      case NewSPDYExecutor api (cfg p) ''POST'' (PostURL api (clientset p) req) of
        Inl e \<Rightarrow> ret ('''', Some e)
      | Inr ex \<Rightarrow>
          State_Monad.bind (StreamWithContext api ex) (\<lambda>(stdout, stderr, err). case err of
            Some e \<Rightarrow>
              ret (stdout, Some (Errorf (''exec ['' @ Join '' '' command @ ''] in '' @ namespace @ ''/'' @ pod @
                                         '': '' @ stderr) (Some e)))
          | None \<Rightarrow> ret (stdout, None)))"

end
