(* ===== verification/Operator_Main.thy ===== *)
theory Operator_Main
  imports Pod_Exec Go_Redis Reconcile
begin

text \<open>
  \<^verbatim>\<open>cmd/main.go\<close> and \<^verbatim>\<open>SetupWithManager\<close>: the flags with their defaults, the options of the two
  servers and of the manager made from them, and the steps that wire the reconciler to the
  live admin and start the manager. controller-runtime is a record of the calls made; the flags
  that the logging library adds to the command line have no part in any of this.
\<close>

section \<open>Flags and options\<close>

record MainFlags =
  metricsAddr :: string
  probeAddr :: string
  enableLeaderElection :: bool
  secureMetrics :: bool
  webhookCertPath :: string
  webhookCertName :: string
  webhookCertKey :: string
  metricsCertPath :: string
  metricsCertName :: string
  metricsCertKey :: string
  enableHTTP2 :: bool

definition default_flags :: MainFlags where
  "default_flags =
     \<lparr>metricsAddr = ''0'', probeAddr = '':8081'', enableLeaderElection = False, secureMetrics = True,
      webhookCertPath = '''', webhookCertName = ''tls.crt'', webhookCertKey = ''tls.key'',
      metricsCertPath = '''', metricsCertName = ''tls.crt'', metricsCertKey = ''tls.key'', enableHTTP2 = False\<rparr>"

text \<open>The one field of a TLS configuration that is set; an option is a function that edits it.\<close>

record TLSConfig =
  NextProtos :: "string list"

record WebhookOptions =
  whTLSOpts :: "(TLSConfig \<Rightarrow> TLSConfig) list"
  whCertDir :: string
  whCertName :: string
  whKeyName :: string

datatype FilterProvider = NoFilter | WithAuthenticationAndAuthorization

record MetricsOptions =
  msBindAddress :: string
  msSecureServing :: bool
  msTLSOpts :: "(TLSConfig \<Rightarrow> TLSConfig) list"
  msFilterProvider :: FilterProvider
  msCertDir :: string
  msCertName :: string
  msKeyName :: string

record ManagerOptions =
  Metrics :: MetricsOptions
  WebhookServer :: WebhookOptions
  HealthProbeBindAddress :: string
  LeaderElection :: bool
  LeaderElectionID :: string

definition disableHTTP2 :: "TLSConfig \<Rightarrow> TLSConfig" where
  "disableHTTP2 c = c\<lparr>NextProtos := [''http/1.1'']\<rparr>"

definition tlsOpts :: "MainFlags \<Rightarrow> (TLSConfig \<Rightarrow> TLSConfig) list" where
  "tlsOpts fl = (if \<not> enableHTTP2 fl then [disableHTTP2] else [])"

definition webhookServerOptions :: "MainFlags \<Rightarrow> WebhookOptions" where
  "webhookServerOptions fl =
     (let o0 = \<lparr>whTLSOpts = tlsOpts fl, whCertDir = '''', whCertName = '''', whKeyName = ''''\<rparr> in
      if length (webhookCertPath fl) > 0 then
        o0\<lparr>whCertDir := webhookCertPath fl, whCertName := webhookCertName fl, whKeyName := webhookCertKey fl\<rparr>
      else o0)"

definition metricsServerOptions :: "MainFlags \<Rightarrow> MetricsOptions" where
  "metricsServerOptions fl =
     (let o0 = \<lparr>msBindAddress = metricsAddr fl, msSecureServing = secureMetrics fl, msTLSOpts = tlsOpts fl,
                msFilterProvider = NoFilter, msCertDir = '''', msCertName = '''', msKeyName = ''''\<rparr>;
          o1 = (if secureMetrics fl then o0\<lparr>msFilterProvider := WithAuthenticationAndAuthorization\<rparr> else o0)
      in if length (metricsCertPath fl) > 0 then
           o1\<lparr>msCertDir := metricsCertPath fl, msCertName := metricsCertName fl, msKeyName := metricsCertKey fl\<rparr>
         else o1)"

definition managerOptions :: "MainFlags \<Rightarrow> ManagerOptions" where
  "managerOptions fl =
     \<lparr>Metrics = metricsServerOptions fl, WebhookServer = webhookServerOptions fl,
      HealthProbeBindAddress = probeAddr fl, LeaderElection = enableLeaderElection fl,
      LeaderElectionID = ''75190610.razkevich.dev''\<rparr>"

section \<open>Wiring\<close>

text \<open>What \<^verbatim>\<open>SetupWithManager\<close> tells the builder: the kind reconciled, the kinds owned, the name.\<close>

record ControllerSpec =
  csFor :: string
  csOwns :: "string list"
  csNamed :: string

record ('w, 'c, 'm) Runtime =
  GetConfigOrDie :: "('w, 'c) ioE"
  NewManager :: "'c \<Rightarrow> ManagerOptions \<Rightarrow> ('w, 'm) ioE"
  GetConfig :: "'m \<Rightarrow> 'c"
  GetClient :: "'m \<Rightarrow> 'w Client"
  CompleteController :: "'m \<Rightarrow> ControllerSpec \<Rightarrow> 'w Reconciler \<Rightarrow> ('w, unit) ioE"
  AddHealthzCheck :: "'m \<Rightarrow> string \<Rightarrow> ('w, unit) ioE"
  AddReadyzCheck :: "'m \<Rightarrow> string \<Rightarrow> ('w, unit) ioE"
  StartManager :: "'m \<Rightarrow> ('w, unit) ioE"

definition SetupWithManager :: "('w, 'c, 'm) Runtime \<Rightarrow> 'w Reconciler \<Rightarrow> 'm \<Rightarrow> ('w, unit) ioE" where
  "SetupWithManager rt r mgr =
     CompleteController rt mgr
       \<lparr>csFor = ''ValkeyCluster'', csOwns = [''StatefulSet'', ''Service'', ''ConfigMap''], csNamed = ''valkeycluster''\<rparr> r"

text \<open>
  What the run-time environment decides: the network, the order in which maps are visited, and
  the bound on the key loop of the model.
\<close>

record 'w Environment =
  envRedis :: "'w Redis"
  envVisit :: "int list \<Rightarrow> ('w, int list) io"
  envRounds :: nat
  envMapOrder :: "(string \<times> NodeInfo) list \<Rightarrow> ('w, (string \<times> NodeInfo) list) io"

definition liveReconciler :: "'w Environment \<Rightarrow> ('w, 'c, 'k, 'u, 'x) ExecApi \<Rightarrow> ('c, 'k) PodExec \<Rightarrow> 'w Client \<Rightarrow> 'w Reconciler" where
  "liveReconciler env api podExec c =
     \<lparr>kube = c, Admin = Admin_admin (NewAdmin (envRedis env) (Exec api podExec) ''valkey'' (envVisit env) (envRounds env)),
      map_order = envMapOrder env\<rparr>"

definition main_steps :: "('w, 'c, 'm) Runtime \<Rightarrow> 'w Environment \<Rightarrow> ('w, 'c, 'k, 'u, 'x) ExecApi \<Rightarrow> MainFlags \<Rightarrow> ('w, unit) ioE" where
  "main_steps rt env api fl =
     bindE (GetConfigOrDie rt) (\<lambda>c.
     bindE (NewManager rt c (managerOptions fl)) (\<lambda>mgr.
     bindE (ret (NewPodExec api (GetConfig rt mgr))) (\<lambda>podExec.
     bindE (SetupWithManager rt (liveReconciler env api podExec (GetClient rt mgr)) mgr) (\<lambda>_.
     bindE (AddHealthzCheck rt mgr ''healthz'') (\<lambda>_.
     bindE (AddReadyzCheck rt mgr ''readyz'') (\<lambda>_.
     StartManager rt mgr))))))"

text \<open>The exit code: every failure is logged and ends the process with 1.\<close>

definition main :: "('w, 'c, 'm) Runtime \<Rightarrow> 'w Environment \<Rightarrow> ('w, 'c, 'k, 'u, 'x) ExecApi \<Rightarrow> MainFlags \<Rightarrow> ('w, int) io" where
  "main rt env api fl =
     State_Monad.bind (main_steps rt env api fl) (\<lambda>res. case res of Inl e \<Rightarrow> ret 1 | Inr _ \<Rightarrow> ret 0)"

section \<open>Properties\<close>

text \<open>A server's TLS configuration after its options have been applied to it.\<close>

definition configured :: "(TLSConfig \<Rightarrow> TLSConfig) list \<Rightarrow> TLSConfig \<Rightarrow> TLSConfig" where
  "configured opts c = fold (\<lambda>f. f) opts c"

text \<open>
  Claim C34. The servers are closed by default: unless HTTP/2 is switched on, both servers offer
  HTTP/1.1 and nothing else; the metrics endpoint is behind authentication and authorization
  exactly when it is served securely, which is the default; and a certificate is named
  exactly when a directory for it is given.
\<close>

theorem main_options_closed:
  "(\<not> enableHTTP2 fl \<longrightarrow>
      NextProtos (configured (msTLSOpts (Metrics (managerOptions fl))) c) = [''http/1.1''] \<and>
      NextProtos (configured (whTLSOpts (WebhookServer (managerOptions fl))) c) = [''http/1.1'']) \<and>
   (msFilterProvider (Metrics (managerOptions fl)) = WithAuthenticationAndAuthorization \<longleftrightarrow>
      msSecureServing (Metrics (managerOptions fl))) \<and>
   msSecureServing (Metrics (managerOptions default_flags)) \<and> \<not> enableHTTP2 default_flags \<and>
   (msCertDir (Metrics (managerOptions fl)) \<noteq> '''' \<longleftrightarrow> metricsCertPath fl \<noteq> '''') \<and>
   (whCertDir (WebhookServer (managerOptions fl)) \<noteq> '''' \<longleftrightarrow> webhookCertPath fl \<noteq> '''')"
  by (simp add: managerOptions_def metricsServerOptions_def webhookServerOptions_def tlsOpts_def configured_def
      disableHTTP2_def default_flags_def Let_def)

theorem main_options_closed_witness:
  "NextProtos (configured (msTLSOpts (Metrics (managerOptions default_flags))) \<lparr>NextProtos = [''h2'']\<rparr>) = [''http/1.1'']"
  using main_options_closed [of default_flags "\<lparr>NextProtos = [''h2'']\<rparr>"] by simp


end
