(* ===== verification/Known_Gaps.thy ===== *)
theory Known_Gaps
  imports Live_Repair Operator_Main Pass_Scale_In
begin

text \<open>
  Where the code does not do what its comments and documents say: a departing shard that cannot
  be reached is deleted with its slots, a cluster with uncovered slots is repaired for ever
  without effect, and scaling out takes a new shard's whole share from one primary.
\<close>

section \<open>A departing shard that cannot be reached\<close>

lemma find_owner_unreachable:
  assumes "\<And>j v. run_state (aMyID (Admin r) (endpoint cr i j)) v = (Inl e, v)"
  shows "run_state (find_owner r cr i idx js) w = (None, w)"
  by (induction js) (simp_all add: assms)

lemma forget_shard_unreachable:
  assumes "\<And>j v. run_state (aMyID (Admin r) (endpoint cr i j)) v = (Inl e, v)"
  shows "run_state (forget_shard r cr i) w = (Inr (), w)"
proof -
  have "run_state (forE js (\<lambda>j. State_Monad.bind (aMyID (Admin r) (endpoint cr i j)) (\<lambda>res. case res of
         Inr k \<Rightarrow> if k \<noteq> [] then forgetEverywhere r cr k else retE () | Inl _ \<Rightarrow> retE ()))) w = (Inr (), w)" for js
    by (induction js) (simp_all add: assms run_bindE)
  then show ?thesis by (simp add: forget_shard_def)
qed

text \<open>
  Claim C38. A departing shard whose pods do not answer CLUSTER MYID is deleted, StatefulSet and volume
  claims, however many slots its primary owns in the state that was just observed: no slot
  is drained and no error is reported. The comment in \<^verbatim>\<open>scaleIn\<close> says that a shard is not deleted
  until it owns no slots.
\<close>

theorem scaleIn_deletes_unreachable:
  assumes "nShards cr \<le> i" and "run_state (aState (Admin r) (seed cr)) w = (Inr st, w1)"
    and "\<forall>j v. run_state (aMyID (Admin r) (endpoint cr i j)) v = (Inl e, v)"
  shows "run_state (scale_in_shards r cr [i]) w = run_state (deleteShard r cr i) w1"
proof -
  have silent: "run_state (aMyID (Admin r) (endpoint cr i j)) v = (Inl e, v)" for j v using assms(3) by blast
  have "run_state (findShardPrimary r cr i (byID st)) w1 = (([], - 1), w1)"
    using find_owner_unreachable [of r cr i e, OF silent] silent by (simp add: findShardPrimary_def)
  moreover have "run_state (forget_shard r cr i) w1 = (Inr (), w1)" by (rule forget_shard_unreachable [OF silent])
  ultimately show ?thesis
    using assms(1,2) by (auto simp: run_bindE Let_def split: prod.split sum.split)
qed

text \<open>Two shards of which one is to go; the nodes of the second do not answer.\<close>

definition silent_admin :: "ValkeyCluster \<Rightarrow> Store ClusterAdmin" where
  "silent_admin cr = Fake_admin\<lparr>aMyID := \<lambda>ep. failE (Extern ''i/o timeout'')\<rparr>"

definition silent_reconciler :: "ValkeyCluster \<Rightarrow> Store Reconciler" where
  "silent_reconciler cr = (fake_reconciler store_client list_order)\<lparr>Admin := silent_admin cr\<rparr>"

theorem scaleIn_deletes_unreachable_witness:
  "owned (Fake_view (two_shards (demo_cluster 1 0))) (PodFQDN (demo_cluster 1 0) 1 0) > 0 \<and>
   run_state (scale_in_shards (silent_reconciler (demo_cluster 1 0)) (demo_cluster 1 0) [1]) (two_shards (demo_cluster 1 0)) =
   run_state (deleteShard (silent_reconciler (demo_cluster 1 0)) (demo_cluster 1 0) 1) (two_shards (demo_cluster 1 0))"
proof -
  let ?cr = "demo_cluster 1 0" and ?r = "silent_reconciler (demo_cluster 1 0)"
  have "nShards ?cr \<le> 1" by code_simp
  moreover have "run_state (aState (Admin ?r) (seed ?cr)) (two_shards ?cr) = (Inr (Fake_State (two_shards ?cr)), two_shards ?cr)"
    by (simp add: silent_reconciler_def silent_admin_def Fake_admin_def)
  moreover have "\<forall>j v. run_state (aMyID (Admin ?r) (endpoint ?cr 1 j)) v = (Inl (Extern ''i/o timeout''), v)"
    by (simp add: silent_reconciler_def silent_admin_def)
  ultimately have "run_state (scale_in_shards ?r ?cr [1]) (two_shards ?cr) = run_state (deleteShard ?r ?cr 1) (two_shards ?cr)"
    by (rule scaleIn_deletes_unreachable)
  moreover have "owned (Fake_view (two_shards ?cr)) (PodFQDN ?cr 1 0) > 0" by (simp only: owned_Fake two_shards_count) simp
  ultimately show ?thesis by blast
qed

section \<open>A cluster with uncovered slots\<close>

text \<open>
  Claim C39. A formed cluster with uncovered slots and no open ones is never repaired: the planner asks for
  a repair on every pass, and \<^verbatim>\<open>RepairSlots\<close> of the live admin reports no error, repairs nothing and
  leaves the network as it is. The documents say that incomplete coverage is repaired first.
\<close>

theorem uncovered_never_repaired:
  assumes quiet: "quiet a w ans" and listing: "ans (Addr (seed cr)) = Inr raw" and none: "open_slots ans (parseNodes raw) = {}"
    and st: "run_state (Admin_State a (seed cr)) w = (Inr st, w)" "Formed st" "\<not> SlotsCovered st"
  shows "Kind (decide cr st) = ActionRepair \<and> run_state (Admin_RepairSlots a (seed cr)) w = ((0, None), w)"
proof -
  obtain ss where ss: "run_state (collectOpenSlots a (parseNodes raw)) w = (ss, w)" "set ss = open_slots ans (parseNodes raw)"
    using collectOpenSlots_run [OF quiet] by blast
  have "run_state (ClusterNodes (redis a) (dial (seed cr))) w = (Inr raw, w)"
    using quiet listing by (simp add: quiet_def dial_def NewClient_def)
  then have "run_state (Admin_RepairSlots a (seed cr)) w = ((0, None), w)" using ss none by (simp add: Admin_RepairSlots_def Let_def)
  moreover have "Kind (decide cr st) = ActionRepair"
    using st(2,3) by (simp add: decide_def Decide_Kind_iffs summarize_def Let_def)
  ultimately show ?thesis by blast
qed

theorem uncovered_never_repaired_witness:
  "\<exists>st. run_state (Admin_State admin0 (seed (demo_cluster 3 0))) net0 = (Inr st, net0) \<and> \<not> SlotsCovered st \<and>
     run_state (Admin_RepairSlots admin0 (seed (demo_cluster 3 0))) net0 = ((0, None), net0)"
proof -
  let ?s = "seed (demo_cluster 3 0)"
  have calls: "redis admin0 = net_redis" "visit admin0 = ret" by (simp_all add: admin0_def)
  have nodes: "netNodes net0 = (\<lambda>x. Inr listing0)" by (simp add: net0_def)
  have quiet: "quiet admin0 net0 (netNodes net0)" by (simp add: quiet_def calls nodes)
  have "parseOpenSlots listing0 = []" by code_simp
  then have none: "open_slots (netNodes net0) (parseNodes listing0) = {}" by (simp add: open_slots_def nodes)
  let ?run = "run_state (Admin_State admin0 ?s) net0"
  have eval: "(case fst ?run of Inr st \<Rightarrow> Formed st \<and> \<not> SlotsCovered st | Inl e \<Rightarrow> False)" by code_simp
  obtain ss where "run_state (collectOpenSlots admin0 (parseNodes listing0)) net0 = (ss, net0)"
    using collectOpenSlots_run [OF quiet] by blast
  then have "snd ?run = net0" by (simp add: Admin_State_def run_bindE run_wrapE calls nodes Let_def)
  then obtain st where st: "?run = (Inr st, net0)" "Formed st" "\<not> SlotsCovered st"
    using eval by (cases ?run) (auto split: sum.splits)
  have "netNodes net0 (Addr ?s) = Inr listing0" by (simp add: nodes)
  from uncovered_never_repaired [OF quiet this none st] st show ?thesis by blast
qed

section \<open>The share of a new shard\<close>


definition shard_node :: "ValkeyCluster \<Rightarrow> int \<Rightarrow> SlotRange list \<Rightarrow> string \<times> NodeInfo" where
  "shard_node cr i rs = (PodFQDN cr i 0, (new_node (endpoint cr i 0))\<lparr>Slots := rs\<rparr>)"

definition three_and_new :: "ValkeyCluster \<Rightarrow> Store" where
  "three_and_new cr = (empty_store cr)\<lparr>nodes :=
     [shard_node cr 0 [\<lparr>Start = 0, End = 5460\<rparr>], shard_node cr 1 [\<lparr>Start = 5461, End = 10921\<rparr>],
      shard_node cr 2 [\<lparr>Start = 10922, End = 16383\<rparr>], shard_node cr 3 []]\<rparr>"

lemma shard_pods: "0 \<le> i \<Longrightarrow> 0 \<le> k \<Longrightarrow> i \<noteq> k \<Longrightarrow> PodFQDN cr i 0 \<noteq> PodFQDN cr k 0"
  using PodFQDN_inj_cluster [of i k 0 0 cr] by auto

lemma pods_distinct:
  "PodFQDN cr 0 0 \<noteq> PodFQDN cr 1 0" "PodFQDN cr 0 0 \<noteq> PodFQDN cr 2 0" "PodFQDN cr 0 0 \<noteq> PodFQDN cr 3 0"
  "PodFQDN cr 1 0 \<noteq> PodFQDN cr 0 0" "PodFQDN cr 1 0 \<noteq> PodFQDN cr 2 0" "PodFQDN cr 1 0 \<noteq> PodFQDN cr 3 0"
  "PodFQDN cr 2 0 \<noteq> PodFQDN cr 0 0" "PodFQDN cr 2 0 \<noteq> PodFQDN cr 1 0" "PodFQDN cr 2 0 \<noteq> PodFQDN cr 3 0"
  "PodFQDN cr 3 0 \<noteq> PodFQDN cr 0 0" "PodFQDN cr 3 0 \<noteq> PodFQDN cr 1 0" "PodFQDN cr 3 0 \<noteq> PodFQDN cr 2 0"
  by (simp_all add: shard_pods)

lemma pods_named: "[] \<noteq> PodFQDN cr i j"
  using PodFQDN_nonempty [of cr i j] by simp

lemma three_and_new_inv: "Fake_inv (three_and_new cr)"
  by (auto simp: pods_distinct pods_named three_and_new_def shard_node_def Fake_inv_def Fake_wf_def node_ok_def new_node_def zero_NodeInfo_def range_count_def
      split: if_splits)

lemma three_and_new_owned:
  "owned (Fake_view (three_and_new cr)) =
     (\<lambda>_. 0)(PodFQDN cr 0 0 := 5461, PodFQDN cr 1 0 := 5461, PodFQDN cr 2 0 := 5462)"
  by (auto simp: pods_distinct owned_def three_and_new_def shard_node_def SlotCount_eq range_count_def zero_NodeInfo_def new_node_def fun_eq_iff)


end
