(* ===== verification/Go_Memory.thy ===== *)
theory Go_Memory
  imports Prelude
begin

text \<open>
  Memory as Go sees it, for code whose purpose is what it does \<^emph>\<open>not\<close> share: every variable
  that \<^verbatim>\<open>new\<close> or \<^verbatim>\<open>make\<close> allocates is a cell that holds an array (of one element for \<^verbatim>\<open>new\<close>),
  a pointer names a cell and a place inside it (an element, a field of an element), a slice is a
  window of a cell. \<open>deref\<close>, \<open>assign\<close>, \<open>make\<close>, \<open>new\<close>, \<open>at\<close> and \<open>copy\<close> are the operations of
  the language; what the language checks at run time is a \<open>Panic\<close>.

  The locale \<open>deep_copyable\<close> is the contract of a \<^verbatim>\<open>DeepCopyInto\<close> method: the target gets a
  value that reads like the source and of which every part lies in cells allocated during the
  call. It is proved once for a field of a struct (\<open>field_step\<close>), for a slice of elements
  (\<open>slice_step\<close>) and for the \<^verbatim>\<open>DeepCopy\<close> method built on it (\<open>deep_copy_fresh\<close>).
\<close>

section \<open>Cells and pointers\<close>

record 'o Mem =
  brk :: nat
  cells :: "nat \<Rightarrow> 'o"

record ('o, 'v) ptr =
  addr :: nat
  peek :: "'o \<Rightarrow> 'v option"
  poke :: "'v \<Rightarrow> 'o \<Rightarrow> 'o"

definition load :: "('o, 'v) ptr \<Rightarrow> 'o Mem \<Rightarrow> 'v option" where
  "load p m = peek p (cells m (addr p))"

definition store :: "('o, 'v) ptr \<Rightarrow> 'v \<Rightarrow> 'o Mem \<Rightarrow> 'o Mem" where
  "store p v m = m\<lparr>cells := (cells m)(addr p := poke p v (cells m (addr p)))\<rparr>"

text \<open>\<^verbatim>\<open>*p\<close> and \<^verbatim>\<open>*p = v\<close>\<close>

definition deref :: "('o, 'v) ptr \<Rightarrow> ('o Mem, 'v) ioE" where
  "deref p = State (\<lambda>m. (case load p m of None \<Rightarrow> Inl (Panic ''invalid memory address'') | Some v \<Rightarrow> Inr v, m))"

definition assign :: "('o, 'v) ptr \<Rightarrow> 'v \<Rightarrow> ('o Mem, unit) ioE" where
  "assign p v = State (\<lambda>m. case load p m of
     None \<Rightarrow> (Inl (Panic ''invalid memory address''), m) | Some _ \<Rightarrow> (Inr (), store p v m))"

text \<open>\<^verbatim>\<open>&p.f\<close>, for the field with selector \<open>g\<close> and update \<open>u\<close>\<close>

definition field :: "('o, 's) ptr \<Rightarrow> ('s \<Rightarrow> 'f) \<Rightarrow> (('f \<Rightarrow> 'f) \<Rightarrow> 's \<Rightarrow> 's) \<Rightarrow> ('o, 'f) ptr" where
  "field p g u = \<lparr>addr = addr p, peek = (\<lambda>o1. map_option g (peek p o1)),
     poke = (\<lambda>v o1. case peek p o1 of None \<Rightarrow> o1 | Some s \<Rightarrow> poke p (u (\<lambda>_. v) s) o1)\<rparr>"

text \<open>What the arrays of one Go type look like in a cell.\<close>

record ('o, 'v) kind =
  unwrap :: "'o \<Rightarrow> 'v list option"
  wrap :: "'v list \<Rightarrow> 'o"

definition elem :: "('o, 'v) kind \<Rightarrow> nat \<Rightarrow> nat \<Rightarrow> ('o, 'v) ptr" where
  "elem K a i = \<lparr>addr = a,
     peek = (\<lambda>o1. case unwrap K o1 of None \<Rightarrow> None | Some xs \<Rightarrow> if i < length xs then Some (xs ! i) else None),
     poke = (\<lambda>v o1. case unwrap K o1 of None \<Rightarrow> o1 | Some xs \<Rightarrow> wrap K (xs[i := v]))\<rparr>"

section \<open>Slices and allocation\<close>

text \<open>A slice that is not nil; a field of slice type holds a \<open>slice option\<close>.\<close>

record slice =
  slBase :: nat
  slOff :: nat
  slLen :: nat

definition alloc :: "'o \<Rightarrow> 'o Mem \<Rightarrow> 'o Mem" where
  "alloc c m = m\<lparr>brk := brk m + 1, cells := (cells m)(brk m := c)\<rparr>"

definition make :: "('o, 'v) kind \<Rightarrow> 'v \<Rightarrow> nat \<Rightarrow> ('o Mem, slice) ioE" where
  "make K z n = State (\<lambda>m. (Inr \<lparr>slBase = brk m, slOff = 0, slLen = n\<rparr>, alloc (wrap K (replicate n z)) m))"

definition new :: "('o, 'v) kind \<Rightarrow> 'v \<Rightarrow> ('o Mem, ('o, 'v) ptr) ioE" where
  "new K z = bindE (make K z 1) (\<lambda>s. retE (elem K (slBase s) 0))"

text \<open>\<^verbatim>\<open>&s[i]\<close> of a slice that may be nil\<close>

definition at :: "('o, 'v) kind \<Rightarrow> slice option \<Rightarrow> nat \<Rightarrow> ('o Mem, ('o, 'v) ptr) ioE" where
  "at K s i = (case s of
     None \<Rightarrow> failE (Panic ''index out of range'')
   | Some t \<Rightarrow> if i < slLen t then retE (elem K (slBase t) (slOff t + i)) else failE (Panic ''index out of range''))"

definition len :: "slice option \<Rightarrow> nat" where
  "len s = (case s of None \<Rightarrow> 0 | Some t \<Rightarrow> slLen t)"

definition contents :: "('o, 'v) kind \<Rightarrow> 'o Mem \<Rightarrow> slice option \<Rightarrow> 'v list" where
  "contents K m s = (case s of
     None \<Rightarrow> []
   | Some t \<Rightarrow> (case unwrap K (cells m (slBase t)) of
       None \<Rightarrow> [] | Some xs \<Rightarrow> take (slLen t) (drop (slOff t) xs)))"

text \<open>\<^verbatim>\<open>copy(dst, src)\<close>: as many elements as both have, read before they are written.\<close>

definition copy :: "('o, 'v) kind \<Rightarrow> slice option \<Rightarrow> slice option \<Rightarrow> ('o Mem, unit) ioE" where
  "copy K dst src = State (\<lambda>m. (Inr (), case dst of
     None \<Rightarrow> m
   | Some t \<Rightarrow> (case unwrap K (cells m (slBase t)) of
       None \<Rightarrow> m
     | Some ys \<Rightarrow>
         let xs = take (slLen t) (contents K m src)
         in m\<lparr>cells := (cells m)(slBase t :=
              wrap K (take (slOff t) ys @ xs @ drop (slOff t + length xs) ys))\<rparr>)))"

section \<open>Laws of pointers\<close>

definition lens :: "('o, 'v) ptr \<Rightarrow> bool" where
  "lens p \<longleftrightarrow> (\<forall>o1 x. peek p o1 = Some x \<longrightarrow>
     poke p x o1 = o1 \<and> (\<forall>v. peek p (poke p v o1) = Some v \<and> (\<forall>u. poke p u (poke p v o1) = poke p u o1)))"

definition field_ok :: "('s \<Rightarrow> 'f) \<Rightarrow> (('f \<Rightarrow> 'f) \<Rightarrow> 's \<Rightarrow> 's) \<Rightarrow> bool" where
  "field_ok g u \<longleftrightarrow> (\<forall>s. u (\<lambda>_. g s) s = s \<and>
     (\<forall>v. g (u (\<lambda>_. v) s) = v \<and> (\<forall>w. u (\<lambda>_. w) (u (\<lambda>_. v) s) = u (\<lambda>_. w) s)))"

definition kind_ok :: "('o, 'v) kind \<Rightarrow> bool" where
  "kind_ok K \<longleftrightarrow> (\<forall>xs. unwrap K (wrap K xs) = Some xs) \<and> (\<forall>o1 xs. unwrap K o1 = Some xs \<longrightarrow> wrap K xs = o1)"

lemma lensD:
  assumes "lens p" "peek p o1 = Some x"
  shows "poke p x o1 = o1" "peek p (poke p v o1) = Some v" "poke p u (poke p v o1) = poke p u o1"
  using assms by (auto simp: lens_def)

lemma field_okD:
  assumes "field_ok g u"
  shows "u (\<lambda>_. g s) s = s" "g (u (\<lambda>_. v) s) = v" "u (\<lambda>_. w) (u (\<lambda>_. v) s) = u (\<lambda>_. w) s"
  using assms by (auto simp: field_ok_def)

lemma kind_okD:
  assumes "kind_ok K"
  shows "unwrap K (wrap K xs) = Some xs" "unwrap K o1 = Some xs \<Longrightarrow> wrap K xs = o1"
  using assms by (auto simp: kind_ok_def)

lemma addr_simps [simp]: "addr (field p g u) = addr p" "addr (elem K a i) = a"
  by (simp_all add: field_def elem_def)

lemma lens_elem: "kind_ok K \<Longrightarrow> lens (elem K a i)"
  by (auto simp: lens_def elem_def kind_okD split: option.splits if_splits)

lemma lens_field:
  assumes p: "lens p" and g: "field_ok g u"
  shows "lens (field p g u)"
proof -
  have "poke (field p g u) x o1 = o1 \<and> peek (field p g u) (poke (field p g u) v o1) = Some v \<and>
      poke (field p g u) w (poke (field p g u) v o1) = poke (field p g u) w o1"
    if "peek (field p g u) o1 = Some x" for o1 x v w
  proof -
    from that obtain s where s: "peek p o1 = Some s" "x = g s" by (auto simp: field_def)
    show ?thesis
      using s lensD [OF p s(1)] by (simp add: field_def field_okD [OF g])
  qed
  then show ?thesis unfolding lens_def by blast
qed

lemma load_field: "load (field p g u) m = map_option g (load p m)"
  by (simp add: load_def field_def)

lemma brk_store [simp]: "brk (store p v m) = brk m"
  by (simp add: store_def)

lemma cells_store: "cells (store p v m) a = (if a = addr p then poke p v (cells m a) else cells m a)"
  by (simp add: store_def)

lemma run_deref [simp]: "load p m = Some v \<Longrightarrow> run_state (deref p) m = (Inr v, m)"
  by (simp add: deref_def)

lemma run_assign [simp]: "load p m = Some x \<Longrightarrow> run_state (assign p v) m = (Inr (), store p v m)"
  by (simp add: assign_def)

section \<open>Growing memory\<close>

definition same :: "nat \<Rightarrow> nat \<Rightarrow> 'o Mem \<Rightarrow> 'o Mem \<Rightarrow> bool" where
  "same lo hi m m' \<longleftrightarrow> (\<forall>a. lo \<le> a \<and> a < hi \<longrightarrow> cells m' a = cells m a)"

definition grows :: "'o Mem \<Rightarrow> 'o Mem \<Rightarrow> bool" where
  "grows m m' \<longleftrightarrow> brk m \<le> brk m' \<and> same 0 (brk m) m m'"

lemma same_trans: "same lo hi m m1 \<Longrightarrow> same lo hi m1 m2 \<Longrightarrow> same lo hi m m2"
  by (simp add: same_def)

lemma same_sub: "same lo hi m m' \<Longrightarrow> lo \<le> lo' \<Longrightarrow> hi' \<le> hi \<Longrightarrow> same lo' hi' m m'"
  by (simp add: same_def)

lemma growsD: "grows m m' \<Longrightarrow> brk m \<le> brk m'" "grows m m' \<Longrightarrow> a < brk m \<Longrightarrow> cells m' a = cells m a"
  by (simp_all add: grows_def same_def)

lemma grows_same: "grows m m' \<Longrightarrow> hi \<le> brk m \<Longrightarrow> same lo hi m m'"
  by (simp add: grows_def same_def)

lemma grows_refl [simp]: "grows m m"
  by (simp add: grows_def same_def)

lemma grows_trans: "grows m m1 \<Longrightarrow> grows m1 m2 \<Longrightarrow> grows m m2"
  by (auto simp: grows_def same_def)

lemma grows_alloc [simp]: "grows m (alloc c m)"
  by (simp add: grows_def same_def alloc_def)

lemma alloc_simps [simp]: "brk (alloc c m) = Suc (brk m)" "cells (alloc c m) (brk m) = c"
  by (simp_all add: alloc_def)

lemma run_make [simp]: "run_state (make K z n) m =
    (Inr \<lparr>slBase = brk m, slOff = 0, slLen = n\<rparr>, alloc (wrap K (replicate n z)) m)"
  by (simp add: make_def)

lemma run_new [simp]: "run_state (new K z) m = (Inr (elem K (brk m) 0), alloc (wrap K [z]) m)"
  by (simp add: new_def run_bindE)

text \<open>
  A value of which all parts lie in the cells from \<open>lo\<close> up to \<open>hi\<close>: \<open>wf\<close> says so, and \<open>view\<close>
  reads the value those parts make up.
\<close>

locale footprint =
  fixes wf :: "nat \<Rightarrow> nat \<Rightarrow> 'o Mem \<Rightarrow> 'v \<Rightarrow> bool"
    and view :: "'o Mem \<Rightarrow> 'v \<Rightarrow> 'a"
  assumes inside: "wf lo hi m v \<Longrightarrow> same lo hi m m' \<Longrightarrow> wf lo hi m' v \<and> view m' v = view m v"
    and widen: "wf lo hi m v \<Longrightarrow> lo' \<le> lo \<Longrightarrow> hi \<le> hi' \<Longrightarrow> wf lo' hi' m v"
begin

lemma kept:
  assumes "wf lo hi m v" "same lo hi m m'"
  shows "wf lo hi m' v" "view m' v = view m v"
  using inside [OF assms] by blast+

lemma later:
  assumes "wf lo hi m v" "same lo' hi m m'" "lo' \<le> lo" "hi \<le> hi'"
  shows "wf lo' hi' m' v" "view m' v = view m v"
  using kept [OF widen [OF assms(1,3) order.refl] assms(2)] widen assms(4) by blast+

end

text \<open>
  Within a call that began in \<open>m\<close>: from \<open>M\<close> to \<open>M'\<close> nothing is lost of what the call has allocated, and
  \<open>v\<close> is a part, allocated by the call, that reads as \<open>y\<close>.
\<close>

definition advances :: "'o Mem \<Rightarrow> 'o Mem \<Rightarrow> 'o Mem \<Rightarrow> bool" where
  "advances m M M' \<longleftrightarrow> brk M \<le> brk M' \<and> same (brk m) (brk M) M M'"

definition part :: "(nat \<Rightarrow> nat \<Rightarrow> 'o Mem \<Rightarrow> 'v \<Rightarrow> bool) \<Rightarrow> ('o Mem \<Rightarrow> 'v \<Rightarrow> 'a) \<Rightarrow>
    'o Mem \<Rightarrow> 'o Mem \<Rightarrow> 'v \<Rightarrow> 'a \<Rightarrow> bool" where
  "part W view m M v y \<longleftrightarrow> W (brk m) (brk M) M v \<and> view M v = y"

lemma advances_refl: "advances m M M"
  by (simp add: advances_def same_def)

lemma advances_trans: "advances m M M1 \<Longrightarrow> advances m M1 M2 \<Longrightarrow> advances m M M2"
  by (auto simp: advances_def same_def)

context footprint
begin

lemma part_advances:
  assumes "part wf view m M v y" "advances m M M'"
  shows "part wf view m M' v y"
  using assms later [of "brk m" "brk M" M v "brk m" M' "brk M'"] by (simp add: part_def advances_def)

lemma part_wider:
  assumes "wf (brk M) (brk M') M' v" "view M' v = y" "brk m \<le> brk M"
  shows "part wf view m M' v y"
  using assms widen [OF assms(1,3) order.refl] by (simp add: part_def)

end

text \<open>
  The state of a \<^verbatim>\<open>DeepCopyInto\<close> from \<open>p\<close> to \<open>q\<close> that has begun in \<open>m\<close> with \<open>*p = x\<close> and has
  reached \<open>M\<close>: the target holds \<open>v\<close>, every other cell that existed is as it was. The parts of
  the source lie below \<open>b\<close>, and the target above.
\<close>

definition copying :: "('o, 'v) ptr \<Rightarrow> ('o, 'v) ptr \<Rightarrow> nat \<Rightarrow> 'o Mem \<Rightarrow> 'v \<Rightarrow> 'v \<Rightarrow> 'o Mem \<Rightarrow> bool" where
  "copying p q b m x v M \<longleftrightarrow> lens p \<and> lens q \<and> addr p < b \<and> b \<le> addr q \<and> addr q < brk m \<and>
     load p m = Some x \<and> load q m \<noteq> None \<and> grows (store q v m) M"

lemma copyingI:
  assumes "lens p" "lens q" "addr p < b" "b \<le> addr q" "addr q < brk m" "load p m = Some x" "load q m = Some y"
  shows "copying p q b m x y m"
proof -
  have "store q y m = m"
    using lensD(1) [OF assms(2)] assms(7) by (simp add: store_def load_def)
  with assms show ?thesis by (simp add: copying_def)
qed

lemma copying_source:
  assumes "copying p q b m x v M"
  shows "load p M = Some x" "same 0 b m M" "brk m \<le> brk M" "load q M = Some v" "addr p < b" "b \<le> addr q" "addr q < brk M"
proof -
  have g: "grows (store q v m) M" and ord: "addr p < b" "b \<le> addr q" "addr q < brk m" "lens q"
    and l: "load p m = Some x" "load q m \<noteq> None"
    using assms by (auto simp: copying_def)
  have c: "cells M a = cells (store q v m) a" if "a < brk m" for a
    using growsD(2) [OF g] that by simp
  show "load p M = Some x" using c [of "addr p"] ord l by (simp add: load_def cells_store)
  show "same 0 b m M" using c ord by (simp add: same_def cells_store)
  show "brk m \<le> brk M" using growsD(1) [OF g] by simp
  then show "addr q < brk M" using ord by simp
  show "load q M = Some v"
    using c [of "addr q"] ord l lensD(2) [OF ord(4)] by (auto simp: load_def cells_store)
qed (use assms in \<open>auto simp: copying_def\<close>)

lemma copying_grow: "copying p q b m x v M \<Longrightarrow> grows M M' \<Longrightarrow> copying p q b m x v M'"
  by (auto simp: copying_def intro: grows_trans)

lemma copying_outside:
  assumes "copying p q b m x v M" "brk m \<le> brk M'" "same 0 (brk m) M M'"
  shows "copying p q b m x v M'"
  using assms by (auto simp: copying_def grows_def same_def)

text \<open>Writing the target, or a field of it.\<close>

lemma store_grows:
  assumes "copying p q b m x v M" "grows (store q w M) M'"
  shows "copying p q b m x w M'"
proof -
  have g: "grows (store q v m) M" and q: "addr q < brk m" "lens q" "load q m \<noteq> None"
    using assms(1) by (auto simp: copying_def)
  have "poke q w (poke q v (cells m (addr q))) = poke q w (cells m (addr q))"
    using q(3) lensD(3) [OF q(2)] by (auto simp: load_def)
  then have "same 0 (brk m) (store q w m) (store q w M)"
    using growsD(2) [OF g] q(1) by (simp add: same_def cells_store)
  then have "grows (store q w m) (store q w M)"
    using growsD(1) [OF g] by (simp add: grows_def)
  then have "grows (store q w m) M'" using assms(2) by (rule grows_trans)
  then show ?thesis using assms(1) by (simp add: copying_def)
qed

lemma store_field:
  assumes "load q M = Some v"
  shows "store (field q g u) w M = store q (u (\<lambda>_. w) v) M"
  using assms by (simp add: store_def load_def field_def)

lemma copying_assign:
  assumes "copying p q b m x v M"
  shows "run_state (assign q w) M = (Inr (), store q w M)" "copying p q b m x w (store q w M)"
  using copying_source(4) [OF assms] store_grows [OF assms grows_refl] by simp_all

lemma copying_assign_field:
  assumes "copying p q b m x v M"
  shows "run_state (assign (field q g u) w) M = (Inr (), store q (u (\<lambda>_. w) v) M)"
    "copying p q b m x (u (\<lambda>_. w) v) (store q (u (\<lambda>_. w) v) M)"
  using copying_source(4) [OF assms] store_grows [OF assms grows_refl]
  by (simp_all add: load_field store_field)

section \<open>The contract of a deep copy\<close>

locale deep_copyable = footprint wf view
  for wf :: "nat \<Rightarrow> nat \<Rightarrow> 'o Mem \<Rightarrow> 'v \<Rightarrow> bool" and view :: "'o Mem \<Rightarrow> 'v \<Rightarrow> 'a" +
  fixes copy_into :: "('o, 'v) ptr \<Rightarrow> ('o, 'v) ptr \<Rightarrow> ('o Mem, unit) ioE"
  assumes copies: "copying p q b m x y m \<Longrightarrow> wf 0 b m x \<Longrightarrow>
    \<exists>v M. run_state (copy_into p q) m = (Inr (), M) \<and> copying p q b m x v M \<and>
      wf (brk m) (brk M) M v \<and> view M v = view m x"
begin

text \<open>A field of a struct that is being copied.\<close>

lemma field_step:
  assumes c: "copying p q b m s t M" and g: "field_ok g u" and x: "wf 0 b m (g s)"
  shows "\<exists>v M'. run_state (copy_into (field p g u) (field q g u)) M = (Inr (), M') \<and>
    copying p q b m s (u (\<lambda>_. v) t) M' \<and> advances m M M' \<and> part wf view m M' v (view m (g s))"
proof -
  note cs = copying_source [OF c]
  have "copying (field p g u) (field q g u) b M (g s) (g t) M"
    using cs c g by (intro copyingI) (auto simp: copying_def load_field lens_field)
  moreover have wf: "wf 0 b M (g s)" "view M (g s) = view m (g s)"
    using kept [OF x cs(2)] by auto
  ultimately obtain v M' where run: "run_state (copy_into (field p g u) (field q g u)) M = (Inr (), M')"
    and cp: "copying (field p g u) (field q g u) b M (g s) v M'"
    and v: "wf (brk M) (brk M') M' v" "view M' v = view M (g s)"
    using copies by blast
  have gr: "grows (store q (u (\<lambda>_. v) t) M) M'"
    using cp cs(4) by (simp add: copying_def store_field)
  have "same (brk m) (brk M) M M'"
    using growsD [OF gr] c by (auto simp: same_def cells_store copying_def)
  moreover have "brk M \<le> brk M'" using growsD(1) [OF gr] by simp
  ultimately have "advances m M M'" by (simp add: advances_def)
  moreover have "part wf view m M' v (view m (g s))" using part_wider [OF v(1) _ cs(3)] v(2) wf(2) by simp
  ultimately show ?thesis using run store_grows [OF c gr] by metis
qed

end

lemma whole_step:
  assumes "copying p q b m x y m"
  shows "run_state (bindE (deref p) (assign q)) m = (Inr (), store q x m)" "copying p q b m x x (store q x m)"
  using copying_assign [OF assms, of x] copying_source(1) [OF assms] by (simp_all add: run_bindE)

lemma value_step:
  assumes c: "copying p q b m s t M"
  shows "run_state (bindE (deref (field p g u)) (assign (field q g u))) M = (Inr (), store q (u (\<lambda>_. g s) t) M)"
    "copying p q b m s (u (\<lambda>_. g s) t) (store q (u (\<lambda>_. g s) t) M)"
    "advances m M (store q (u (\<lambda>_. g s) t) M)"
proof -
  show "copying p q b m s (u (\<lambda>_. g s) t) (store q (u (\<lambda>_. g s) t) M)" using copying_assign_field(2) [OF c] .
  show "run_state (bindE (deref (field p g u)) (assign (field q g u))) M = (Inr (), store q (u (\<lambda>_. g s) t) M)"
    using copying_assign_field(1) [OF c, of g u "g s"] copying_source(1) [OF c] by (simp add: run_bindE load_field)
  show "advances m M (store q (u (\<lambda>_. g s) t) M)"
    using c by (auto simp: advances_def same_def cells_store copying_def)
qed

text \<open>The \<^verbatim>\<open>DeepCopy\<close> method of a type with the given \<^verbatim>\<open>DeepCopyInto\<close>.\<close>

definition deep_copy :: "('o, 'v) kind \<Rightarrow> 'v \<Rightarrow> (('o, 'v) ptr \<Rightarrow> ('o, 'v) ptr \<Rightarrow> ('o Mem, unit) ioE) \<Rightarrow>
    ('o, 'v) ptr option \<Rightarrow> ('o Mem, ('o, 'v) ptr option) ioE" where
  "deep_copy K z copy_into p1 = (case p1 of
     None \<Rightarrow> retE None
   | Some p \<Rightarrow> bindE (new K z) (\<lambda>q. bindE (copy_into p q) (\<lambda>_. retE (Some q))))"

context deep_copyable
begin

lemma deep_copy_fresh:
  assumes K: "kind_ok K" and p: "lens p" "addr p < brk m" "load p m = Some x" and x: "wf 0 (brk m) m x"
  shows "\<exists>v M. run_state (deep_copy K z copy_into (Some p)) m = (Inr (Some (elem K (brk m) 0)), M) \<and>
    load (elem K (brk m) 0) M = Some v \<and> grows m M \<and> brk m < brk M \<and> wf (brk m) (brk M) M v \<and> view M v = view m x"
proof -
  let ?q = "elem K (brk m) 0" and ?m = "alloc (wrap K [z]) m"
  have a: "same 0 (brk m) m ?m" by (simp add: grows_same)
  have p': "load p ?m = Some x" using p a by (simp add: load_def same_def)
  have q: "load ?q ?m = Some z" by (simp add: load_def elem_def kind_okD [OF K])
  have "copying p ?q (brk m) ?m x z ?m"
    using p p' q lens_elem [OF K] by (intro copyingI) auto
  then obtain v M where run: "run_state (copy_into p ?q) ?m = (Inr (), M)"
    and c: "copying p ?q (brk m) ?m x v M" and v: "wf (brk ?m) (brk M) M v" "view M v = view ?m x"
    using copies kept(1) [OF x a] by blast
  note cs = copying_source [OF c]
  have "same 0 (brk m) m M" using a cs(2) by (rule same_trans)
  then have "grows m M" using cs(3) by (simp add: grows_def)
  moreover have "wf (brk m) (brk M) M v" using widen [OF v(1)] by simp
  moreover have "view M v = view m x" using v(2) kept(2) [OF x a] by simp
  moreover have "brk m < brk M" using cs(3) by simp
  ultimately show ?thesis using run cs(4)
    by (simp add: deep_copy_def run_bindE)
qed

end

text \<open>A struct lies where all its parts lie.\<close>

lemma footprint_pair:
  assumes "footprint W1 v1" "footprint W2 v2"
    and "\<And>lo hi m s. W lo hi m s \<longleftrightarrow> W1 lo hi m (g s) \<and> W2 lo hi m (h s)"
    and "\<And>m s. v m s = F s (v1 m (g s)) (v2 m (h s))"
  shows "footprint W v"
proof
  fix lo hi m m' s assume s: "W lo hi m s" and e: "same lo hi m m'"
  show "W lo hi m' s \<and> v m' s = v m s"
    using footprint.kept [OF assms(1) _ e] footprint.kept [OF assms(2) _ e] s by (simp add: assms(3,4))
next
  fix lo hi lo' hi' m s assume "W lo hi m s" "lo' \<le> lo" "hi \<le> hi'"
  then show "W lo' hi' m s"
    using footprint.widen [OF assms(1)] footprint.widen [OF assms(2)] unfolding assms(3) by blast
qed

lemma footprint_field:
  assumes "footprint W1 v1" "\<And>lo hi m s. W lo hi m s = W1 lo hi m (g s)" "\<And>m s. v m s = F s (v1 m (g s))"
  shows "footprint W v"
  by (rule footprint_pair [OF assms(1,1), where g = g and h = g and F = "\<lambda>s y _. F s y"]) (simp_all add: assms)

lemma footprint_triple:
  assumes "footprint W1 v1" "footprint W2 v2" "footprint W3 v3"
    and "\<And>lo hi m s. W lo hi m s \<longleftrightarrow> W1 lo hi m (g s) \<and> W2 lo hi m (h s) \<and> W3 lo hi m (k s)"
    and "\<And>m s. v m s = F s (v1 m (g s)) (v2 m (h s)) (v3 m (k s))"
  shows "footprint W v"
proof -
  have "footprint (\<lambda>lo hi m s. W2 lo hi m (h s) \<and> W3 lo hi m (k s)) (\<lambda>m s. (v2 m (h s), v3 m (k s)))"
    by (rule footprint_pair [OF assms(2,3) refl, where F = "\<lambda>_ y z. (y, z)"]) simp
  from footprint_pair [OF assms(1) this, where g = g and h = "\<lambda>s. s" and F = "\<lambda>s y z. F s y (fst z) (snd z)"]
  show ?thesis by (simp add: assms(4,5))
qed

section \<open>Apart\<close>

text \<open>
  \<open>q\<close> is a deep copy of \<open>p\<close>: it reads like \<open>p\<close>, nothing that existed was changed, writes
  outside the cells \<open>p\<close> is made of (those below \<open>brk m\<close>) do not show through \<open>p\<close>, and writes
  outside the new cells do not show through \<open>q\<close>.
\<close>

definition apart :: "('o Mem \<Rightarrow> 'v \<Rightarrow> 'a) \<Rightarrow> ('o, 'v) ptr \<Rightarrow> 'o Mem \<Rightarrow> ('o, 'v) ptr \<Rightarrow> 'o Mem \<Rightarrow> bool" where
  "apart view p m q M \<longleftrightarrow> (\<exists>x v. load p m = Some x \<and> load q M = Some v \<and>
     view M v = view m x \<and> same 0 (brk m) m M \<and>
     (\<forall>M'. same 0 (brk m) M M' \<longrightarrow> load p M' = Some x \<and> view M' x = view m x) \<and>
     (\<forall>M'. same (brk m) (brk M) M M' \<longrightarrow> load q M' = Some v \<and> view M' v = view m x))"

definition valid :: "(nat \<Rightarrow> nat \<Rightarrow> 'o Mem \<Rightarrow> 'v \<Rightarrow> bool) \<Rightarrow> ('o, 'v) ptr \<Rightarrow> 'o Mem \<Rightarrow> bool" where
  "valid W p m \<longleftrightarrow> lens p \<and> addr p < brk m \<and> (case load p m of None \<Rightarrow> False | Some x \<Rightarrow> W 0 (brk m) m x)"

context deep_copyable
begin

lemma deep_copy_apart:
  assumes K: "kind_ok K" and p: "valid wf p m"
  shows "\<exists>q M. run_state (deep_copy K z copy_into (Some p)) m = (Inr (Some q), M) \<and> apart view p m q M"
proof -
  obtain x where x: "lens p" "addr p < brk m" "load p m = Some x" "wf 0 (brk m) m x"
    using p by (auto simp: valid_def split: option.splits)
  let ?q = "elem K (brk m) 0"
  obtain v M where run: "run_state (deep_copy K z copy_into (Some p)) m = (Inr (Some ?q), M)"
    and q: "load ?q M = Some v" and g: "grows m M" "brk m < brk M" and v: "wf (brk m) (brk M) M v" "view M v = view m x"
    using deep_copy_fresh [OF K x] by blast
  have m: "same 0 (brk m) m M" using g(1) by (simp add: grows_def)
  have "load p M' = Some x \<and> view M' x = view m x" if "same 0 (brk m) M M'" for M'
    using kept(2) [OF x(4) same_trans [OF m that]] x(2,3) same_trans [OF m that] by (simp add: load_def same_def)
  moreover have "load ?q M' = Some v \<and> view M' v = view m x" if "same (brk m) (brk M) M M'" for M'
    using kept(2) [OF v(1) that] v(2) q g(2) that by (simp add: load_def same_def)
  ultimately have "apart view p m ?q M" using x(3) q v(2) m by (auto simp: apart_def)
  with run show ?thesis by blast
qed

end

section \<open>Slices of elements\<close>

text \<open>
  What the generated code does with a field of slice type: if it is not nil,
  \<^verbatim>\<open>*out = make([]T, len(*in))\<close> and then \<^verbatim>\<open>for i := range *in { (*in)[i].DeepCopyInto(&(*out)[i]) }\<close>.
\<close>

definition copy_slice :: "('o, 'v) kind \<Rightarrow> 'v \<Rightarrow> (('o, 'v) ptr \<Rightarrow> ('o, 'v) ptr \<Rightarrow> ('o Mem, unit) ioE) \<Rightarrow>
    ('o, slice option) ptr \<Rightarrow> ('o, slice option) ptr \<Rightarrow> ('o Mem, unit) ioE" where
  "copy_slice K z copy_into in1 out1 =
     bindE (deref in1) (\<lambda>s. if s = None then retE () else
     bindE (make K z (len s)) (\<lambda>t.
     bindE (assign out1 (Some t)) (\<lambda>_.
     forE [0..<len s] (\<lambda>i.
       bindE (deref in1) (\<lambda>s1. bindE (at K s1 i) (\<lambda>p.
       bindE (deref out1) (\<lambda>t1. bindE (at K t1 i) (\<lambda>q. copy_into p q))))))))"

text \<open>Elements without pointers are copied at once: \<^verbatim>\<open>*out = make([]T, len(*in)); copy(*out, *in)\<close>.\<close>

definition copy_plain :: "('o, 'v) kind \<Rightarrow> 'v \<Rightarrow> ('o, slice option) ptr \<Rightarrow> ('o, slice option) ptr \<Rightarrow> ('o Mem, unit) ioE" where
  "copy_plain K z in1 out1 =
     bindE (deref in1) (\<lambda>s. if s = None then retE () else
     bindE (make K z (len s)) (\<lambda>t.
     bindE (assign out1 (Some t)) (\<lambda>_.
     bindE (deref out1) (\<lambda>t1. bindE (deref in1) (\<lambda>s1. copy K t1 s1)))))"

definition wf_slice :: "('o, 'v) kind \<Rightarrow> nat \<Rightarrow> nat \<Rightarrow> 'o Mem \<Rightarrow> slice option \<Rightarrow> bool" where
  "wf_slice K lo hi m s = (case s of
     None \<Rightarrow> True
   | Some t \<Rightarrow> lo \<le> slBase t \<and> slBase t < hi \<and> (case unwrap K (cells m (slBase t)) of
       None \<Rightarrow> False | Some xs \<Rightarrow> slOff t + slLen t \<le> length xs))"

lemma wf_slice_contents:
  assumes "wf_slice K lo hi m s" "same lo hi m m'"
  shows "wf_slice K lo hi m' s \<and> contents K m' s = contents K m s"
  using assms by (auto simp: wf_slice_def contents_def same_def split: option.splits)

lemma wf_slice_widen: "wf_slice K lo hi m s \<Longrightarrow> lo' \<le> lo \<Longrightarrow> hi \<le> hi' \<Longrightarrow> wf_slice K lo' hi' m s"
  by (auto simp: wf_slice_def split: option.splits)

lemma slice_footprint: "footprint (wf_slice K) (contents K)"
  using wf_slice_contents wf_slice_widen by unfold_locales blast+

lemma contents_elem:
  assumes "wf_slice K lo hi m (Some s)" "i < slLen s"
  shows "load (elem K (slBase s) (slOff s + i)) m = Some (contents K m (Some s) ! i)"
    "length (contents K m (Some s)) = slLen s" "lo \<le> slBase s" "slBase s < hi"
  using assms by (auto simp: wf_slice_def contents_def load_def elem_def split: option.splits)

definition wf_elems :: "('o, 'v) kind \<Rightarrow> (nat \<Rightarrow> nat \<Rightarrow> 'o Mem \<Rightarrow> 'v \<Rightarrow> bool) \<Rightarrow> nat \<Rightarrow> nat \<Rightarrow> 'o Mem \<Rightarrow> slice option \<Rightarrow> bool" where
  "wf_elems K W lo hi m s \<longleftrightarrow> wf_slice K lo hi m s \<and> list_all (W lo hi m) (contents K m s)"

definition view_elems :: "('o, 'v) kind \<Rightarrow> ('o Mem \<Rightarrow> 'v \<Rightarrow> 'a) \<Rightarrow> 'o Mem \<Rightarrow> slice option \<Rightarrow> 'a list" where
  "view_elems K view m s = map (view m) (contents K m s)"

context footprint
begin

lemma elems: "footprint (wf_elems K wf) (view_elems K view)"
proof
  fix lo hi and m m' :: "'o Mem" and s
  assume s: "wf_elems K wf lo hi m s" and e: "same lo hi m m'"
  have "wf_slice K lo hi m' s" "contents K m' s = contents K m s"
    using wf_slice_contents s e unfolding wf_elems_def by blast+
  moreover have "wf lo hi m' v \<and> view m' v = view m v" if "v \<in> set (contents K m s)" for v
    using inside [OF _ e] s that by (auto simp: wf_elems_def list_all_iff)
  ultimately show "wf_elems K wf lo hi m' s \<and> view_elems K view m' s = view_elems K view m s"
    by (simp add: wf_elems_def view_elems_def list_all_iff)
next
  fix lo hi lo' hi' and m :: "'o Mem" and s
  assume "wf_elems K wf lo hi m s" "lo' \<le> lo" "hi \<le> hi'"
  then show "wf_elems K wf lo' hi' m s"
    using wf_slice_widen widen by (fastforce simp: wf_elems_def list_all_iff)
qed

end

text \<open>After some rounds of the loop: the new array \<open>a\<close> has the copies \<open>ws\<close>, still followed by \<open>zs\<close>.\<close>

definition filled :: "('o, 'v) kind \<Rightarrow> (nat \<Rightarrow> nat \<Rightarrow> 'o Mem \<Rightarrow> 'v \<Rightarrow> bool) \<Rightarrow> ('o Mem \<Rightarrow> 'v \<Rightarrow> 'a) \<Rightarrow>
    nat \<Rightarrow> 'o Mem \<Rightarrow> 'v list \<Rightarrow> 'a list \<Rightarrow> 'v list \<Rightarrow> 'o Mem \<Rightarrow> bool" where
  "filled K W view a m ws ys zs M \<longleftrightarrow> a < brk m \<and> brk m \<le> brk M \<and>
     (\<forall>c. c < brk m \<and> c \<noteq> a \<longrightarrow> cells M c = cells m c) \<and> cells M a = wrap K (ws @ zs) \<and>
     list_all2 (\<lambda>w y. W (Suc a) (brk M) M w \<and> view M w = y) ws ys"

lemma filled_same: "filled K W view a m ws ys zs M \<Longrightarrow> hi \<le> a \<Longrightarrow> same lo hi m M"
  by (auto simp: filled_def same_def)

context deep_copyable
begin

lemma fill_round:
  assumes K: "kind_ok K" and f: "filled K wf view a m ws ys (z # zs) M"
    and p: "lens p" "addr p < b" "b \<le> a" "load p m = Some x" and x: "wf 0 b m x"
  shows "\<exists>w M'. run_state (copy_into p (elem K a (length ws))) M = (Inr (), M') \<and>
    filled K wf view a m (ws @ [w]) (ys @ [view m x]) zs M'"
proof -
  let ?q = "elem K a (length ws)"
  have a: "a < brk m" "brk m \<le> brk M" and out: "cells M a = wrap K (ws @ z # zs)"
    and ws: "list_all2 (\<lambda>w y. wf (Suc a) (brk M) M w \<and> view M w = y) ws ys"
    using f by (auto simp: filled_def)
  have e: "same 0 b m M" using filled_same [OF f p(3)] .
  have "load p M = Some x" using p e by (simp add: load_def same_def)
  moreover have "load ?q M = Some z" by (simp add: load_def elem_def out kind_okD [OF K])
  ultimately have "copying p ?q b M x z M"
    using p a lens_elem [OF K] by (intro copyingI) auto
  then obtain w M' where run: "run_state (copy_into p ?q) M = (Inr (), M')"
    and c: "copying p ?q b M x w M'" and w: "wf (brk M) (brk M') M' w" "view M' w = view M x"
    using copies kept(1) [OF x e] by blast
  have g: "grows (store ?q w M) M'" using c by (simp add: copying_def)
  have cells: "cells M' k = cells (store ?q w M) k" if "k < brk M" for k
    using growsD(2) [OF g] that by simp
  have bM: "brk M \<le> brk M'" using growsD(1) [OF g] by simp
  have "cells M' a = wrap K ((ws @ [w]) @ zs)"
    using cells [of a] a by (simp add: cells_store elem_def out kind_okD [OF K])
  moreover have "\<forall>k. k < brk m \<and> k \<noteq> a \<longrightarrow> cells M' k = cells m k"
    using cells a f by (simp add: cells_store filled_def)
  moreover have "list_all2 (\<lambda>w y. wf (Suc a) (brk M') M' w \<and> view M' w = y) ws ys"
  proof (rule list_all2_mono [OF ws], elim conjE)
    fix u y assume u: "wf (Suc a) (brk M) M u" "view M u = y"
    have "same (Suc a) (brk M) M M'" using cells by (simp add: same_def cells_store)
    from kept [OF u(1) this] u(2) show "wf (Suc a) (brk M') M' u \<and> view M' u = y"
      using widen [OF _ order.refl bM] by simp
  qed
  moreover have "wf (Suc a) (brk M') M' w" using widen [OF w(1)] a by simp
  moreover have "view M' w = view m x" using w(2) kept(2) [OF x e] by simp
  ultimately have "filled K wf view a m (ws @ [w]) (ys @ [view m x]) zs M'"
    using a bM by (simp add: filled_def list_all2_appendI)
  with run show ?thesis by blast
qed

lemma fill_loop:
  assumes K: "kind_ok K" and s: "wf_elems K wf 0 b m (Some s)" and a: "b \<le> a" "a < brk m"
    and out: "cells m a = wrap K (replicate (slLen s) z)"
    and body: "\<And>i M. i < slLen s \<Longrightarrow> (\<And>c. c < brk m \<Longrightarrow> c \<noteq> a \<Longrightarrow> cells M c = cells m c) \<Longrightarrow>
      run_state (f i) M = run_state (copy_into (elem K (slBase s) (slOff s + i)) (elem K a i)) M"
  shows "n \<le> slLen s \<Longrightarrow> \<exists>ws M. run_state (forE [0..<n] f) m = (Inr (), M) \<and> length ws = n \<and>
    filled K wf view a m ws (map (view m) (take n (contents K m (Some s)))) (replicate (slLen s - n) z) M"
proof (induction n)
  case 0
  then show ?case using out a by (auto simp: filled_def)
next
  case (Suc n)
  let ?x = "contents K m (Some s) ! n" and ?p = "elem K (slBase s) (slOff s + n)"
  from Suc obtain ws M where run: "run_state (forE [0..<n] f) m = (Inr (), M)" and n: "length ws = n"
    and fl: "filled K wf view a m ws (map (view m) (take n (contents K m (Some s)))) (replicate (slLen s - n) z) M"
    by auto
  have sl: "wf_slice K 0 b m (Some s)" using s by (simp add: wf_elems_def)
  note el = contents_elem [OF sl, of n]
  have zs: "replicate (slLen s - n) z = z # replicate (slLen s - Suc n) z"
    using Suc.prems by (simp flip: replicate_Suc add: Suc_diff_Suc)
  have x: "wf 0 b m ?x" using s el(2) Suc.prems by (simp add: wf_elems_def list_all_length)
  obtain w M' where r: "run_state (copy_into ?p (elem K a n)) M = (Inr (), M')"
    and fl': "filled K wf view a m (ws @ [w]) (map (view m) (take n (contents K m (Some s))) @ [view m ?x])
      (replicate (slLen s - Suc n) z) M'"
    using fill_round [OF K fl [unfolded zs] lens_elem [OF K] _ a(1) _ x, of "slBase s" "slOff s + n"] el Suc.prems n
    by auto
  have "run_state (f n) M = (Inr (), M')"
    using body [of n M] fl r Suc.prems by (simp add: filled_def)
  then have "run_state (forE [0..<Suc n] f) m = (Inr (), M')"
    using run by (simp add: forE_append run_bindE)
  moreover have "take (Suc n) (contents K m (Some s)) = take n (contents K m (Some s)) @ [?x]"
    using el(2) Suc.prems by (simp add: take_Suc_conv_app_nth)
  ultimately show ?case using fl' n by (intro exI [of _ "ws @ [w]"] exI [of _ M']) simp
qed


end

text \<open>A field of slice type of a struct that is being copied.\<close>

lemma alloc_step:
  assumes c: "copying p q b m s t M" and K: "kind_ok K"
    and M2: "M2 = store q (u (\<lambda>_. w) t) (alloc (wrap K ys) M)"
  shows "copying p q b m s (u (\<lambda>_. w) t) M2" "brk M2 = Suc (brk M)" "cells M2 (brk M) = wrap K ys"
    "same (brk m) (brk M) M M2"
    "run_state (assign (field q g u) w) (alloc (wrap K ys) M) = (Inr (), M2)"
proof -
  let ?M1 = "alloc (wrap K ys) M"
  have c1: "copying p q b m s t ?M1" using c by (rule copying_grow) simp
  show "copying p q b m s (u (\<lambda>_. w) t) M2" using copying_assign_field(2) [OF c1] M2 by simp
  show "run_state (assign (field q g u) w) ?M1 = (Inr (), M2)"
    using copying_assign_field(1) [OF c1] M2 by simp
  show "brk M2 = Suc (brk M)" by (simp add: M2)
  have q: "addr q < brk m" "brk m \<le> brk M" using c copying_source(3) [OF c] by (auto simp: copying_def)
  then show "cells M2 (brk M) = wrap K ys" by (simp add: M2 cells_store)
  show "same (brk m) (brk M) M M2" using q by (auto simp: M2 same_def cells_store alloc_def)
qed

lemma nil_step:
  assumes c: "copying p q b m s t M" and g: "field_ok g u" and nil: "g t = g s" "g s = None"
  shows "run_state (bindE (deref (field p g u)) (\<lambda>s. if s = None then retE () else f s)) M = (Inr (), M)"
    "copying p q b m s (u (\<lambda>_. None) t) M"
proof -
  have "load (field p g u) M = Some None" using copying_source(1) [OF c] nil by (simp add: load_field)
  then show "run_state (bindE (deref (field p g u)) (\<lambda>s. if s = None then retE () else f s)) M = (Inr (), M)"
    by (simp add: run_bindE)
  have "u (\<lambda>_. None) t = t" using field_okD(1) [OF g, of t] nil by simp
  then show "copying p q b m s (u (\<lambda>_. None) t) M" using c by simp
qed

context deep_copyable
begin

lemma filled_elems:
  assumes K: "kind_ok K" and f: "filled K wf view a m ws ys [] M" and n: "length ws = n"
  shows "wf_elems K wf a (brk M) M (Some \<lparr>slBase = a, slOff = 0, slLen = n\<rparr>)"
    "view_elems K view M (Some \<lparr>slBase = a, slOff = 0, slLen = n\<rparr>) = ys"
proof -
  have ct: "contents K M (Some \<lparr>slBase = a, slOff = 0, slLen = n\<rparr>) = ws"
    and ws: "list_all2 (\<lambda>w y. wf (Suc a) (brk M) M w \<and> view M w = y) ws ys"
    and sl: "wf_slice K a (brk M) M (Some \<lparr>slBase = a, slOff = 0, slLen = n\<rparr>)"
    using f n by (simp_all add: filled_def contents_def wf_slice_def kind_okD [OF K])
  have "list_all (wf a (brk M) M) ws \<and> map (view M) ws = ys"
    using ws widen [of "Suc a" "brk M" M _ a "brk M"] by (induction rule: list_all2_induct) auto
  then show "wf_elems K wf a (brk M) M (Some \<lparr>slBase = a, slOff = 0, slLen = n\<rparr>)"
    "view_elems K view M (Some \<lparr>slBase = a, slOff = 0, slLen = n\<rparr>) = ys"
    using ct sl by (simp_all add: wf_elems_def view_elems_def)
qed

text \<open>The loop of \<open>copy_slice\<close>, which reads both slices anew in every round.\<close>

lemma slice_loop:
  assumes K: "kind_ok K" and c: "copying p q b m s t M" and g: "field_ok g u"
    and sl: "g s = Some sl" "wf_elems K wf 0 b m (Some sl)"
    and gt: "g t = Some \<lparr>slBase = a, slOff = 0, slLen = slLen sl\<rparr>" and a: "brk m \<le> a" "a < brk M"
    and out: "cells M a = wrap K (replicate (slLen sl) z)"
  shows "\<exists>ws M'. run_state (forE [0..<slLen sl] (\<lambda>i.
        bindE (deref (field p g u)) (\<lambda>s1. bindE (at K s1 i) (\<lambda>p1.
        bindE (deref (field q g u)) (\<lambda>t1. bindE (at K t1 i) (\<lambda>q1. copy_into p1 q1)))))) M = (Inr (), M') \<and>
      length ws = slLen sl \<and> filled K wf view a M ws (view_elems K view m (Some sl)) [] M'"
proof -
  note cs = copying_source [OF c]
  have root: "addr p < brk M" "addr q < brk M" "addr p \<noteq> a" "addr q \<noteq> a" "b \<le> a"
    using c cs(3) a by (auto simp: copying_def)
  have x: "wf_elems K wf 0 b M (Some sl)" "view_elems K view M (Some sl) = view_elems K view m (Some sl)"
    using footprint.kept [OF elems sl(2) cs(2)] by auto
  let ?f = "\<lambda>i. bindE (deref (field p g u)) (\<lambda>s1. bindE (at K s1 i) (\<lambda>p1.
      bindE (deref (field q g u)) (\<lambda>t1. bindE (at K t1 i) (\<lambda>q1. copy_into p1 q1))))"
  have body: "run_state (?f i) M3 = run_state (copy_into (elem K (slBase sl) (slOff sl + i)) (elem K a i)) M3"
    if i: "i < slLen sl" and eq: "\<And>k. k < brk M \<Longrightarrow> k \<noteq> a \<Longrightarrow> cells M3 k = cells M k" for i M3
  proof -
    have "load p M3 = Some s" "load q M3 = Some t"
      using cs(1,4) eq root by (simp_all add: load_def)
    then have "load (field p g u) M3 = Some (Some sl)"
      "load (field q g u) M3 = Some (Some \<lparr>slBase = a, slOff = 0, slLen = slLen sl\<rparr>)"
      using sl(1) gt by (simp_all add: load_field)
    with i show ?thesis by (simp add: run_bindE at_def)
  qed
  have tk: "take (slLen sl) (contents K M (Some sl)) = contents K M (Some sl)"
    by (auto simp: contents_def split: option.splits)
  have "\<exists>ws M'. run_state (forE [0..<slLen sl] ?f) M = (Inr (), M') \<and> length ws = slLen sl \<and>
      filled K wf view a M ws (map (view M) (take (slLen sl) (contents K M (Some sl)))) (replicate (slLen sl - slLen sl) z) M'"
    by (rule fill_loop [OF K x(1) root(5) a(2) out _ order.refl]) (rule body)
  then show ?thesis using x(2) tk by (simp only: view_elems_def diff_self_eq_0 replicate_0)
qed

lemma slice_step:
  assumes K: "kind_ok K" and c: "copying p q b m s t M" and g: "field_ok g u" and gt: "g t = g s"
    and x: "wf_elems K wf 0 b m (g s)"
  shows "\<exists>v M'. run_state (copy_slice K z copy_into (field p g u) (field q g u)) M = (Inr (), M') \<and>
    copying p q b m s (u (\<lambda>_. v) t) M' \<and> advances m M M' \<and>
    part (wf_elems K wf) (view_elems K view) m M' v (view_elems K view m (g s))"
proof (cases "g s")
  case None
  then show ?thesis
    using nil_step [OF c g gt] by (intro exI [of _ None] exI [of _ M])
      (simp add: copy_slice_def part_def wf_elems_def wf_slice_def view_elems_def contents_def advances_refl)
next
  case (Some sl)
  let ?t = "\<lparr>slBase = brk M, slOff = 0, slLen = slLen sl\<rparr>" and ?ys = "replicate (slLen sl) z"
  define M2 where "M2 = store q (u (\<lambda>_. Some ?t) t) (alloc (wrap K ?ys) M)"
  note al = alloc_step [where u = u and w = "Some ?t", OF c K M2_def]
  have brk: "brk m \<le> brk M" using copying_source(3) [OF c] .
  obtain ws M' where run: "run_state (forE [0..<slLen sl] (\<lambda>i.
        bindE (deref (field p g u)) (\<lambda>s1. bindE (at K s1 i) (\<lambda>p1.
        bindE (deref (field q g u)) (\<lambda>t1. bindE (at K t1 i) (\<lambda>q1. copy_into p1 q1)))))) M2 = (Inr (), M')"
    and n: "length ws = slLen sl" and f: "filled K wf view (brk M) M2 ws (view_elems K view m (Some sl)) [] M'"
    using slice_loop [OF K al(1) g Some x [unfolded Some] field_okD(2) [OF g] brk _ al(3)] al(2) by auto
  have M': "same 0 (brk M) M2 M'" "Suc (brk M) \<le> brk M'"
    using filled_same [OF f order.refl] f al(2) by (auto simp: filled_def)
  have "copying p q b m s (u (\<lambda>_. Some ?t) t) M'"
    using al(1) by (rule copying_outside) (use M' brk in \<open>auto intro: same_sub\<close>)
  moreover have "advances m M M'"
    using al(4) same_sub [OF M'(1)] M'(2) by (auto simp: advances_def intro: same_trans)
  moreover have "run_state (copy_slice K z copy_into (field p g u) (field q g u)) M = (Inr (), M')"
    using copying_source(1) [OF c] Some al(5) run by (simp add: copy_slice_def run_bindE load_field len_def)
  ultimately show ?thesis
    using footprint.part_wider [OF elems filled_elems [OF K f n] brk] Some
    by (intro exI [of _ "Some ?t"] exI [of _ M']) simp
qed

end

section \<open>Slices without pointers\<close>

text \<open>A value that lies in its place as a whole is copied by \<^verbatim>\<open>*out = *in\<close>.\<close>

definition plain :: "nat \<Rightarrow> nat \<Rightarrow> 'o Mem \<Rightarrow> 'v \<Rightarrow> bool" where
  "plain lo hi m v = True"

lemma plain_copyable:
  fixes D :: "('o, 'v) ptr \<Rightarrow> ('o, 'v) ptr \<Rightarrow> ('o Mem, unit) ioE"
  assumes "\<And>p q. D p q = bindE (deref p) (assign q)"
  shows "deep_copyable plain (\<lambda>_. f) D"
proof
  fix p q :: "('o, 'v) ptr" and b m x y assume "copying p q b m x y m"
  from whole_step [OF this]
  show "\<exists>v M. run_state (D p q) m = (Inr (), M) \<and> copying p q b m x v M \<and> plain (brk m) (brk M) M v \<and> f v = f x"
    by (auto simp: assms plain_def)
qed (simp_all add: plain_def)

lemma plain_step:
  assumes K: "kind_ok K" and c: "copying p q b m s t M" and g: "field_ok g u" and gt: "g t = g s"
    and x: "wf_slice K 0 b m (g s)"
  shows "\<exists>v M'. run_state (copy_plain K z (field p g u) (field q g u)) M = (Inr (), M') \<and>
    copying p q b m s (u (\<lambda>_. v) t) M' \<and> advances m M M' \<and>
    part (wf_slice K) (contents K) m M' v (contents K m (g s))"
proof (cases "g s")
  case None
  then show ?thesis
    using nil_step [OF c g gt] by (intro exI [of _ None] exI [of _ M])
      (simp add: copy_plain_def part_def wf_slice_def contents_def advances_refl)
next
  case (Some sl)
  let ?t = "\<lparr>slBase = brk M, slOff = 0, slLen = slLen sl\<rparr>" and ?ys = "replicate (slLen sl) z"
    and ?xs = "contents K m (Some sl)"
  define M2 where "M2 = store q (u (\<lambda>_. Some ?t) t) (alloc (wrap K ?ys) M)"
  define M' where "M' = M2\<lparr>cells := (cells M2)(brk M := wrap K ?xs)\<rparr>"
  note al = alloc_step [where u = u and w = "Some ?t", OF c K M2_def] and src = copying_source [OF al(1)]
  have n: "length ?xs = slLen sl" using x Some by (auto simp: wf_slice_def contents_def split: option.splits)
  have xs: "contents K M2 (Some sl) = ?xs" using wf_slice_contents [OF x src(2)] Some by simp
  have "run_state (copy K (Some ?t) (Some sl)) M2 = (Inr (), M')"
    by (simp add: copy_def M'_def al(3) xs n kind_okD [OF K] Let_def)
  then have "run_state (copy_plain K z (field p g u) (field q g u)) M = (Inr (), M')"
    using copying_source(1) [OF c] Some src(1,4) al(5)
    by (simp add: copy_plain_def run_bindE load_field len_def field_okD [OF g])
  moreover have brk: "brk M' = Suc (brk M)" "brk m \<le> brk M" using al(2) copying_source(3) [OF c] by (simp_all add: M'_def)
  moreover have "copying p q b m s (u (\<lambda>_. Some ?t) t) M'"
    using al(1) by (rule copying_outside) (use brk in \<open>auto simp: same_def M'_def\<close>)
  moreover have "advances m M M'" using al(4) brk by (simp add: advances_def same_def M'_def)
  moreover have "part (wf_slice K) (contents K) m M' (Some ?t) ?xs"
    using n brk by (simp add: part_def wf_slice_def contents_def M'_def kind_okD [OF K])
  ultimately show ?thesis using Some by (intro exI [of _ "Some ?t"] exI [of _ M']) simp
qed

section \<open>Pointers to plain values\<close>

text \<open>
  A field that holds a pointer: nil, or a cell and an index into it. The generated code for it
  is \<^verbatim>\<open>if in.F != nil { in, out := &in.F, &out.F; *out = new(T); **out = **in }\<close>.
\<close>

type_synonym loc = "nat \<times> nat"

definition star :: "('o, 'v) kind \<Rightarrow> loc option \<Rightarrow> ('o Mem, ('o, 'v) ptr) ioE" where
  "star K r = (case r of
     None \<Rightarrow> failE (Panic ''nil pointer dereference'')
   | Some (a, i) \<Rightarrow> retE (elem K a i))"

definition copy_pointer :: "('o, 'v) kind \<Rightarrow> 'v \<Rightarrow> ('o, loc option) ptr \<Rightarrow> ('o, loc option) ptr \<Rightarrow> ('o Mem, unit) ioE" where
  "copy_pointer K z in1 out1 =
     bindE (deref in1) (\<lambda>r. if r = None then retE () else
     bindE (new K z) (\<lambda>n. bindE (assign out1 (Some (addr n, 0))) (\<lambda>_.
     bindE (deref in1) (\<lambda>r1. bindE (star K r1) (\<lambda>i. bindE (deref i) (\<lambda>v.
     bindE (deref out1) (\<lambda>r2. bindE (star K r2) (\<lambda>o1. assign o1 v))))))))"

definition wf_loc :: "('o, 'v) kind \<Rightarrow> nat \<Rightarrow> nat \<Rightarrow> 'o Mem \<Rightarrow> loc option \<Rightarrow> bool" where
  "wf_loc K lo hi m r = (case r of
     None \<Rightarrow> True | Some (a, i) \<Rightarrow> lo \<le> a \<and> a < hi \<and> load (elem K a i) m \<noteq> None)"

definition view_loc :: "('o, 'v) kind \<Rightarrow> 'o Mem \<Rightarrow> loc option \<Rightarrow> 'v option" where
  "view_loc K m r = (case r of None \<Rightarrow> None | Some (a, i) \<Rightarrow> load (elem K a i) m)"

lemma loc_footprint: "footprint (wf_loc K) (view_loc K)"
  by unfold_locales (auto simp: wf_loc_def view_loc_def load_def same_def split: option.splits)

lemma pointer_step:
  assumes K: "kind_ok K" and c: "copying p q b m s t M" and g: "field_ok g u" and gt: "g t = g s"
    and x: "wf_loc K 0 b m (g s)"
  shows "\<exists>v M'. run_state (copy_pointer K z (field p g u) (field q g u)) M = (Inr (), M') \<and>
    copying p q b m s (u (\<lambda>_. v) t) M' \<and> advances m M M' \<and> part (wf_loc K) (view_loc K) m M' v (view_loc K m (g s))"
proof (cases "g s")
  case None
  then show ?thesis
    using nil_step [OF c g gt] by (intro exI [of _ None] exI [of _ M])
      (simp add: copy_pointer_def part_def wf_loc_def view_loc_def advances_refl)
next
  case (Some r)
  obtain a i where r: "r = (a, i)" by fastforce
  obtain v where v: "load (elem K a i) m = Some v" "a < b" using x Some r by (auto simp: wf_loc_def)
  let ?t = "Some (brk M, 0)" and ?q = "elem K (brk M) 0"
  define M2 where "M2 = store q (u (\<lambda>_. ?t) t) (alloc (wrap K [z]) M)"
  define M' where "M' = store ?q v M2"
  note al = alloc_step [where u = u and w = ?t, OF c K M2_def] and src = copying_source [OF al(1)]
  have "load (elem K a i) M2 = Some v" using v src(2) by (simp add: load_def same_def)
  moreover have q: "load ?q M2 = Some z" using al(3) by (simp add: load_def elem_def kind_okD [OF K])
  ultimately have "run_state (copy_pointer K z (field p g u) (field q g u)) M = (Inr (), M')"
    using copying_source(1) [OF c] Some r src(1,4) al(5)
    by (simp add: copy_pointer_def star_def run_bindE load_field field_okD [OF g] M'_def)
  moreover have brk: "brk M' = Suc (brk M)" "brk m \<le> brk M" using al(2) copying_source(3) [OF c] by (simp_all add: M'_def)
  moreover have "copying p q b m s (u (\<lambda>_. ?t) t) M'"
    using al(1) by (rule copying_outside) (use brk in \<open>auto simp: same_def M'_def cells_store\<close>)
  moreover have "advances m M M'" using al(4) brk by (simp add: advances_def same_def M'_def cells_store)
  moreover have "load ?q M' = Some v"
    using q lensD(2) [OF lens_elem [OF K]] by (simp add: M'_def load_def cells_store)
  ultimately show ?thesis using Some r v by (intro exI [of _ ?t] exI [of _ M']) (simp add: part_def wf_loc_def view_loc_def)
qed

end
