(* ===== verification/Deep_Copies.thy ===== *)
theory Deep_Copies
  imports Go_Memory Api_Types
begin

text \<open>
  \<^verbatim>\<open>api/v1alpha1/zz_generated.deepcopy.go\<close>. The rest of the development passes resources around
  as values, while the Go program passes pointers into a cache it shares with other workers and
  relies on the generated copies to be apart from it. Here the structs are as they lie in
  memory, with pointers and slices (\<open>gHAPolicy\<close> and so on), the methods work on pointers, and
  \<open>view\<close> functions read a struct back as the value the other theories use.

  The structs of the Kubernetes libraries (\<^verbatim>\<open>Quantity\<close>, \<^verbatim>\<open>ResourceRequirements\<close>,
  \<^verbatim>\<open>ObjectMeta\<close>, \<^verbatim>\<open>ListMeta\<close>, \<^verbatim>\<open>Condition\<close>) are of a type parameter \<open>'x\<close>, their zero values and
  copying methods a record \<open>Library\<close>, and \<open>library_laws\<close> is what their documentation says of the
  methods.
\<close>

section \<open>The structs in memory\<close>

record gHAPolicy =
  gMinReplicasToWrite :: int32
  gRequireFullCoverage :: "loc option"
  gClusterNodeTimeoutMillis :: int32

record gShardStatus =
  gIndex :: int32
  gPrimaryPod :: string
  gPrimaryNodeID :: string
  gSlots :: string
  gReadyReplicas :: int32
  gNodeIDs :: "slice option"

record gValkeyClusterStatus =
  gPhase :: string
  gObservedGeneration :: int64
  gReadyShards :: int32
  gStatusShards :: "slice option"
  gConditions :: "slice option"

record 'x gStorageSpec =
  gSize :: 'x
  gStorageClassName :: string

record 'x gValkeyClusterSpec =
  gShards :: int32
  gReplicasPerShard :: int32
  gImage :: string
  gStorage :: "'x gStorageSpec"
  gResources :: 'x
  gPersistence :: PersistenceSpec
  gPerformance :: PerformanceSpec
  gPolicy :: gHAPolicy

record TypeMeta =
  Kind :: string
  APIVersion :: string

record 'x gValkeyCluster =
  gTypeMeta :: TypeMeta
  gObjectMeta :: 'x
  gSpec :: "'x gValkeyClusterSpec"
  gStatus :: gValkeyClusterStatus

record 'x gValkeyClusterList =
  gListTypeMeta :: TypeMeta
  gListMeta :: 'x
  gItems :: "slice option"

text \<open>What a cell holds: an array of one Go type, or something of the libraries.\<close>

datatype 'x cell =
    Bools "bool list"
  | Strings "string list"
  | HAPolicies "gHAPolicy list"
  | Performances "PerformanceSpec list"
  | Persistences "PersistenceSpec list"
  | ShardStatuses "gShardStatus list"
  | Storages "'x gStorageSpec list"
  | Specs "'x gValkeyClusterSpec list"
  | Statuses "gValkeyClusterStatus list"
  | Clusters "'x gValkeyCluster list"
  | ClusterLists "'x gValkeyClusterList list"
  | Conds "'x list"
  | Foreign 'x

definition Bool_k :: "('x cell, bool) kind" where
  "Bool_k = \<lparr>unwrap = (\<lambda>c. case c of Bools xs \<Rightarrow> Some xs | _ \<Rightarrow> None), wrap = Bools\<rparr>"

definition String_k :: "('x cell, string) kind" where
  "String_k = \<lparr>unwrap = (\<lambda>c. case c of Strings xs \<Rightarrow> Some xs | _ \<Rightarrow> None), wrap = Strings\<rparr>"

definition HAPolicy_k :: "('x cell, gHAPolicy) kind" where
  "HAPolicy_k = \<lparr>unwrap = (\<lambda>c. case c of HAPolicies xs \<Rightarrow> Some xs | _ \<Rightarrow> None), wrap = HAPolicies\<rparr>"

definition Performance_k :: "('x cell, PerformanceSpec) kind" where
  "Performance_k = \<lparr>unwrap = (\<lambda>c. case c of Performances xs \<Rightarrow> Some xs | _ \<Rightarrow> None), wrap = Performances\<rparr>"

definition Persistence_k :: "('x cell, PersistenceSpec) kind" where
  "Persistence_k = \<lparr>unwrap = (\<lambda>c. case c of Persistences xs \<Rightarrow> Some xs | _ \<Rightarrow> None), wrap = Persistences\<rparr>"

definition ShardStatus_k :: "('x cell, gShardStatus) kind" where
  "ShardStatus_k = \<lparr>unwrap = (\<lambda>c. case c of ShardStatuses xs \<Rightarrow> Some xs | _ \<Rightarrow> None), wrap = ShardStatuses\<rparr>"

definition Storage_k :: "('x cell, 'x gStorageSpec) kind" where
  "Storage_k = \<lparr>unwrap = (\<lambda>c. case c of Storages xs \<Rightarrow> Some xs | _ \<Rightarrow> None), wrap = Storages\<rparr>"

definition Spec_k :: "('x cell, 'x gValkeyClusterSpec) kind" where
  "Spec_k = \<lparr>unwrap = (\<lambda>c. case c of Specs xs \<Rightarrow> Some xs | _ \<Rightarrow> None), wrap = Specs\<rparr>"

definition Status_k :: "('x cell, gValkeyClusterStatus) kind" where
  "Status_k = \<lparr>unwrap = (\<lambda>c. case c of Statuses xs \<Rightarrow> Some xs | _ \<Rightarrow> None), wrap = Statuses\<rparr>"

definition Cluster_k :: "('x cell, 'x gValkeyCluster) kind" where
  "Cluster_k = \<lparr>unwrap = (\<lambda>c. case c of Clusters xs \<Rightarrow> Some xs | _ \<Rightarrow> None), wrap = Clusters\<rparr>"

definition ClusterList_k :: "('x cell, 'x gValkeyClusterList) kind" where
  "ClusterList_k = \<lparr>unwrap = (\<lambda>c. case c of ClusterLists xs \<Rightarrow> Some xs | _ \<Rightarrow> None), wrap = ClusterLists\<rparr>"

definition Cond_k :: "('x cell, 'x) kind" where
  "Cond_k = \<lparr>unwrap = (\<lambda>c. case c of Conds xs \<Rightarrow> Some xs | _ \<Rightarrow> None), wrap = Conds\<rparr>"

lemmas kind_defs = Bool_k_def String_k_def HAPolicy_k_def Performance_k_def Persistence_k_def ShardStatus_k_def
  Storage_k_def Spec_k_def Status_k_def Cluster_k_def ClusterList_k_def Cond_k_def

lemma kinds_ok [simp]:
  "kind_ok Bool_k" "kind_ok String_k" "kind_ok HAPolicy_k" "kind_ok Performance_k" "kind_ok Persistence_k"
  "kind_ok ShardStatus_k" "kind_ok Storage_k" "kind_ok Spec_k" "kind_ok Status_k" "kind_ok Cluster_k"
  "kind_ok ClusterList_k" "kind_ok Cond_k"
  by (auto simp: kind_ok_def kind_defs split: cell.splits)

section \<open>Zero values\<close>

definition zeroHAPolicy :: gHAPolicy where
  "zeroHAPolicy = \<lparr>gMinReplicasToWrite = 0, gRequireFullCoverage = None, gClusterNodeTimeoutMillis = 0\<rparr>"

definition zeroPerformance :: PerformanceSpec where
  "zeroPerformance = \<lparr>IOThreads = 0, MaxmemoryPolicy = []\<rparr>"

definition zeroPersistence :: PersistenceSpec where
  "zeroPersistence = \<lparr>Mode = [], AppendFsync = []\<rparr>"

definition zeroShardStatus :: gShardStatus where
  "zeroShardStatus = \<lparr>gIndex = 0, gPrimaryPod = [], gPrimaryNodeID = [], gSlots = [], gReadyReplicas = 0, gNodeIDs = None\<rparr>"

definition zeroStatus :: gValkeyClusterStatus where
  "zeroStatus = \<lparr>gPhase = [], gObservedGeneration = 0, gReadyShards = 0, gStatusShards = None, gConditions = None\<rparr>"

definition zeroTypeMeta :: TypeMeta where
  "zeroTypeMeta = \<lparr>Kind = [], APIVersion = []\<rparr>"

text \<open>The libraries: zero values and the copying methods of their structs.\<close>

record 'x Library =
  zeroQuantity :: 'x
  zeroResources :: 'x
  zeroObjectMeta :: 'x
  zeroListMeta :: 'x
  zeroCondition :: 'x
  Quantity_DeepCopy :: "'x \<Rightarrow> ('x cell Mem, 'x) ioE"
  ResourceRequirements_DeepCopyInto :: "('x cell, 'x) ptr \<Rightarrow> ('x cell, 'x) ptr \<Rightarrow> ('x cell Mem, unit) ioE"
  ObjectMeta_DeepCopyInto :: "('x cell, 'x) ptr \<Rightarrow> ('x cell, 'x) ptr \<Rightarrow> ('x cell Mem, unit) ioE"
  ListMeta_DeepCopyInto :: "('x cell, 'x) ptr \<Rightarrow> ('x cell, 'x) ptr \<Rightarrow> ('x cell Mem, unit) ioE"
  Condition_DeepCopyInto :: "('x cell, 'x) ptr \<Rightarrow> ('x cell, 'x) ptr \<Rightarrow> ('x cell Mem, unit) ioE"

definition zeroStorage :: "'x Library \<Rightarrow> 'x gStorageSpec" where
  "zeroStorage L = \<lparr>gSize = zeroQuantity L, gStorageClassName = []\<rparr>"

definition zeroSpec :: "'x Library \<Rightarrow> 'x gValkeyClusterSpec" where
  "zeroSpec L = \<lparr>gShards = 0, gReplicasPerShard = 0, gImage = [], gStorage = zeroStorage L,
     gResources = zeroResources L, gPersistence = zeroPersistence, gPerformance = zeroPerformance,
     gPolicy = zeroHAPolicy\<rparr>"

definition zeroCluster :: "'x Library \<Rightarrow> 'x gValkeyCluster" where
  "zeroCluster L = \<lparr>gTypeMeta = zeroTypeMeta, gObjectMeta = zeroObjectMeta L, gSpec = zeroSpec L, gStatus = zeroStatus\<rparr>"

definition zeroClusterList :: "'x Library \<Rightarrow> 'x gValkeyClusterList" where
  "zeroClusterList L = \<lparr>gListTypeMeta = zeroTypeMeta, gListMeta = zeroListMeta L, gItems = None\<rparr>"

section \<open>The generated methods\<close>

definition HAPolicy_DeepCopyInto :: "('x cell, gHAPolicy) ptr \<Rightarrow> ('x cell, gHAPolicy) ptr \<Rightarrow> ('x cell Mem, unit) ioE" where
  "HAPolicy_DeepCopyInto in1 out1 =
     bindE (bindE (deref in1) (assign out1)) (\<lambda>_.
     copy_pointer Bool_k False
       (field in1 gRequireFullCoverage gRequireFullCoverage_update)
       (field out1 gRequireFullCoverage gRequireFullCoverage_update))"

definition HAPolicy_DeepCopy :: "('x cell, gHAPolicy) ptr option \<Rightarrow> ('x cell Mem, ('x cell, gHAPolicy) ptr option) ioE" where
  "HAPolicy_DeepCopy = deep_copy HAPolicy_k zeroHAPolicy HAPolicy_DeepCopyInto"

definition PerformanceSpec_DeepCopyInto :: "('x cell, PerformanceSpec) ptr \<Rightarrow> ('x cell, PerformanceSpec) ptr \<Rightarrow> ('x cell Mem, unit) ioE" where
  "PerformanceSpec_DeepCopyInto in1 out1 = bindE (deref in1) (assign out1)"

definition PerformanceSpec_DeepCopy :: "('x cell, PerformanceSpec) ptr option \<Rightarrow> ('x cell Mem, ('x cell, PerformanceSpec) ptr option) ioE" where
  "PerformanceSpec_DeepCopy = deep_copy Performance_k zeroPerformance PerformanceSpec_DeepCopyInto"

definition PersistenceSpec_DeepCopyInto :: "('x cell, PersistenceSpec) ptr \<Rightarrow> ('x cell, PersistenceSpec) ptr \<Rightarrow> ('x cell Mem, unit) ioE" where
  "PersistenceSpec_DeepCopyInto in1 out1 = bindE (deref in1) (assign out1)"

definition PersistenceSpec_DeepCopy :: "('x cell, PersistenceSpec) ptr option \<Rightarrow> ('x cell Mem, ('x cell, PersistenceSpec) ptr option) ioE" where
  "PersistenceSpec_DeepCopy = deep_copy Persistence_k zeroPersistence PersistenceSpec_DeepCopyInto"

definition ShardStatus_DeepCopyInto :: "('x cell, gShardStatus) ptr \<Rightarrow> ('x cell, gShardStatus) ptr \<Rightarrow> ('x cell Mem, unit) ioE" where
  "ShardStatus_DeepCopyInto in1 out1 =
     bindE (bindE (deref in1) (assign out1)) (\<lambda>_.
     copy_plain String_k [] (field in1 gNodeIDs gNodeIDs_update) (field out1 gNodeIDs gNodeIDs_update))"

definition ShardStatus_DeepCopy :: "('x cell, gShardStatus) ptr option \<Rightarrow> ('x cell Mem, ('x cell, gShardStatus) ptr option) ioE" where
  "ShardStatus_DeepCopy = deep_copy ShardStatus_k zeroShardStatus ShardStatus_DeepCopyInto"

text \<open>\<^verbatim>\<open>out.Size = in.Size.DeepCopy()\<close>: the method of the value, not of its address.\<close>

definition StorageSpec_DeepCopyInto :: "'x Library \<Rightarrow> ('x cell, 'x gStorageSpec) ptr \<Rightarrow> ('x cell, 'x gStorageSpec) ptr \<Rightarrow> ('x cell Mem, unit) ioE" where
  "StorageSpec_DeepCopyInto L in1 out1 =
     bindE (bindE (deref in1) (assign out1)) (\<lambda>_.
     bindE (deref (field in1 gSize gSize_update)) (\<lambda>size.
     bindE (Quantity_DeepCopy L size) (\<lambda>size1.
     assign (field out1 gSize gSize_update) size1)))"

definition StorageSpec_DeepCopy :: "'x Library \<Rightarrow> ('x cell, 'x gStorageSpec) ptr option \<Rightarrow> ('x cell Mem, ('x cell, 'x gStorageSpec) ptr option) ioE" where
  "StorageSpec_DeepCopy L = deep_copy Storage_k (zeroStorage L) (StorageSpec_DeepCopyInto L)"

definition ValkeyClusterSpec_DeepCopyInto :: "'x Library \<Rightarrow> ('x cell, 'x gValkeyClusterSpec) ptr \<Rightarrow> ('x cell, 'x gValkeyClusterSpec) ptr \<Rightarrow> ('x cell Mem, unit) ioE" where
  "ValkeyClusterSpec_DeepCopyInto L in1 out1 =
     bindE (bindE (deref in1) (assign out1)) (\<lambda>_.
     bindE (StorageSpec_DeepCopyInto L (field in1 gStorage gStorage_update) (field out1 gStorage gStorage_update)) (\<lambda>_.
     bindE (ResourceRequirements_DeepCopyInto L (field in1 gResources gResources_update) (field out1 gResources gResources_update)) (\<lambda>_.
     bindE (bindE (deref (field in1 gPersistence gPersistence_update)) (assign (field out1 gPersistence gPersistence_update))) (\<lambda>_.
     bindE (bindE (deref (field in1 gPerformance gPerformance_update)) (assign (field out1 gPerformance gPerformance_update))) (\<lambda>_.
     HAPolicy_DeepCopyInto (field in1 gPolicy gPolicy_update) (field out1 gPolicy gPolicy_update))))))"

definition ValkeyClusterSpec_DeepCopy :: "'x Library \<Rightarrow> ('x cell, 'x gValkeyClusterSpec) ptr option \<Rightarrow> ('x cell Mem, ('x cell, 'x gValkeyClusterSpec) ptr option) ioE" where
  "ValkeyClusterSpec_DeepCopy L = deep_copy Spec_k (zeroSpec L) (ValkeyClusterSpec_DeepCopyInto L)"

definition ValkeyClusterStatus_DeepCopyInto :: "'x Library \<Rightarrow> ('x cell, gValkeyClusterStatus) ptr \<Rightarrow> ('x cell, gValkeyClusterStatus) ptr \<Rightarrow> ('x cell Mem, unit) ioE" where
  "ValkeyClusterStatus_DeepCopyInto L in1 out1 =
     bindE (bindE (deref in1) (assign out1)) (\<lambda>_.
     bindE (copy_slice ShardStatus_k zeroShardStatus ShardStatus_DeepCopyInto
       (field in1 gStatusShards gStatusShards_update) (field out1 gStatusShards gStatusShards_update)) (\<lambda>_.
     copy_slice Cond_k (zeroCondition L) (Condition_DeepCopyInto L)
       (field in1 gConditions gConditions_update) (field out1 gConditions gConditions_update)))"

definition ValkeyClusterStatus_DeepCopy :: "'x Library \<Rightarrow> ('x cell, gValkeyClusterStatus) ptr option \<Rightarrow> ('x cell Mem, ('x cell, gValkeyClusterStatus) ptr option) ioE" where
  "ValkeyClusterStatus_DeepCopy L = deep_copy Status_k zeroStatus (ValkeyClusterStatus_DeepCopyInto L)"

definition ValkeyCluster_DeepCopyInto :: "'x Library \<Rightarrow> ('x cell, 'x gValkeyCluster) ptr \<Rightarrow> ('x cell, 'x gValkeyCluster) ptr \<Rightarrow> ('x cell Mem, unit) ioE" where
  "ValkeyCluster_DeepCopyInto L in1 out1 =
     bindE (bindE (deref in1) (assign out1)) (\<lambda>_.
     bindE (bindE (deref (field in1 gTypeMeta gTypeMeta_update)) (assign (field out1 gTypeMeta gTypeMeta_update))) (\<lambda>_.
     bindE (ObjectMeta_DeepCopyInto L (field in1 gObjectMeta gObjectMeta_update) (field out1 gObjectMeta gObjectMeta_update)) (\<lambda>_.
     bindE (ValkeyClusterSpec_DeepCopyInto L (field in1 gSpec gSpec_update) (field out1 gSpec gSpec_update)) (\<lambda>_.
     ValkeyClusterStatus_DeepCopyInto L (field in1 gStatus gStatus_update) (field out1 gStatus gStatus_update)))))"

definition ValkeyCluster_DeepCopy :: "'x Library \<Rightarrow> ('x cell, 'x gValkeyCluster) ptr option \<Rightarrow> ('x cell Mem, ('x cell, 'x gValkeyCluster) ptr option) ioE" where
  "ValkeyCluster_DeepCopy L = deep_copy Cluster_k (zeroCluster L) (ValkeyCluster_DeepCopyInto L)"

definition ValkeyClusterList_DeepCopyInto :: "'x Library \<Rightarrow> ('x cell, 'x gValkeyClusterList) ptr \<Rightarrow> ('x cell, 'x gValkeyClusterList) ptr \<Rightarrow> ('x cell Mem, unit) ioE" where
  "ValkeyClusterList_DeepCopyInto L in1 out1 =
     bindE (bindE (deref in1) (assign out1)) (\<lambda>_.
     bindE (bindE (deref (field in1 gListTypeMeta gListTypeMeta_update)) (assign (field out1 gListTypeMeta gListTypeMeta_update))) (\<lambda>_.
     bindE (ListMeta_DeepCopyInto L (field in1 gListMeta gListMeta_update) (field out1 gListMeta gListMeta_update)) (\<lambda>_.
     copy_slice Cluster_k (zeroCluster L) (ValkeyCluster_DeepCopyInto L)
       (field in1 gItems gItems_update) (field out1 gItems gItems_update))))"

definition ValkeyClusterList_DeepCopy :: "'x Library \<Rightarrow> ('x cell, 'x gValkeyClusterList) ptr option \<Rightarrow> ('x cell Mem, ('x cell, 'x gValkeyClusterList) ptr option) ioE" where
  "ValkeyClusterList_DeepCopy L = deep_copy ClusterList_k (zeroClusterList L) (ValkeyClusterList_DeepCopyInto L)"

text \<open>
  \<^verbatim>\<open>runtime.Object\<close>, an interface: nil, or a pointer with its type. The methods below take care
  that a nil pointer becomes the nil interface.
\<close>

datatype 'x Object = ClusterObject "('x cell, 'x gValkeyCluster) ptr" | ListObject "('x cell, 'x gValkeyClusterList) ptr"

definition ValkeyCluster_DeepCopyObject :: "'x Library \<Rightarrow> ('x cell, 'x gValkeyCluster) ptr option \<Rightarrow> ('x cell Mem, 'x Object option) ioE" where
  "ValkeyCluster_DeepCopyObject L in1 =
     bindE (ValkeyCluster_DeepCopy L in1) (\<lambda>c. case c of Some p \<Rightarrow> retE (Some (ClusterObject p)) | None \<Rightarrow> retE None)"

definition ValkeyClusterList_DeepCopyObject :: "'x Library \<Rightarrow> ('x cell, 'x gValkeyClusterList) ptr option \<Rightarrow> ('x cell Mem, 'x Object option) ioE" where
  "ValkeyClusterList_DeepCopyObject L in1 =
     bindE (ValkeyClusterList_DeepCopy L in1) (\<lambda>c. case c of Some p \<Rightarrow> retE (Some (ListObject p)) | None \<Rightarrow> retE None)"

section \<open>Reading structs back\<close>

definition view_HAPolicy :: "'x cell Mem \<Rightarrow> gHAPolicy \<Rightarrow> HAPolicy" where
  "view_HAPolicy m h = \<lparr>MinReplicasToWrite = gMinReplicasToWrite h,
     RequireFullCoverage = view_loc Bool_k m (gRequireFullCoverage h),
     ClusterNodeTimeoutMillis = gClusterNodeTimeoutMillis h\<rparr>"

definition wf_HAPolicy :: "nat \<Rightarrow> nat \<Rightarrow> 'x cell Mem \<Rightarrow> gHAPolicy \<Rightarrow> bool" where
  "wf_HAPolicy lo hi m h = wf_loc Bool_k lo hi m (gRequireFullCoverage h)"

definition view_ShardStatus :: "'x cell Mem \<Rightarrow> gShardStatus \<Rightarrow> ShardStatus" where
  "view_ShardStatus m s = \<lparr>ssIndex = gIndex s, PrimaryPod = gPrimaryPod s, PrimaryNodeID = gPrimaryNodeID s,
     ssSlots = gSlots s, ReadyReplicas = gReadyReplicas s, NodeIDs = contents String_k m (gNodeIDs s)\<rparr>"

definition wf_ShardStatus :: "nat \<Rightarrow> nat \<Rightarrow> 'x cell Mem \<Rightarrow> gShardStatus \<Rightarrow> bool" where
  "wf_ShardStatus lo hi m s = wf_slice String_k lo hi m (gNodeIDs s)"

lemma fields_ok [simp]:
  "field_ok gRequireFullCoverage gRequireFullCoverage_update" "field_ok gNodeIDs gNodeIDs_update"
  "field_ok gStatusShards gStatusShards_update" "field_ok gConditions gConditions_update"
  "field_ok gSize gSize_update" "field_ok gStorage gStorage_update" "field_ok gResources gResources_update"
  "field_ok gPersistence gPersistence_update" "field_ok gPerformance gPerformance_update"
  "field_ok gPolicy gPolicy_update" "field_ok gObjectMeta gObjectMeta_update" "field_ok gSpec gSpec_update"
  "field_ok gStatus gStatus_update" "field_ok gListMeta gListMeta_update" "field_ok gItems gItems_update"
  by (simp_all add: field_ok_def)

interpretation perf: deep_copyable plain "\<lambda>_ v. v" PerformanceSpec_DeepCopyInto
  by (rule plain_copyable [where f = "\<lambda>v. v"]) (simp add: PerformanceSpec_DeepCopyInto_def)

interpretation pers: deep_copyable plain "\<lambda>_ v. v" PersistenceSpec_DeepCopyInto
  by (rule plain_copyable [where f = "\<lambda>v. v"]) (simp add: PersistenceSpec_DeepCopyInto_def)

interpretation flag: footprint "wf_loc Bool_k" "view_loc Bool_k"
  by (rule loc_footprint)

interpretation ids: footprint "wf_slice String_k" "contents String_k"
  by (rule slice_footprint)

interpretation ha: deep_copyable wf_HAPolicy view_HAPolicy HAPolicy_DeepCopyInto
proof (rule deep_copyable.intro, rule footprint_field [OF flag.footprint_axioms], rule wf_HAPolicy_def,
    rule view_HAPolicy_def, unfold_locales)
  fix p q :: "('x cell, gHAPolicy) ptr" and b m x y
  assume c: "copying p q b m x y m" and x: "wf_HAPolicy 0 b m x"
  note ws = whole_step [OF c]
  from pointer_step [OF kinds_ok(1) ws(2) fields_ok(1) refl, of False] x
  obtain v M where "run_state (copy_pointer Bool_k False (field p gRequireFullCoverage gRequireFullCoverage_update)
        (field q gRequireFullCoverage gRequireFullCoverage_update)) (store q x m) = (Inr (), M)"
    "copying p q b m x (x\<lparr>gRequireFullCoverage := v\<rparr>) M"
    "part (wf_loc Bool_k) (view_loc Bool_k) m M v (view_loc Bool_k m (gRequireFullCoverage x))"
    by (auto simp: wf_HAPolicy_def)
  then show "\<exists>v M. run_state (HAPolicy_DeepCopyInto p q) m = (Inr (), M) \<and> copying p q b m x v M \<and>
      wf_HAPolicy (brk m) (brk M) M v \<and> view_HAPolicy M v = view_HAPolicy m x"
    using ws(1) by (intro exI [of _ "x\<lparr>gRequireFullCoverage := v\<rparr>"] exI [of _ M])
      (simp add: HAPolicy_DeepCopyInto_def run_bindE [of "bindE _ _"] part_def wf_HAPolicy_def view_HAPolicy_def)
qed

interpretation shard: deep_copyable wf_ShardStatus view_ShardStatus ShardStatus_DeepCopyInto
proof (rule deep_copyable.intro, rule footprint_field [OF ids.footprint_axioms], rule wf_ShardStatus_def,
    rule view_ShardStatus_def, unfold_locales)
  fix p q :: "('x cell, gShardStatus) ptr" and b m x y
  assume c: "copying p q b m x y m" and x: "wf_ShardStatus 0 b m x"
  note ws = whole_step [OF c]
  from plain_step [OF kinds_ok(2) ws(2) fields_ok(2) refl, of "[]"] x
  obtain v M where "run_state (copy_plain String_k [] (field p gNodeIDs gNodeIDs_update)
        (field q gNodeIDs gNodeIDs_update)) (store q x m) = (Inr (), M)"
    "copying p q b m x (x\<lparr>gNodeIDs := v\<rparr>) M"
    "part (wf_slice String_k) (contents String_k) m M v (contents String_k m (gNodeIDs x))"
    by (auto simp: wf_ShardStatus_def)
  then show "\<exists>v M. run_state (ShardStatus_DeepCopyInto p q) m = (Inr (), M) \<and> copying p q b m x v M \<and>
      wf_ShardStatus (brk m) (brk M) M v \<and> view_ShardStatus M v = view_ShardStatus m x"
    using ws(1) by (intro exI [of _ "x\<lparr>gNodeIDs := v\<rparr>"] exI [of _ M])
      (simp add: ShardStatus_DeepCopyInto_def run_bindE [of "bindE _ _"] part_def wf_ShardStatus_def view_ShardStatus_def)
qed

section \<open>The libraries\<close>

text \<open>
  \<open>whole V lo hi m x\<close> says that all parts of the library struct \<open>x\<close> lie in the cells from \<open>lo\<close>
  up to \<open>hi\<close>; the other components read it.
\<close>

record ('x, 'l) Reading =
  whole :: "nat \<Rightarrow> nat \<Rightarrow> 'x cell Mem \<Rightarrow> 'x \<Rightarrow> bool"
  asQuantity :: "'x cell Mem \<Rightarrow> 'x \<Rightarrow> Quantity"
  asResources :: "'x cell Mem \<Rightarrow> 'x \<Rightarrow> ResourceRequirements"
  asObjectMeta :: "'x cell Mem \<Rightarrow> 'x \<Rightarrow> ObjectMeta"
  asListMeta :: "'x cell Mem \<Rightarrow> 'x \<Rightarrow> 'l"
  asCondition :: "'x cell Mem \<Rightarrow> 'x \<Rightarrow> Condition"

definition quantity_law :: "'x Library \<Rightarrow> ('x, 'l) Reading \<Rightarrow> bool" where
  "quantity_law L V \<longleftrightarrow> footprint (whole V) (asQuantity V) \<and>
     (\<forall>b m x. whole V 0 b m x \<and> b \<le> brk m \<longrightarrow> (\<exists>v M. run_state (Quantity_DeepCopy L x) m = (Inr v, M) \<and>
        grows m M \<and> whole V (brk m) (brk M) M v \<and> asQuantity V M v = asQuantity V m x))"

definition library_laws :: "'x Library \<Rightarrow> ('x, 'l) Reading \<Rightarrow> bool" where
  "library_laws L V \<longleftrightarrow> quantity_law L V \<and>
     deep_copyable (whole V) (asResources V) (ResourceRequirements_DeepCopyInto L) \<and>
     deep_copyable (whole V) (asObjectMeta V) (ObjectMeta_DeepCopyInto L) \<and>
     deep_copyable (whole V) (asListMeta V) (ListMeta_DeepCopyInto L) \<and>
     deep_copyable (whole V) (asCondition V) (Condition_DeepCopyInto L)"

definition view_StorageSpec :: "('x, 'l) Reading \<Rightarrow> 'x cell Mem \<Rightarrow> 'x gStorageSpec \<Rightarrow> StorageSpec" where
  "view_StorageSpec V m s = \<lparr>Size = asQuantity V m (gSize s), StorageClassName = gStorageClassName s\<rparr>"

definition wf_StorageSpec :: "('x, 'l) Reading \<Rightarrow> nat \<Rightarrow> nat \<Rightarrow> 'x cell Mem \<Rightarrow> 'x gStorageSpec \<Rightarrow> bool" where
  "wf_StorageSpec V lo hi m s = whole V lo hi m (gSize s)"

definition view_Spec :: "('x, 'l) Reading \<Rightarrow> 'x cell Mem \<Rightarrow> 'x gValkeyClusterSpec \<Rightarrow> ValkeyClusterSpec" where
  "view_Spec V m s = \<lparr>Shards = gShards s, ReplicasPerShard = gReplicasPerShard s, Image = gImage s,
     Storage = view_StorageSpec V m (gStorage s), Resources = asResources V m (gResources s),
     Persistence = gPersistence s, Performance = gPerformance s, HAPolicy = view_HAPolicy m (gPolicy s)\<rparr>"

definition wf_Spec :: "('x, 'l) Reading \<Rightarrow> nat \<Rightarrow> nat \<Rightarrow> 'x cell Mem \<Rightarrow> 'x gValkeyClusterSpec \<Rightarrow> bool" where
  "wf_Spec V lo hi m s \<longleftrightarrow> wf_StorageSpec V lo hi m (gStorage s) \<and> whole V lo hi m (gResources s) \<and>
     wf_HAPolicy lo hi m (gPolicy s)"

definition view_Status :: "('x, 'l) Reading \<Rightarrow> 'x cell Mem \<Rightarrow> gValkeyClusterStatus \<Rightarrow> ValkeyClusterStatus" where
  "view_Status V m s = \<lparr>Phase = gPhase s, ObservedGeneration = gObservedGeneration s, ReadyShards = gReadyShards s,
     stShards = view_elems ShardStatus_k view_ShardStatus m (gStatusShards s),
     Conditions = view_elems Cond_k (asCondition V) m (gConditions s)\<rparr>"

definition wf_Status :: "('x, 'l) Reading \<Rightarrow> nat \<Rightarrow> nat \<Rightarrow> 'x cell Mem \<Rightarrow> gValkeyClusterStatus \<Rightarrow> bool" where
  "wf_Status V lo hi m s \<longleftrightarrow> wf_elems ShardStatus_k wf_ShardStatus lo hi m (gStatusShards s) \<and>
     wf_elems Cond_k (whole V) lo hi m (gConditions s)"

text \<open>A resource with its type, and a list of them.\<close>

definition view_Cluster :: "('x, 'l) Reading \<Rightarrow> 'x cell Mem \<Rightarrow> 'x gValkeyCluster \<Rightarrow> TypeMeta \<times> ValkeyCluster" where
  "view_Cluster V m c = (gTypeMeta c, \<lparr>Meta = asObjectMeta V m (gObjectMeta c), Spec = view_Spec V m (gSpec c),
     Status = view_Status V m (gStatus c)\<rparr>)"

definition wf_Cluster :: "('x, 'l) Reading \<Rightarrow> nat \<Rightarrow> nat \<Rightarrow> 'x cell Mem \<Rightarrow> 'x gValkeyCluster \<Rightarrow> bool" where
  "wf_Cluster V lo hi m c \<longleftrightarrow> whole V lo hi m (gObjectMeta c) \<and> wf_Spec V lo hi m (gSpec c) \<and>
     wf_Status V lo hi m (gStatus c)"

definition view_ClusterList :: "('x, 'l) Reading \<Rightarrow> 'x cell Mem \<Rightarrow> 'x gValkeyClusterList \<Rightarrow>
    TypeMeta \<times> 'l \<times> (TypeMeta \<times> ValkeyCluster) list" where
  "view_ClusterList V m l = (gListTypeMeta l, asListMeta V m (gListMeta l), view_elems Cluster_k (view_Cluster V) m (gItems l))"

definition wf_ClusterList :: "('x, 'l) Reading \<Rightarrow> nat \<Rightarrow> nat \<Rightarrow> 'x cell Mem \<Rightarrow> 'x gValkeyClusterList \<Rightarrow> bool" where
  "wf_ClusterList V lo hi m l \<longleftrightarrow> whole V lo hi m (gListMeta l) \<and> wf_elems Cluster_k (wf_Cluster V) lo hi m (gItems l)"

section \<open>The methods meet the contract\<close>

lemma library_lawsD:
  assumes "library_laws L V"
  shows "quantity_law L V" "deep_copyable (whole V) (asResources V) (ResourceRequirements_DeepCopyInto L)"
    "deep_copyable (whole V) (asObjectMeta V) (ObjectMeta_DeepCopyInto L)"
    "deep_copyable (whole V) (asListMeta V) (ListMeta_DeepCopyInto L)"
    "deep_copyable (whole V) (asCondition V) (Condition_DeepCopyInto L)"
  using assms by (auto simp: library_laws_def)

lemma StorageSpec_copyable:
  assumes "library_laws L V"
  shows "deep_copyable (wf_StorageSpec V) (view_StorageSpec V) (StorageSpec_DeepCopyInto L)"
proof -
  note law = library_lawsD(1) [OF assms, unfolded quantity_law_def]
  show ?thesis
  proof (rule deep_copyable.intro, rule footprint_field [OF law [THEN conjunct1]], rule wf_StorageSpec_def,
      rule view_StorageSpec_def, unfold_locales)
    fix p q :: "('a cell, 'a gStorageSpec) ptr" and b m x y
    assume c: "copying p q b m x y m" and x: "wf_StorageSpec V 0 b m x"
    let ?m = "store q x m"
    note ws = whole_step [OF c] and cs = copying_source [OF whole_step(2) [OF c]]
    have sz: "whole V 0 b ?m (gSize x)" "asQuantity V ?m (gSize x) = asQuantity V m (gSize x)"
      using footprint.kept [OF law [THEN conjunct1] _ cs(2)] x by (auto simp: wf_StorageSpec_def)
    then obtain v M where run: "run_state (Quantity_DeepCopy L (gSize x)) ?m = (Inr v, M)" and g: "grows ?m M"
      and v: "whole V (brk m) (brk M) M v" "asQuantity V M v = asQuantity V m (gSize x)"
      using law cs(6,7) by fastforce
    note as = copying_assign_field(1) [OF copying_grow [OF ws(2) g], of gSize gSize_update v]
      copying_assign_field(2) [OF copying_grow [OF ws(2) g], of gSize_update v]
    let ?M = "store q (x\<lparr>gSize := v\<rparr>) M"
    have "same (brk m) (brk M) M ?M" using c by (auto simp: same_def cells_store copying_def)
    then have "whole V (brk m) (brk ?M) ?M v" "asQuantity V ?M v = asQuantity V M v"
      using footprint.kept [OF law [THEN conjunct1] v(1)] by auto
    then show "\<exists>v M. run_state (StorageSpec_DeepCopyInto L p q) m = (Inr (), M) \<and> copying p q b m x v M \<and>
        wf_StorageSpec V (brk m) (brk M) M v \<and> view_StorageSpec V M v = view_StorageSpec V m x"
      using ws(1) cs(1) run as v(2) by (intro exI [of _ "x\<lparr>gSize := v\<rparr>"] exI [of _ ?M])
        (simp add: StorageSpec_DeepCopyInto_def run_bindE load_field wf_StorageSpec_def view_StorageSpec_def)
  qed
qed

lemma Status_copyable:
  assumes "library_laws L V"
  shows "deep_copyable (wf_Status V) (view_Status V) (ValkeyClusterStatus_DeepCopyInto L)"
proof -
  note law = library_lawsD(5) [OF assms] and fp = footprint.elems [OF shard.footprint_axioms]
    footprint.elems [OF library_lawsD(5) [OF assms, THEN deep_copyable.axioms(1)]]
  show ?thesis
  proof (rule deep_copyable.intro, rule footprint_pair [OF fp], rule wf_Status_def, rule view_Status_def, unfold_locales)
    fix p q :: "('a cell, gValkeyClusterStatus) ptr" and b m x y
    assume c: "copying p q b m x y m" and x: "wf_Status V 0 b m x"
    note ws = whole_step [OF c]
    from shard.slice_step [OF kinds_ok(6) ws(2) fields_ok(3) refl, of zeroShardStatus] x
    obtain v1 M1 where r1: "run_state (copy_slice ShardStatus_k zeroShardStatus ShardStatus_DeepCopyInto
          (field p gStatusShards gStatusShards_update) (field q gStatusShards gStatusShards_update)) (store q x m) = (Inr (), M1)"
      and c1: "copying p q b m x (x\<lparr>gStatusShards := v1\<rparr>) M1"
      and w1: "part (wf_elems ShardStatus_k wf_ShardStatus) (view_elems ShardStatus_k view_ShardStatus) m M1 v1
        (view_elems ShardStatus_k view_ShardStatus m (gStatusShards x))"
      by (auto simp: wf_Status_def)
    from deep_copyable.slice_step [OF law kinds_ok(12) c1 fields_ok(4), of "zeroCondition L"] x
    obtain v2 M2 where r2: "run_state (copy_slice Cond_k (zeroCondition L) (Condition_DeepCopyInto L)
          (field p gConditions gConditions_update) (field q gConditions gConditions_update)) M1 = (Inr (), M2)"
      and c2: "copying p q b m x (x\<lparr>gStatusShards := v1, gConditions := v2\<rparr>) M2" and a2: "advances m M1 M2"
      and w2: "part (wf_elems Cond_k (whole V)) (view_elems Cond_k (asCondition V)) m M2 v2
        (view_elems Cond_k (asCondition V) m (gConditions x))"
      by (auto simp: wf_Status_def)
    show "\<exists>v M. run_state (ValkeyClusterStatus_DeepCopyInto L p q) m = (Inr (), M) \<and> copying p q b m x v M \<and>
        wf_Status V (brk m) (brk M) M v \<and> view_Status V M v = view_Status V m x"
      using ws(1) r2 c2 footprint.part_advances [OF fp(1) w1 a2] w2
      by (intro exI [of _ "x\<lparr>gStatusShards := v1, gConditions := v2\<rparr>"] exI [of _ M2])
        (simp add: ValkeyClusterStatus_DeepCopyInto_def run_bindE [of "bindE _ _"] run_bindE_Inr [OF r1]
          part_def wf_Status_def view_Status_def)
  qed
qed

lemma Spec_copyable:
  assumes "library_laws L V"
  shows "deep_copyable (wf_Spec V) (view_Spec V) (ValkeyClusterSpec_DeepCopyInto L)"
proof -
  note st = StorageSpec_copyable [OF assms] and rr = library_lawsD(2) [OF assms]
  note fp = st [THEN deep_copyable.axioms(1)] rr [THEN deep_copyable.axioms(1)] ha.footprint_axioms
  show ?thesis
  proof (rule deep_copyable.intro, rule footprint_triple [OF fp], rule wf_Spec_def, rule view_Spec_def, unfold_locales)
    fix p q :: "('a cell, 'a gValkeyClusterSpec) ptr" and b m x y
    assume c: "copying p q b m x y m" and x: "wf_Spec V 0 b m x"
    note ws = whole_step [OF c]
    from deep_copyable.field_step [OF st ws(2) fields_ok(6)] x
    obtain v1 M1 where r1: "run_state (StorageSpec_DeepCopyInto L (field p gStorage gStorage_update)
          (field q gStorage gStorage_update)) (store q x m) = (Inr (), M1)"
      and c1: "copying p q b m x (x\<lparr>gStorage := v1\<rparr>) M1"
      and w1: "part (wf_StorageSpec V) (view_StorageSpec V) m M1 v1 (view_StorageSpec V m (gStorage x))"
      by (auto simp: wf_Spec_def)
    from deep_copyable.field_step [OF rr c1 fields_ok(7)] x
    obtain v2 M2 where r2: "run_state (ResourceRequirements_DeepCopyInto L (field p gResources gResources_update)
          (field q gResources gResources_update)) M1 = (Inr (), M2)"
      and c2: "copying p q b m x (x\<lparr>gStorage := v1, gResources := v2\<rparr>) M2" and a2: "advances m M1 M2"
      and w2: "part (whole V) (asResources V) m M2 v2 (asResources V m (gResources x))"
      by (auto simp: wf_Spec_def)
    note p3 = value_step [OF c2, where g = gPersistence and u = gPersistence_update]
    note p4 = value_step [OF p3(2), where g = gPerformance and u = gPerformance_update]
    let ?t = "x\<lparr>gStorage := v1, gResources := v2\<rparr>"
    from ha.field_step [OF p4(2) fields_ok(10)] x
    obtain v3 M3 where r3: "run_state (HAPolicy_DeepCopyInto (field p gPolicy gPolicy_update) (field q gPolicy gPolicy_update))
          (store q ?t (store q ?t M2)) = (Inr (), M3)"
      and c3: "copying p q b m x (?t\<lparr>gPolicy := v3\<rparr>) M3" and a3: "advances m (store q ?t (store q ?t M2)) M3"
      and w3: "part wf_HAPolicy view_HAPolicy m M3 v3 (view_HAPolicy m (gPolicy x))"
      by (auto simp: wf_Spec_def)
    have a: "advances m M2 M3" using p3(3) p4(3) a3 by (auto intro: advances_trans)
    show "\<exists>v M. run_state (ValkeyClusterSpec_DeepCopyInto L p q) m = (Inr (), M) \<and> copying p q b m x v M \<and>
        wf_Spec V (brk m) (brk M) M v \<and> view_Spec V M v = view_Spec V m x"
      using ws(1) p3(1) p4(1) r3 c3 w3 footprint.part_advances [OF fp(1) w1 advances_trans [OF a2 a]] footprint.part_advances [OF fp(2) w2 a]
      by (intro exI [of _ "?t\<lparr>gPolicy := v3\<rparr>"] exI [of _ M3]) (simp add: ValkeyClusterSpec_DeepCopyInto_def
          run_bindE [of "bindE _ _"] run_bindE_Inr [OF r1] run_bindE_Inr [OF r2] part_def wf_Spec_def view_Spec_def)
  qed
qed

lemma Cluster_copyable:
  assumes "library_laws L V"
  shows "deep_copyable (wf_Cluster V) (view_Cluster V) (ValkeyCluster_DeepCopyInto L)"
proof -
  note om = library_lawsD(3) [OF assms] and sp = Spec_copyable [OF assms] and st = Status_copyable [OF assms]
  note fp = om [THEN deep_copyable.axioms(1)] sp [THEN deep_copyable.axioms(1)] st [THEN deep_copyable.axioms(1)]
  show ?thesis
  proof (rule deep_copyable.intro, rule footprint_triple [OF fp], rule wf_Cluster_def, rule view_Cluster_def, unfold_locales)
    fix p q :: "('a cell, 'a gValkeyCluster) ptr" and b m x y
    assume c: "copying p q b m x y m" and x: "wf_Cluster V 0 b m x"
    note ws = whole_step [OF c]
    note p0 = value_step [OF ws(2), where g = gTypeMeta and u = gTypeMeta_update]
    from deep_copyable.field_step [OF om p0(2) fields_ok(11)] x
    obtain v1 M1 where r1: "run_state (ObjectMeta_DeepCopyInto L (field p gObjectMeta gObjectMeta_update)
          (field q gObjectMeta gObjectMeta_update)) (store q x (store q x m)) = (Inr (), M1)"
      and c1: "copying p q b m x (x\<lparr>gObjectMeta := v1\<rparr>) M1"
      and w1: "part (whole V) (asObjectMeta V) m M1 v1 (asObjectMeta V m (gObjectMeta x))"
      by (auto simp: wf_Cluster_def)
    from deep_copyable.field_step [OF sp c1 fields_ok(12)] x
    obtain v2 M2 where r2: "run_state (ValkeyClusterSpec_DeepCopyInto L (field p gSpec gSpec_update)
          (field q gSpec gSpec_update)) M1 = (Inr (), M2)"
      and c2: "copying p q b m x (x\<lparr>gObjectMeta := v1, gSpec := v2\<rparr>) M2" and a2: "advances m M1 M2"
      and w2: "part (wf_Spec V) (view_Spec V) m M2 v2 (view_Spec V m (gSpec x))"
      by (auto simp: wf_Cluster_def)
    let ?t = "x\<lparr>gObjectMeta := v1, gSpec := v2\<rparr>"
    from deep_copyable.field_step [OF st c2 fields_ok(13)] x
    obtain v3 M3 where r3: "run_state (ValkeyClusterStatus_DeepCopyInto L (field p gStatus gStatus_update)
          (field q gStatus gStatus_update)) M2 = (Inr (), M3)"
      and c3: "copying p q b m x (?t\<lparr>gStatus := v3\<rparr>) M3" and a3: "advances m M2 M3"
      and w3: "part (wf_Status V) (view_Status V) m M3 v3 (view_Status V m (gStatus x))"
      by (auto simp: wf_Cluster_def)
    show "\<exists>v M. run_state (ValkeyCluster_DeepCopyInto L p q) m = (Inr (), M) \<and> copying p q b m x v M \<and>
        wf_Cluster V (brk m) (brk M) M v \<and> view_Cluster V M v = view_Cluster V m x"
      using ws(1) p0(1) r3 c3 w3 footprint.part_advances [OF fp(1) w1 advances_trans [OF a2 a3]] footprint.part_advances [OF fp(2) w2 a3]
      by (intro exI [of _ "?t\<lparr>gStatus := v3\<rparr>"] exI [of _ M3]) (simp add: ValkeyCluster_DeepCopyInto_def
          run_bindE [of "bindE _ _"] run_bindE_Inr [OF r1] run_bindE_Inr [OF r2] part_def wf_Cluster_def view_Cluster_def)
  qed
qed

lemma ClusterList_copyable:
  assumes "library_laws L V"
  shows "deep_copyable (wf_ClusterList V) (view_ClusterList V) (ValkeyClusterList_DeepCopyInto L)"
proof -
  note lm = library_lawsD(4) [OF assms] and cl = Cluster_copyable [OF assms]
  note fp = lm [THEN deep_copyable.axioms(1)] footprint.elems [OF cl [THEN deep_copyable.axioms(1)]]
  show ?thesis
  proof (rule deep_copyable.intro, rule footprint_pair [OF fp], rule wf_ClusterList_def, rule view_ClusterList_def, unfold_locales)
    fix p q :: "('a cell, 'a gValkeyClusterList) ptr" and b m x y
    assume c: "copying p q b m x y m" and x: "wf_ClusterList V 0 b m x"
    note ws = whole_step [OF c]
    note p0 = value_step [OF ws(2), where g = gListTypeMeta and u = gListTypeMeta_update]
    from deep_copyable.field_step [OF lm p0(2) fields_ok(14)] x
    obtain v1 M1 where r1: "run_state (ListMeta_DeepCopyInto L (field p gListMeta gListMeta_update)
          (field q gListMeta gListMeta_update)) (store q x (store q x m)) = (Inr (), M1)"
      and c1: "copying p q b m x (x\<lparr>gListMeta := v1\<rparr>) M1"
      and w1: "part (whole V) (asListMeta V) m M1 v1 (asListMeta V m (gListMeta x))"
      by (auto simp: wf_ClusterList_def)
    from deep_copyable.slice_step [OF cl kinds_ok(10) c1 fields_ok(15), of "zeroCluster L"] x
    obtain v2 M2 where r2: "run_state (copy_slice Cluster_k (zeroCluster L) (ValkeyCluster_DeepCopyInto L)
          (field p gItems gItems_update) (field q gItems gItems_update)) M1 = (Inr (), M2)"
      and c2: "copying p q b m x (x\<lparr>gListMeta := v1, gItems := v2\<rparr>) M2" and a2: "advances m M1 M2"
      and w2: "part (wf_elems Cluster_k (wf_Cluster V)) (view_elems Cluster_k (view_Cluster V)) m M2 v2
        (view_elems Cluster_k (view_Cluster V) m (gItems x))"
      by (auto simp: wf_ClusterList_def)
    show "\<exists>v M. run_state (ValkeyClusterList_DeepCopyInto L p q) m = (Inr (), M) \<and> copying p q b m x v M \<and>
        wf_ClusterList V (brk m) (brk M) M v \<and> view_ClusterList V M v = view_ClusterList V m x"
      using ws(1) p0(1) r2 c2 w2 footprint.part_advances [OF fp(1) w1 a2]
      by (intro exI [of _ "x\<lparr>gListMeta := v1, gItems := v2\<rparr>"] exI [of _ M2]) (simp add: ValkeyClusterList_DeepCopyInto_def
          run_bindE [of "bindE _ _"] run_bindE_Inr [OF r1] part_def wf_ClusterList_def view_ClusterList_def)
  qed
qed

text \<open>
  Claim C13. A copy of a ValkeyCluster, and of a list of them, that the client library makes
  through DeepCopyObject reads exactly like the original, leaves everything that existed
  unchanged and shares no memory with it: later writes to the copy do not show in the original
  nor the other way round. A nil pointer gives the nil interface.
\<close>

theorem DeepCopyObject_apart:
  assumes "library_laws L V" "valid (wf_Cluster V) p m" "valid (wf_ClusterList V) l m"
  shows "(\<exists>q M. run_state (ValkeyCluster_DeepCopyObject L (Some p)) m = (Inr (Some (ClusterObject q)), M) \<and>
        apart (view_Cluster V) p m q M) \<and>
    (\<exists>q M. run_state (ValkeyClusterList_DeepCopyObject L (Some l)) m = (Inr (Some (ListObject q)), M) \<and>
        apart (view_ClusterList V) l m q M) \<and>
    run_state (ValkeyCluster_DeepCopyObject L None) m = (Inr None, m) \<and>
    run_state (ValkeyClusterList_DeepCopyObject L None) m = (Inr None, m)"
proof (intro conjI)
  show "\<exists>q M. run_state (ValkeyCluster_DeepCopyObject L (Some p)) m = (Inr (Some (ClusterObject q)), M) \<and>
      apart (view_Cluster V) p m q M"
    using deep_copyable.deep_copy_apart [OF Cluster_copyable [OF assms(1)] kinds_ok(10) assms(2), of "zeroCluster L"]
    by (auto simp: ValkeyCluster_DeepCopyObject_def ValkeyCluster_DeepCopy_def run_bindE)
  show "\<exists>q M. run_state (ValkeyClusterList_DeepCopyObject L (Some l)) m = (Inr (Some (ListObject q)), M) \<and>
      apart (view_ClusterList V) l m q M"
    using deep_copyable.deep_copy_apart [OF ClusterList_copyable [OF assms(1)] kinds_ok(11) assms(3), of "zeroClusterList L"]
    by (auto simp: ValkeyClusterList_DeepCopyObject_def ValkeyClusterList_DeepCopy_def run_bindE)
qed (simp_all add: ValkeyCluster_DeepCopyObject_def ValkeyClusterList_DeepCopyObject_def ValkeyCluster_DeepCopy_def
    ValkeyClusterList_DeepCopy_def deep_copy_def run_bindE)

section \<open>A concrete memory\<close>

text \<open>Library structs without pointers, for a run on a cluster whose own pointers are all set.\<close>

datatype lib = LQuantity Quantity | LResources ResourceRequirements | LMeta ObjectMeta | LList string | LCond Condition

definition condition0 :: Condition where
  "condition0 = \<lparr>condType = [], condStatus = [], condReason = [], condMessage = [], condObservedGeneration = 0,
     condLastTransitionTime = 0\<rparr>"

definition lib0 :: "lib Library" where
  "lib0 = \<lparr>zeroQuantity = LQuantity \<lparr>IsZero = True, Value = 0\<rparr>, zeroResources = LResources \<lparr>Limits = [], Requests = []\<rparr>,
     zeroObjectMeta = LMeta (object_meta [] []), zeroListMeta = LList [], zeroCondition = LCond condition0,
     Quantity_DeepCopy = retE, ResourceRequirements_DeepCopyInto = (\<lambda>p q. bindE (deref p) (assign q)),
     ObjectMeta_DeepCopyInto = (\<lambda>p q. bindE (deref p) (assign q)),
     ListMeta_DeepCopyInto = (\<lambda>p q. bindE (deref p) (assign q)),
     Condition_DeepCopyInto = (\<lambda>p q. bindE (deref p) (assign q))\<rparr>"

definition reading0 :: "(lib, lib) Reading" where
  "reading0 = \<lparr>whole = plain,
     asQuantity = (\<lambda>_ x. case x of LQuantity y \<Rightarrow> y | _ \<Rightarrow> \<lparr>IsZero = True, Value = 0\<rparr>),
     asResources = (\<lambda>_ x. case x of LResources y \<Rightarrow> y | _ \<Rightarrow> \<lparr>Limits = [], Requests = []\<rparr>),
     asObjectMeta = (\<lambda>_ x. case x of LMeta y \<Rightarrow> y | _ \<Rightarrow> object_meta [] []),
     asListMeta = (\<lambda>_ x. x),
     asCondition = (\<lambda>_ x. case x of LCond y \<Rightarrow> y | _ \<Rightarrow> condition0)\<rparr>"

lemma lib0_laws: "library_laws lib0 reading0"
  by (simp add: library_laws_def quantity_law_def lib0_def reading0_def plain_copyable
      plain_copyable [where f = "\<lambda>x. x"] footprint_def) (simp add: plain_def)

definition mem0 :: "lib cell Mem" where
  "mem0 = \<lparr>brk = 5, cells = (\<lambda>a. Bools [])(
     0 := Bools [True], 1 := Strings [''id0'', ''id1''],
     2 := ShardStatuses [zeroShardStatus\<lparr>gNodeIDs := Some \<lparr>slBase = 1, slOff = 0, slLen = 2\<rparr>\<rparr>],
     3 := Clusters [(zeroCluster lib0)
       \<lparr>gSpec := (zeroSpec lib0)\<lparr>gPolicy := zeroHAPolicy\<lparr>gRequireFullCoverage := Some (0, 0)\<rparr>\<rparr>,
        gStatus := zeroStatus\<lparr>gStatusShards := Some \<lparr>slBase = 2, slOff = 0, slLen = 1\<rparr>\<rparr>\<rparr>],
     4 := ClusterLists [(zeroClusterList lib0)\<lparr>gItems := Some \<lparr>slBase = 3, slOff = 0, slLen = 1\<rparr>\<rparr>])\<rparr>"

lemmas mem0_defs = mem0_def load_def elem_def kind_defs wf_Cluster_def wf_ClusterList_def wf_Spec_def
  wf_Status_def wf_StorageSpec_def wf_HAPolicy_def wf_ShardStatus_def wf_elems_def wf_slice_def wf_loc_def
  contents_def reading0_def plain_def zeroCluster_def zeroSpec_def zeroStatus_def zeroHAPolicy_def
  zeroShardStatus_def zeroClusterList_def

lemma mem0_valid:
  "valid (wf_Cluster reading0) (elem Cluster_k 3 0) mem0"
  "valid (wf_ClusterList reading0) (elem ClusterList_k 4 0) mem0"
proof -
  have brk: "brk mem0 = 5" by (simp add: mem0_def)
  have "case load (elem Cluster_k 3 0) mem0 of None \<Rightarrow> False | Some x \<Rightarrow> wf_Cluster reading0 0 (brk mem0) mem0 x"
    by (auto simp: mem0_defs)
  then show "valid (wf_Cluster reading0) (elem Cluster_k 3 0) mem0"
    by (simp add: valid_def lens_elem brk)
  have "case load (elem ClusterList_k 4 0) mem0 of None \<Rightarrow> False | Some x \<Rightarrow> wf_ClusterList reading0 0 (brk mem0) mem0 x"
    by (auto simp: mem0_defs)
  then show "valid (wf_ClusterList reading0) (elem ClusterList_k 4 0) mem0"
    by (simp add: valid_def lens_elem brk)
qed

theorem DeepCopyObject_apart_witness:
  "\<exists>q M. run_state (ValkeyCluster_DeepCopyObject lib0 (Some (elem Cluster_k 3 0))) mem0 = (Inr (Some (ClusterObject q)), M) \<and>
     apart (view_Cluster reading0) (elem Cluster_k 3 0) mem0 q M"
  using DeepCopyObject_apart [OF lib0_laws mem0_valid] by (rule conjunct1)

end
