(* ===== verification/Scheme_Setup.thy ===== *)
theory Scheme_Setup
  imports Prelude
begin

text \<open>
  \<^verbatim>\<open>api/v1alpha1/groupversion_info.go\<close>, the \<^verbatim>\<open>init\<close> function of
  \<^verbatim>\<open>api/v1alpha1/valkeycluster_types.go\<close> and the one of \<^verbatim>\<open>cmd/main.go\<close>: which Go types the client
  library is told to read and write, and under which API group. The scheme and its builder
  belong to the Kubernetes libraries and are a record of operations. The package variable
  \<^verbatim>\<open>AddToScheme\<close> is a method value bound to the address of \<^verbatim>\<open>SchemeBuilder\<close>, so it sees what
  \<^verbatim>\<open>init\<close> registers afterwards; hence it is applied to the builder as it is when \<^verbatim>\<open>main\<close> starts.
\<close>

record GroupVersion =
  Group :: string
  Version :: string

definition SchemeGroupVersion :: GroupVersion where
  "SchemeGroupVersion = \<lparr>Group = ''cache.razkevich.dev'', Version = ''v1alpha1''\<rparr>"

record ('w, 's, 'b) SchemeApi =
  NewSchemeBuilder :: "('s \<Rightarrow> ('w, unit) ioE) list \<Rightarrow> 'b"
  Register :: "'b \<Rightarrow> ('s \<Rightarrow> ('w, unit) ioE) list \<Rightarrow> 'b"
  AddToScheme :: "'b \<Rightarrow> 's \<Rightarrow> ('w, unit) ioE"
  AddToGroupVersion :: "'s \<Rightarrow> GroupVersion \<Rightarrow> ('w, unit) io"
  AddKnownTypes :: "'s \<Rightarrow> GroupVersion \<Rightarrow> string list \<Rightarrow> ('w, unit) io"
  clientgo_AddToScheme :: "'s \<Rightarrow> ('w, unit) ioE"

definition addGroupVersion :: "('w, 's, 'b) SchemeApi \<Rightarrow> 's \<Rightarrow> ('w, unit) ioE" where
  "addGroupVersion api scheme =
     State_Monad.bind (AddToGroupVersion api scheme SchemeGroupVersion) (\<lambda>_. retE ())"

definition SchemeBuilder :: "('w, 's, 'b) SchemeApi \<Rightarrow> 'b" where
  "SchemeBuilder api = NewSchemeBuilder api [addGroupVersion api]"

definition addTypes :: "('w, 's, 'b) SchemeApi \<Rightarrow> 's \<Rightarrow> ('w, unit) ioE" where
  "addTypes api scheme =
     State_Monad.bind (AddKnownTypes api scheme SchemeGroupVersion [''ValkeyCluster'', ''ValkeyClusterList'']) (\<lambda>_. retE ())"

definition types_init :: "('w, 's, 'b) SchemeApi \<Rightarrow> 'b" where
  "types_init api = Register api (SchemeBuilder api) [addTypes api]"

text \<open>\<^verbatim>\<open>utilruntime.Must(err)\<close>\<close>

definition Must :: "('w, unit) ioE \<Rightarrow> ('w, unit) ioE" where
  "Must m = wrapE (\<lambda>_. Panic ''Must'') m"

definition main_init :: "('w, 's, 'b) SchemeApi \<Rightarrow> 's \<Rightarrow> ('w, unit) ioE" where
  "main_init api scheme =
     bindE (Must (clientgo_AddToScheme api scheme)) (\<lambda>_.
     Must (AddToScheme api (types_init api) scheme))"

text \<open>A scheme builder is a list of functions that \<^verbatim>\<open>AddToScheme\<close> calls in order until one fails.\<close>

definition builder_law :: "('w, 's, 'b) SchemeApi \<Rightarrow> bool" where
  "builder_law api \<longleftrightarrow> (\<forall>fs gs scheme.
     AddToScheme api (Register api (NewSchemeBuilder api fs) gs) scheme = forE (fs @ gs) (\<lambda>f. f scheme))"

text \<open>
  The operator's own registration never panics, and adds both types to the group and version
  under which the custom resource is published; only the registration of the client library can.
\<close>

lemma main_init_registers:
  assumes "builder_law api" and "run_state (clientgo_AddToScheme api scheme) w = (Inr (), w1)"
  shows "run_state (main_init api scheme) w =
    (let w2 = snd (run_state (AddToGroupVersion api scheme SchemeGroupVersion) w1)
     in (Inr (), snd (run_state (AddKnownTypes api scheme SchemeGroupVersion [''ValkeyCluster'', ''ValkeyClusterList'']) w2)))"
proof -
  have "AddToScheme api (types_init api) scheme = forE [addGroupVersion api, addTypes api] (\<lambda>f. f scheme)"
    using assms(1) by (simp add: builder_law_def types_init_def SchemeBuilder_def)
  then show ?thesis
    using assms(2) by (simp add: main_init_def Must_def run_bindE run_wrapE addGroupVersion_def addTypes_def Let_def
        case_prod_beta)
qed

lemma main_init_fails:
  assumes "run_state (clientgo_AddToScheme api scheme) w = (Inl e, w1)"
  shows "run_state (main_init api scheme) w = (Inl (Panic ''Must''), w1)"
  using assms by (simp add: main_init_def Must_def run_bindE run_wrapE)

end
