(* ===== verification/Test_Utils.thy ===== *)
theory Test_Utils
  imports Go_Strings
begin

text \<open>
  \<^verbatim>\<open>test/utils/utils.go\<close>, the helpers of the end-to-end tests. The operating system (working
  directory, environment, files, processes, standard error) is a record of calls; so is the verb
  \<^verbatim>\<open>%q\<close> of \<^verbatim>\<open>fmt\<close>, which depends on the Unicode tables. \<^verbatim>\<open>bytes.Buffer\<close> never fails, so the
  error branches of its writes are not reached and are left out.
\<close>

section \<open>strings and bufio\<close>

text \<open>\<^verbatim>\<open>strings.Index(s, sub)\<close> for a substring: \<open>None\<close> is -1.\<close>

fun Index_sub :: "string \<Rightarrow> string \<Rightarrow> nat option" where
  "Index_sub [] sub = (if sub = [] then Some 0 else None)"
| "Index_sub (c # cs) sub = (if HasPrefix (c # cs) sub then Some 0 else map_option Suc (Index_sub cs sub))"

text \<open>\<^verbatim>\<open>strings.ReplaceAll(s, old, "")\<close> for a non-empty \<open>old\<close>\<close>

function remove_all :: "string \<Rightarrow> string \<Rightarrow> string" where
  "remove_all old [] = []"
| "remove_all old (c # cs) =
     (if old \<noteq> [] \<and> HasPrefix (c # cs) old then remove_all old (drop (length old) (c # cs)) else c # remove_all old cs)"
  by pat_completeness auto
termination
  by (relation "measure (length \<circ> snd)") auto

text \<open>
  The lines a \<^verbatim>\<open>bufio.Scanner\<close> returns: without their line feed and one carriage return before
  it, no empty line after a last line feed, and nothing from a line on that does not fit the
  buffer of 65536 bytes.
\<close>

definition MaxScanTokenSize :: nat where
  "MaxScanTokenSize = 65536"

definition dropCR :: "string \<Rightarrow> string" where
  "dropCR s = (if s \<noteq> [] \<and> last s = CHR 13 then butlast s else s)"

fun scan_parts :: "string list \<Rightarrow> string list" where
  "scan_parts [] = []"
| "scan_parts [p] = (if p = [] \<or> MaxScanTokenSize \<le> length p then [] else [dropCR p])"
| "scan_parts (p # q # ps) = (if MaxScanTokenSize \<le> length p then [] else dropCR p # scan_parts (q # ps))"

definition scan_lines :: "string \<Rightarrow> string list" where
  "scan_lines s = scan_parts (Split (CHR 10) s)"

section \<open>The operating system\<close>

record Cmd =
  Args :: "string list"
  Dir :: string
  Env :: "string list"

record 'w OS =
  quote :: "string \<Rightarrow> string"
  Getwd :: "('w, string \<times> error option) io"
  Chdir :: "string \<Rightarrow> ('w, unit) ioE"
  Environ :: "('w, string list) io"
  LookupEnv :: "string \<Rightarrow> ('w, string option) io"
  CombinedOutput :: "Cmd \<Rightarrow> ('w, string \<times> error option) io"
  ReadFile :: "string \<Rightarrow> ('w, string) ioE"
  WriteFile :: "string \<Rightarrow> string \<Rightarrow> ('w, unit) ioE"

text \<open>\<^verbatim>\<open>exec.Command(name, args...)\<close>\<close>

definition Command :: "string \<Rightarrow> string list \<Rightarrow> Cmd" where
  "Command name args = \<lparr>Args = name # args, Dir = [], Env = []\<rparr>"

section \<open>Commands\<close>

definition certmanagerVersion :: string where "certmanagerVersion = ''v1.20.2''"
definition defaultKindBinary :: string where "defaultKindBinary = ''kind''"
definition defaultKindCluster :: string where "defaultKindCluster = ''kind''"

definition certmanagerURL :: string where
  "certmanagerURL = ''https://github.com/cert-manager/cert-manager/releases/download/'' @ certmanagerVersion @
     ''/cert-manager.yaml''"

definition GetProjectDir :: "'w OS \<Rightarrow> ('w, string \<times> error option) io" where
  "GetProjectDir os = State_Monad.bind (Getwd os) (\<lambda>(wd, err). ret (case err of
     Some e \<Rightarrow> (wd, Some (Errorf ''failed to get current working directory'' (Some e)))
   | None \<Rightarrow> (remove_all ''/test/e2e'' wd, None)))"

text \<open>An error of \<^verbatim>\<open>os.Chdir\<close> is only printed.\<close>

definition Run :: "'w OS \<Rightarrow> Cmd \<Rightarrow> ('w, string \<times> error option) io" where
  "Run os cmd =
     State_Monad.bind (GetProjectDir os) (\<lambda>(dir, _).
     State_Monad.bind (Chdir os dir) (\<lambda>_.
     State_Monad.bind (Environ os) (\<lambda>env.
     State_Monad.bind (CombinedOutput os (cmd\<lparr>Dir := dir, Env := env @ [''GO111MODULE=on'']\<rparr>)) (\<lambda>(output, err).
       ret (output, case err of
         None \<Rightarrow> None
       | Some e \<Rightarrow> Some (Errorf (quote os (Join '' '' (Args cmd)) @ '' failed with error '' @ quote os output) (Some e)))))))"

definition UninstallCertManager :: "'w OS \<Rightarrow> ('w, unit) io" where
  "UninstallCertManager os =
     State_Monad.bind (Run os (Command ''kubectl'' [''delete'', ''-f'', certmanagerURL])) (\<lambda>_.
     forM [''cert-manager-cainjector-leader-election'', ''cert-manager-controller''] (\<lambda>lease.
       State_Monad.bind (Run os (Command ''kubectl'' [''delete'', ''lease'', lease, ''-n'', ''kube-system'',
         ''--ignore-not-found'', ''--force'', ''--grace-period=0''])) (\<lambda>_. ret ())))"

definition InstallCertManager :: "'w OS \<Rightarrow> ('w, error option) io" where
  "InstallCertManager os =
     State_Monad.bind (Run os (Command ''kubectl'' [''apply'', ''-f'', certmanagerURL])) (\<lambda>(_, err). case err of
       Some e \<Rightarrow> ret (Some e)
     | None \<Rightarrow> State_Monad.bind (Run os (Command ''kubectl'' [''wait'', ''deployment.apps/cert-manager-webhook'',
         ''--for'', ''condition=Available'', ''--namespace'', ''cert-manager'', ''--timeout'', ''5m''])) (\<lambda>(_, err). ret err))"

definition GetNonEmptyLines :: "string \<Rightarrow> string list" where
  "GetNonEmptyLines output = filter (\<lambda>element. element \<noteq> []) (Split (CHR 10) output)"

definition certManagerCRDs :: "string list" where
  "certManagerCRDs = [''certificates.cert-manager.io'', ''issuers.cert-manager.io'', ''clusterissuers.cert-manager.io'',
     ''certificaterequests.cert-manager.io'', ''orders.acme.cert-manager.io'', ''challenges.acme.cert-manager.io'']"

definition IsCertManagerCRDsInstalled :: "'w OS \<Rightarrow> ('w, bool) io" where
  "IsCertManagerCRDsInstalled os =
     State_Monad.bind (Run os (Command ''kubectl'' [''get'', ''crds''])) (\<lambda>(output, err). ret (
       if err \<noteq> None then False
       else list_ex (\<lambda>crd. list_ex (\<lambda>line. Contains line crd) (GetNonEmptyLines output)) certManagerCRDs))"

definition LoadImageToKindClusterWithName :: "'w OS \<Rightarrow> string \<Rightarrow> ('w, error option) io" where
  "LoadImageToKindClusterWithName os name =
     State_Monad.bind (LookupEnv os ''KIND_CLUSTER'') (\<lambda>v.
     State_Monad.bind (LookupEnv os ''KIND'') (\<lambda>b.
     let cluster = (case v of Some x \<Rightarrow> x | None \<Rightarrow> defaultKindCluster);
         kindBinary = (case b of Some x \<Rightarrow> x | None \<Rightarrow> defaultKindBinary)
     in State_Monad.bind (Run os (Command kindBinary [''load'', ''docker-image'', name, ''--name'', cluster])) (\<lambda>(_, err). ret err)))"

section \<open>UncommentCode\<close>

text \<open>What is written for the target: its lines without the prefix, a line feed between them.\<close>

definition uncommented :: "string \<Rightarrow> string \<Rightarrow> string" where
  "uncommented target prefix = Join [CHR 10] (map (\<lambda>line. TrimPrefix line prefix) (scan_lines target))"

definition UncommentCode :: "'w OS \<Rightarrow> string \<Rightarrow> string \<Rightarrow> string \<Rightarrow> ('w, unit) ioE" where
  "UncommentCode os filename target prefix =
     bindE (wrapE (\<lambda>e. Errorf (''failed to read file '' @ quote os filename) (Some e)) (ReadFile os filename)) (\<lambda>content.
     case Index_sub content target of
       None \<Rightarrow> failE (Errorf (''unable to find the code '' @ quote os target @ '' to be uncommented'') None)
     | Some idx \<Rightarrow>
         if scan_lines target = [] then retE ()
         else wrapE (\<lambda>e. Errorf (''failed to write file '' @ quote os filename) (Some e))
           (WriteFile os filename (take idx content @ uncommented target prefix @ drop (idx + length target) content)))"

section \<open>Properties\<close>

lemma HasPrefix_iff: "HasPrefix s p \<longleftrightarrow> take (length p) s = p"
  by (induction s p rule: HasPrefix.induct) auto

lemma TrimPrefix_append [simp]: "TrimPrefix (p @ s) p = s"
  by (simp add: TrimPrefix_def HasPrefix_iff)

text \<open>\<open>Index_sub\<close> finds the first occurrence.\<close>

lemma Index_sub_Some:
  "Index_sub s sub = Some i \<Longrightarrow> take (length sub) (drop i s) = sub \<and> i \<le> length s \<and>
     (\<forall>j < i. take (length sub) (drop j s) \<noteq> sub)"
proof (induction s sub arbitrary: i rule: Index_sub.induct)
  case (2 c cs sub)
  show ?case
  proof (cases "HasPrefix (c # cs) sub")
    case True
    with 2 show ?thesis by (auto simp: HasPrefix_iff)
  next
    case False
    with 2 obtain k where k: "i = Suc k" "Index_sub cs sub = Some k" by auto
    have "take (length sub) (drop j (c # cs)) \<noteq> sub" if "j < i" for j
      using 2(1) [OF False k(2)] that False k(1) by (cases j) (auto simp: HasPrefix_iff)
    then show ?thesis using 2(1) [OF False k(2)] k(1) by auto
  qed
qed (auto split: if_splits)

lemma Index_sub_None: "Index_sub s sub = None \<longleftrightarrow> (\<forall>i \<le> length s. take (length sub) (drop i s) \<noteq> sub)"
proof (induction s sub rule: Index_sub.induct)
  case (2 c cs sub)
  have "(\<forall>i \<le> length (c # cs). take (length sub) (drop i (c # cs)) \<noteq> sub) \<longleftrightarrow>
      \<not> HasPrefix (c # cs) sub \<and> (\<forall>i \<le> length cs. take (length sub) (drop i cs) \<noteq> sub)"
    by (simp add: HasPrefix_iff All_less_Suc2 flip: less_Suc_eq_le)
  with 2 show ?case by auto
qed auto

lemma GetNonEmptyLines_exact:
  assumes "\<And>l. l \<in> set ls \<Longrightarrow> CHR 10 \<notin> set l"
  shows "GetNonEmptyLines (Join [CHR 10] ls) = filter (\<lambda>l. l \<noteq> []) ls"
proof (cases "ls = []")
  case True
  then show ?thesis by (simp add: GetNonEmptyLines_def)
next
  case False
  then show ?thesis using Split_Join [OF False assms] by (simp only: GetNonEmptyLines_def)
qed

definition plain_line :: "string \<Rightarrow> bool" where
  "plain_line l \<longleftrightarrow> l \<noteq> [] \<and> CHR 10 \<notin> set l \<and> last l \<noteq> CHR 13 \<and> length l < MaxScanTokenSize"

lemma scan_parts_plain: "list_all plain_line ls \<Longrightarrow> scan_parts ls = ls"
  by (induction ls rule: scan_parts.induct) (simp_all add: plain_line_def dropCR_def)

lemma scan_lines_plain:
  assumes "ls \<noteq> []" "\<And>l. l \<in> set ls \<Longrightarrow> plain_line l"
  shows "scan_lines (Join [CHR 10] ls) = ls"
proof -
  have "Split (CHR 10) (Join [CHR 10] ls) = ls"
    using assms by (intro Split_Join) (auto simp: plain_line_def)
  then show ?thesis using assms(2) by (simp add: scan_lines_def scan_parts_plain list_all_iff)
qed

text \<open>
  Uncommenting undoes commenting: where the file holds the lines of some code, each with the
  prefix in front, the first such place is rewritten to the code and nothing else changes.
\<close>

lemma UncommentCode_restores:
  assumes "run_state (ReadFile os f) w = (Inr content, w1)"
    and ls: "ls \<noteq> []" "\<And>l. l \<in> set ls \<Longrightarrow> plain_line (prefix @ l)"
    and target: "target = Join [CHR 10] (map (\<lambda>l. prefix @ l) ls)"
    and idx: "Index_sub content target = Some i"
  shows "run_state (UncommentCode os f target prefix) w =
    run_state (wrapE (\<lambda>e. Errorf (''failed to write file '' @ quote os f) (Some e))
      (WriteFile os f (take i content @ Join [CHR 10] ls @ drop (i + length target) content))) w1"
proof -
  have "scan_lines target = map (\<lambda>l. prefix @ l) ls"
    unfolding target using ls by (intro scan_lines_plain) auto
  moreover then have "uncommented target prefix = Join [CHR 10] ls"
    by (simp add: uncommented_def comp_def)
  ultimately show ?thesis using assms(1) ls(1) idx
    by (simp add: UncommentCode_def run_bindE run_wrapE)
qed

text \<open>
  A target that ends in a line feed loses it, so the line after it is joined to the last
  line of the target; and a target with no line is silently accepted without a write.
\<close>

lemma uncommented_drops_newline: "uncommented (''#a'' @ [CHR 10]) ''#'' = ''a''"
  by (simp add: uncommented_def scan_lines_def dropCR_def TrimPrefix_def MaxScanTokenSize_def)

lemma UncommentCode_empty_target:
  assumes "run_state (ReadFile os f) w = (Inr content, w1)"
  shows "run_state (UncommentCode os f [] prefix) w = (Inr (), w1)"
proof -
  have "Index_sub content [] = Some 0" by (cases content) simp_all
  then show ?thesis using assms by (simp add: UncommentCode_def run_bindE run_wrapE scan_lines_def)
qed

end
