(* ===== verification/Command_Line.thy ===== *)
theory Command_Line
  imports Operator_Main
begin

text \<open>
  The command line of the operator: the flags \<^verbatim>\<open>cmd/main.go\<close> declares and what the standard
  library's \<^verbatim>\<open>flag.Parse\<close> does with the arguments. Other libraries add flags to the same set (the
  logging library, and the one that reads a kubeconfig); which names they add, which of those are
  boolean and which values they accept is a parameter. The main result is a round trip: the
  arguments printed for a set of flags are read back as those flags.
\<close>

datatype Setter = BoolVar "bool \<Rightarrow> MainFlags \<Rightarrow> MainFlags" | StringVar "string \<Rightarrow> MainFlags \<Rightarrow> MainFlags"

definition own_flags :: "(string \<times> Setter) list" where
  "own_flags =
     [(''metrics-bind-address'', StringVar (\<lambda>v. metricsAddr_update (\<lambda>_. v))),
      (''health-probe-bind-address'', StringVar (\<lambda>v. probeAddr_update (\<lambda>_. v))),
      (''leader-elect'', BoolVar (\<lambda>v. enableLeaderElection_update (\<lambda>_. v))),
      (''metrics-secure'', BoolVar (\<lambda>v. secureMetrics_update (\<lambda>_. v))),
      (''webhook-cert-path'', StringVar (\<lambda>v. webhookCertPath_update (\<lambda>_. v))),
      (''webhook-cert-name'', StringVar (\<lambda>v. webhookCertName_update (\<lambda>_. v))),
      (''webhook-cert-key'', StringVar (\<lambda>v. webhookCertKey_update (\<lambda>_. v))),
      (''metrics-cert-path'', StringVar (\<lambda>v. metricsCertPath_update (\<lambda>_. v))),
      (''metrics-cert-name'', StringVar (\<lambda>v. metricsCertName_update (\<lambda>_. v))),
      (''metrics-cert-key'', StringVar (\<lambda>v. metricsCertKey_update (\<lambda>_. v))),
      (''enable-http2'', BoolVar (\<lambda>v. enableHTTP2_update (\<lambda>_. v)))]"

text \<open>Flags of other libraries: \<open>Some True\<close> is a boolean flag, \<open>None\<close> one that is not defined.\<close>

record OtherFlags =
  otherKind :: "string \<Rightarrow> bool option"
  otherSet :: "string \<Rightarrow> string \<Rightarrow> bool"

section \<open>The flag package\<close>

definition ParseBool :: "string \<Rightarrow> bool option" where
  "ParseBool s =
     (if s \<in> set [''1'', ''t'', ''T'', ''TRUE'', ''true'', ''True''] then Some True
      else if s \<in> set [''0'', ''f'', ''F'', ''FALSE'', ''false'', ''False''] then Some False
      else None)"

datatype outcome = Parsed MainFlags | Help | BadFlag

text \<open>One argument: not a flag (or the terminator), malformed, or a name with the value after \<^verbatim>\<open>=\<close>.\<close>

datatype token = Stop | Malformed | Flag string "string option"

definition split_value :: "string \<Rightarrow> string \<times> string option" where
  "split_value name = (case name of
     [] \<Rightarrow> ([], None)
   | c # cs \<Rightarrow> (case Cut (CHR ''='') cs of (a, b, ok) \<Rightarrow> (c # a, if ok then Some b else None)))"

definition scan_arg :: "string \<Rightarrow> token" where
  "scan_arg s =
     (if length s < 2 \<or> hd s \<noteq> CHR ''-'' \<or> s = ''--'' then Stop
      else let name = (if s ! 1 = CHR ''-'' then drop 2 s else drop 1 s)
           in if name = [] \<or> hd name = CHR ''-'' \<or> hd name = CHR ''='' then Malformed
              else case split_value name of (n, v) \<Rightarrow> Flag n v)"

text \<open>Setting a flag, which fails on a value it does not accept.\<close>

definition set_flag :: "OtherFlags \<Rightarrow> string \<Rightarrow> string \<Rightarrow> MainFlags \<Rightarrow> MainFlags option" where
  "set_flag oth name v fl = (case map_of own_flags name of
     Some (BoolVar f) \<Rightarrow> (case ParseBool v of None \<Rightarrow> None | Some b \<Rightarrow> Some (f b fl))
   | Some (StringVar f) \<Rightarrow> Some (f v fl)
   | None \<Rightarrow> if otherSet oth name v then Some fl else None)"

text \<open>A flag that is not boolean takes the next argument when it has no value of its own.\<close>

definition flag_kind :: "OtherFlags \<Rightarrow> string \<Rightarrow> bool option" where
  "flag_kind oth name = (case map_of own_flags name of
     Some (BoolVar _) \<Rightarrow> Some True | Some (StringVar _) \<Rightarrow> Some False | None \<Rightarrow> otherKind oth name)"

fun Parse :: "OtherFlags \<Rightarrow> string list \<Rightarrow> MainFlags \<Rightarrow> outcome" where
  "Parse oth [] fl = Parsed fl"
| "Parse oth (s # args) fl = (case scan_arg s of
     Stop \<Rightarrow> Parsed fl
   | Malformed \<Rightarrow> BadFlag
   | Flag name v \<Rightarrow> (case flag_kind oth name of
       None \<Rightarrow> if name = ''help'' \<or> name = ''h'' then Help else BadFlag
     | Some True \<Rightarrow> (case set_flag oth name (case v of Some x \<Rightarrow> x | None \<Rightarrow> ''true'') fl of
         None \<Rightarrow> BadFlag | Some fl' \<Rightarrow> Parse oth args fl')
     | Some False \<Rightarrow> (case v of
         Some x \<Rightarrow> (case set_flag oth name x fl of None \<Rightarrow> BadFlag | Some fl' \<Rightarrow> Parse oth args fl')
       | None \<Rightarrow> (case args of
           [] \<Rightarrow> BadFlag
         | x # args' \<Rightarrow> (case set_flag oth name x fl of None \<Rightarrow> BadFlag | Some fl' \<Rightarrow> Parse oth args' fl')))))"

text \<open>The process: \<^verbatim>\<open>flag.Parse\<close> exits with 0 after printing help and with 2 after an error.\<close>

definition main_process :: "OtherFlags \<Rightarrow> ('w, 'c, 'm) Runtime \<Rightarrow> 'w Environment \<Rightarrow> ('w, 'c, 'k, 'u, 'x) ExecApi \<Rightarrow>
    string list \<Rightarrow> ('w, int) io" where
  "main_process oth rt env api args = (case Parse oth args default_flags of
     Help \<Rightarrow> ret 0 | BadFlag \<Rightarrow> ret 2 | Parsed fl \<Rightarrow> main rt env api fl)"

section \<open>Round trip\<close>

definition FormatBool :: "bool \<Rightarrow> string" where
  "FormatBool b = (if b then ''true'' else ''false'')"

definition flag_arg :: "string \<Rightarrow> string \<Rightarrow> string" where
  "flag_arg name v = ''--'' @ name @ ''='' @ v"

definition flag_args :: "MainFlags \<Rightarrow> string list" where
  "flag_args fl =
     [flag_arg ''metrics-bind-address'' (metricsAddr fl), flag_arg ''health-probe-bind-address'' (probeAddr fl),
      flag_arg ''leader-elect'' (FormatBool (enableLeaderElection fl)), flag_arg ''metrics-secure'' (FormatBool (secureMetrics fl)),
      flag_arg ''webhook-cert-path'' (webhookCertPath fl), flag_arg ''webhook-cert-name'' (webhookCertName fl),
      flag_arg ''webhook-cert-key'' (webhookCertKey fl), flag_arg ''metrics-cert-path'' (metricsCertPath fl),
      flag_arg ''metrics-cert-name'' (metricsCertName fl), flag_arg ''metrics-cert-key'' (metricsCertKey fl),
      flag_arg ''enable-http2'' (FormatBool (enableHTTP2 fl))]"

lemma ParseBool_FormatBool [simp]: "ParseBool (FormatBool b) = Some b"
  by (simp add: ParseBool_def FormatBool_def)

text \<open>A name that can be written on the command line.\<close>

definition flag_name :: "string \<Rightarrow> bool" where
  "flag_name n \<longleftrightarrow> n \<noteq> [] \<and> hd n \<noteq> CHR ''-'' \<and> CHR ''='' \<notin> set n"

lemma scan_flag_arg:
  assumes "flag_name n"
  shows "scan_arg (flag_arg n v) = Flag n (Some v)"
proof -
  obtain c cs where n: "n = c # cs" using assms by (cases n) (auto simp: flag_name_def)
  have "Cut (CHR ''='') (cs @ CHR ''='' # v) = (cs, v, True)"
    using assms n by (intro Cut_append_sep) (simp add: flag_name_def)
  then show ?thesis using assms n
    by (auto simp: scan_arg_def flag_arg_def split_value_def flag_name_def)
qed

lemma Parse_flag_arg:
  assumes "flag_name n" "map_of own_flags n \<noteq> None"
  shows "Parse oth (flag_arg n v # args) fl = (case the (map_of own_flags n) of
      StringVar f \<Rightarrow> Parse oth args (f v fl)
    | BoolVar f \<Rightarrow> (case ParseBool v of None \<Rightarrow> BadFlag | Some b \<Rightarrow> Parse oth args (f b fl)))"
  using assms(2) by (auto simp: scan_flag_arg [OF assms(1)] flag_kind_def set_flag_def split: Setter.splits option.splits)

text \<open>
  Whatever flags the other libraries define, the arguments printed for a set of flags set
  exactly those, and an empty command line leaves the defaults.
\<close>

lemma Parse_flag_args: "Parse oth (flag_args fl) fl0 = Parsed fl"
  by (cases fl, cases fl0)
    (simp add: flag_args_def Parse_flag_arg own_flags_def flag_name_def del: Parse.simps(2))

end
