(* ===== verification/Spec2Isabelle.thy ===== *)
theory Spec2Isabelle
  imports Topology Node_Parser Status_Laws Lifecycle Known_Gaps Deep_Copies Scheme_Setup Test_Utils Command_Line
begin

text \<open>
  A verification of the Valkey cluster operator, a Kubernetes controller in Go that forms,
  scales, repairs and deletes Valkey clusters. Paths are relative to \<^verbatim>\<open>src/\<close>.

  \<^bold>\<open>The program.\<close> A \<^verbatim>\<open>ValkeyCluster\<close> resource (\<^verbatim>\<open>api/v1alpha1\<close>) declares shards and replicas. The
  manager started by \<^verbatim>\<open>cmd/main.go\<close> calls \<^verbatim>\<open>Reconcile\<close> (\<^verbatim>\<open>internal/controller\<close>) for it again and again. A
  call ensures the Kubernetes objects (built by \<^verbatim>\<open>internal/resources\<close>), waits for the pods, observes
  the cluster through the interface \<^verbatim>\<open>ClusterAdmin\<close> (\<^verbatim>\<open>internal/cluster\<close>), lets the planner
  (\<^verbatim>\<open>internal/topology\<close>) pick one action, carries it out with the slot split of \<^verbatim>\<open>internal/slots\<close>, and
  publishes a status. Two types implement the interface: \<^verbatim>\<open>Admin\<close> in \<^verbatim>\<open>goredis.go\<close> talks to Valkey
  processes, \<^verbatim>\<open>Fake\<close> in \<^verbatim>\<open>fake.go\<close> is a cluster in memory on which the controller is tested.

  \<^bold>\<open>How Go is modelled.\<close>
  \<^item> \<open>Prelude\<close>: a function with effects is a computation of the library's state monad over a world
    type; \<open>error + 'a\<close> is its result if it can fail. A panic is an error value, so that ``no
    panic'' is a statement. Hoare triples and preservation rules for these computations.
  \<^item> \<open>Go_Strings\<close>, \<open>Go_Ints\<close>, \<open>Go_Sha256\<close>, \<open>Net_IP\<close>: what the sources use of \<^verbatim>\<open>strconv\<close>, \<^verbatim>\<open>strings\<close>, \<^verbatim>\<open>fmt\<close>,
    fixed-width integers, \<^verbatim>\<open>crypto/sha256\<close> and \<^verbatim>\<open>net\<close>.
  \<^item> \<open>Go_Memory\<close>: cells, pointers, slices and allocation, for the generated copies only. Everywhere
    else resources are values, which \<open>Deep_Copies\<close> justifies.
  \<^item> A Go interface, and a library that is not in the repository, is a record of functions:
    \<open>ClusterAdmin\<close>, \<open>Client\<close> (API server), \<open>Redis\<close> (go-redis, resolver and Valkey processes),
    \<open>ExecApi\<close>, \<open>Runtime\<close> (controller-runtime), \<open>SchemeApi\<close>, \<open>Library\<close> (library structs), \<open>OS\<close>.
    What a property needs of one is a named predicate: \<open>client_frame\<close>, \<open>quiet\<close>, \<open>claims_law\<close>,
    \<open>valkey_laws\<close>, \<open>repair_laws\<close>, \<open>library_laws\<close>. Each is shown to hold of a concrete instance
    (\<open>Store_Client\<close>, \<open>Valkey_Net\<close>, \<open>lib0\<close>) by the witnesses.
  \<^item> Go maps are association lists, and the order in which a loop visits one is a parameter
    (\<open>map_order\<close>, \<open>visit\<close>) over which the properties quantify.

  \<^bold>\<open>Components.\<close>
  \<^item> \<open>Slot_Distribution\<close> (\<^verbatim>\<open>slots.go\<close>) and \<open>Topology\<close> (\<^verbatim>\<open>topology.go\<close>): the split is a balanced partition
    and does not wrap at 64 bits; the planner picks the documented action for every input.
  \<^item> \<open>Cluster_Types\<close> (\<^verbatim>\<open>admin.go\<close>), \<open>Fake\<close> (\<^verbatim>\<open>fake.go\<close>): the invariant of the in-memory cluster, kept by
    every method, and the exact effect of each.
  \<^item> \<open>Node_Parser\<close> (parsers of \<^verbatim>\<open>goredis.go\<close>): what is printed in the documented format is read back.
  \<^item> \<open>Kube_Types\<close>, \<open>Api_Types\<close> (\<^verbatim>\<open>valkeycluster_types.go\<close>), \<open>Builders\<close> (\<^verbatim>\<open>builders.go\<close>): names are unique,
    labels, selectors and volumes fit together, \<^verbatim>\<open>valkey.conf\<close> has the intended directives.
  \<^item> \<open>Kube_Client\<close> (\<^verbatim>\<open>controller/resources.go\<close>), \<open>Cluster_Status\<close> (\<^verbatim>\<open>status.go\<close>), \<open>Membership\<close>
    (\<^verbatim>\<open>membership.go\<close>), \<open>Scaling\<close> (\<^verbatim>\<open>scaling.go\<close>), \<open>Reconcile\<close> (\<^verbatim>\<open>reconcile.go\<close>,
    \<^verbatim>\<open>valkeycluster_controller.go\<close>): the controller, one definition per function, and a helper
    where a function has a loop.
  \<^item> \<open>Go_Redis\<close> (\<^verbatim>\<open>goredis.go\<close>), \<open>Pod_Exec\<close> (\<^verbatim>\<open>exec.go\<close>), \<open>Operator_Main\<close> (\<^verbatim>\<open>cmd/main.go\<close>): the live admin,
    commands in pods, options and wiring of the manager. \<open>Command_Line\<close>: its flags, and what \<^verbatim>\<open>flag.Parse\<close>
    makes of the arguments; flags that other libraries add are a parameter (\<open>OtherFlags\<close>).
  \<^item> \<open>Deep_Copies\<close> (\<^verbatim>\<open>zz_generated.deepcopy.go\<close>), \<open>Scheme_Setup\<close> (\<^verbatim>\<open>groupversion_info.go\<close> and the \<^verbatim>\<open>init\<close>
    functions), \<open>Test_Utils\<close> (\<^verbatim>\<open>test/utils/utils.go\<close>).

  \<^bold>\<open>Interfaces.\<close> The controller is verified against the contract of \<^verbatim>\<open>ClusterAdmin\<close>, in four steps that
  ask for more and give more: \<open>cluster_admin\<close> (\<open>Admin_Contract\<close>: calls may fail, and what they
  leave as it was), \<open>reconciling\<close> (\<open>Membership\<close>: with a reconciler around it), \<open>reliable\<close>
  (\<open>Scale_Filling\<close>: calls succeed), \<open>direct\<close> (\<open>Attachment\<close>: the reported state follows at once).
  \<open>Fake_Contract\<close> and \<open>Fake_Controller\<close> interpret them on the in-memory cluster as \<open>fake\<close>, \<open>rec\<close>,
  \<open>rel\<close> and \<open>dir\<close>. \<open>footprint\<close> and \<open>deep_copyable\<close> (\<open>Go_Memory\<close>) are the contract of a copying
  method, interpreted in \<open>Deep_Copies\<close> for the generated ones.

  \<^bold>\<open>What is shown across components.\<close>
  \<^item> \<open>Scale_Filling\<close>, \<open>Scale_Out\<close>, \<open>Scale_In\<close>, \<open>Drain_Progress\<close>, \<open>Attachment\<close>, \<open>Convergence\<close>, \<open>Settled\<close>:
    the actions against the contract; whichever calls fail no slot is lost and the loops end.
  \<^item> \<open>Passes\<close>, \<open>Pass_Scale_Out\<close>, \<open>Pass_Scale_In\<close>, \<open>Pass_Steady\<close>: whole passes form a cluster, add
    shards, drain a shard by one bounded batch, and leave a converged cluster alone.
  \<^item> \<open>No_Panic\<close>: \<^verbatim>\<open>Reconcile\<close> always returns, without a panic. \<open>Lifecycle\<close>: it waits for the pods, and
    the finalizer outlives the volume claims. \<open>Status_Laws\<close>: what the status Ready means.
  \<^item> \<open>Slot_Moves\<close>, \<open>Live_Moves\<close>, \<open>Live_Repair\<close>, \<open>Live_State\<close>: against the documented behaviour of the
    Valkey commands, with any of them failing, \<^verbatim>\<open>MoveSlots\<close> and \<^verbatim>\<open>RepairSlots\<close> lose no key, and on
    slot counts \<^verbatim>\<open>MoveSlots\<close> does what the in-memory cluster does.
  \<^item> \<open>Known_Gaps\<close>: where the code does not do what its comments and documents say.

  \<^bold>\<open>Bounds.\<close> Two loops of the source have no bound of their own, and their models take a number of
  rounds, \<open>OutOfFuel\<close> being the result when it is used up. \<open>fill_shard\<close> (\<^verbatim>\<open>for need > 0\<close> in \<^verbatim>\<open>scaleOut\<close>)
  gets as many rounds as slots are needed: a round that does not return moves at least one
  slot, and \<open>No_Panic\<close> shows that no call of \<^verbatim>\<open>Reconcile\<close> is cut off. \<open>migrate_keys\<close> (\<^verbatim>\<open>for { ... }\<close> in
  \<^verbatim>\<open>MoveSlots\<close>) gets the field \<open>rounds\<close> of the admin: \<open>Live_Moves\<close> shows that more rounds than
  the source holds keys in any slot are enough, since a round that does not return moves a
  key. All other loops are structural. Slot numbers, counts and ordinals are integers; widths
  are kept where the source multiplies or narrows (\<open>Distribute64\<close>, the fields of the resource, the
  memory limit in \<open>RenderValkeyConf\<close>).

  \<^bold>\<open>Not modelled.\<close>
  \<^item> Contexts, deadlines, log lines and the pauses between calls: no result depends on them.
  \<^item> The go-redis client, Valkey itself, gossip, the API server, controller-runtime, the SPDY
    executor: not in the repository; they are the records above.
  \<^item> Goroutines and locks: one call of \<^verbatim>\<open>Reconcile\<close> per resource runs at a time, and the mutex of
    \<^verbatim>\<open>Fake\<close> makes each of its methods one step.
  \<^item> The texts of \<^verbatim>\<open>test/e2e\<close> and the \<^verbatim>\<open>_test.go\<close> files, shell scripts and manifests.
  \<^item> The parts of library structs that no source line reads or sets.
\<close>

end
